(* ===== verification/Exec_Prelude.thy ===== *)
theory Exec_Prelude
  imports Main "HOL-Library.AList"
begin

text \<open>
  Shared vocabulary of the development.

  Python exceptions are values: a fallible computation returns \<open>pyexn + 'a\<close> with the
  exception on the left, and a stateful one returns the new state beside it, because a Python
  object keeps the mutations made before the raise. The exception classes of the program are
  constructors; the class hierarchy is the predicates \<open>isa_*\<close>, so an \<open>except\<close> clause is a
  test. Message texts of exceptions are not part of the model (no code of the program reads
  them back).
\<close>

section \<open>Exceptions\<close>

datatype pyexn =
    TypeError | ValueError | KeyError | IndexError | OverflowError | AttributeError
  | ZeroDivisionError | AssertionError | OSError | SqliteError
  | InvalidOrderError | NoMarketPriceError
  | BrokerError | TransientBrokerError | ReconcileUnavailableError | MarketClosedError
  | LiveConfigError | MissingSecretError | SharedQueueMissing
  | OtherException string

type_synonym 'a res = "pyexn + 'a"

text \<open>The subclass relations that the \<open>except\<close> clauses of the program rely on.\<close>

definition isa_InvalidOrder :: "pyexn \<Rightarrow> bool" where
  "isa_InvalidOrder e \<longleftrightarrow> e = InvalidOrderError \<or> e = NoMarketPriceError"

definition isa_TransientBroker :: "pyexn \<Rightarrow> bool" where
  "isa_TransientBroker e \<longleftrightarrow> e = TransientBrokerError \<or> e = ReconcileUnavailableError"

definition isa_Broker :: "pyexn \<Rightarrow> bool" where
  "isa_Broker e \<longleftrightarrow> e = BrokerError \<or> isa_TransientBroker e \<or> e = MarketClosedError
     \<or> e = LiveConfigError"

definition isa_TypeOrValue :: "pyexn \<Rightarrow> bool" where
  "isa_TypeOrValue e \<longleftrightarrow> e = TypeError \<or> e = ValueError"

section \<open>Sequencing fallible computations\<close>

definition ebind :: "'a res \<Rightarrow> ('a \<Rightarrow> 'b res) \<Rightarrow> 'b res" where
  "ebind m f = (case m of Inl e \<Rightarrow> Inl e | Inr a \<Rightarrow> f a)"

definition emap :: "('a \<Rightarrow> 'b) \<Rightarrow> 'a res \<Rightarrow> 'b res" where
  "emap f m = (case m of Inl e \<Rightarrow> Inl e | Inr a \<Rightarrow> Inr (f a))"

fun emapM :: "('a \<Rightarrow> 'b res) \<Rightarrow> 'a list \<Rightarrow> 'b list res" where
  "emapM f [] = Inr []"
| "emapM f (x # xs) = ebind (f x) (\<lambda>y. emap (\<lambda>ys. y # ys) (emapM f xs))"

text \<open>A statement \<open>try: v = m except C: v = d\<close>.\<close>

definition ecatch :: "(pyexn \<Rightarrow> bool) \<Rightarrow> 'a res \<Rightarrow> 'a \<Rightarrow> 'a res" where
  "ecatch c m d = (case m of Inl e \<Rightarrow> if c e then Inr d else Inl e | Inr a \<Rightarrow> Inr a)"

lemma ebind_simps [simp]: "ebind (Inl e) f = Inl e" "ebind (Inr a) f = f a"
  by (simp_all add: ebind_def)

lemma emap_simps [simp]: "emap f (Inl e) = Inl e" "emap f (Inr a) = Inr (f a)"
  by (simp_all add: emap_def)

lemma ecatch_simps [simp]:
  "ecatch c (Inr a) d = Inr a" "c e \<Longrightarrow> ecatch c (Inl e) d = Inr d"
  "\<not> c e \<Longrightarrow> ecatch c (Inl e) d = Inl e"
  by (simp_all add: ecatch_def)

lemma emap_ebind: "emap f (ebind m g) = ebind m (\<lambda>a. emap f (g a))"
  by (simp add: ebind_def emap_def split: sum.splits)

lemma ebind_Inr_iff: "ebind m f = Inr b \<longleftrightarrow> (\<exists>a. m = Inr a \<and> f a = Inr b)"
  by (cases m) auto

lemma emap_Inr_iff: "emap f m = Inr b \<longleftrightarrow> (\<exists>a. m = Inr a \<and> b = f a)"
  by (cases m) auto

lemma ebind_Inl_iff: "ebind m f = Inl e \<longleftrightarrow> m = Inl e \<or> (\<exists>a. m = Inr a \<and> f a = Inl e)"
  by (cases m) auto

lemma emapM_Inr_length: "emapM f xs = Inr ys \<Longrightarrow> length ys = length xs"
  by (induction xs arbitrary: ys) (auto simp: ebind_Inr_iff emap_Inr_iff)

lemmas res_iffs = ebind_Inr_iff emap_Inr_iff ebind_Inl_iff

section \<open>Stateful computations\<close>

text \<open>A method that reads and writes a state and may raise: the state it leaves behind is returned
  in either case. \<open>scatch c m h\<close> is \<open>try: m except C as e: h e\<close>, run on the state the body left.\<close>

type_synonym ('s, 'a) act = "'s \<Rightarrow> 's \<times> 'a res"

definition sret :: "'a \<Rightarrow> ('s, 'a) act" where
  "sret a s = (s, Inr a)"

definition sraise :: "pyexn \<Rightarrow> ('s, 'a) act" where
  "sraise e s = (s, Inl e)"

definition slift :: "'a res \<Rightarrow> ('s, 'a) act" where
  "slift r s = (s, r)"

definition sbind :: "('s, 'a) act \<Rightarrow> ('a \<Rightarrow> ('s, 'b) act) \<Rightarrow> ('s, 'b) act" where
  "sbind m f s = (case m s of (s1, Inl e) \<Rightarrow> (s1, Inl e) | (s1, Inr a) \<Rightarrow> f a s1)"

definition scatch :: "(pyexn \<Rightarrow> bool) \<Rightarrow> ('s, 'a) act \<Rightarrow> (pyexn \<Rightarrow> ('s, 'a) act) \<Rightarrow> ('s, 'a) act" where
  "scatch c m h s = (case m s of (s1, Inl e) \<Rightarrow> if c e then h e s1 else (s1, Inl e) | (s1, Inr a) \<Rightarrow> (s1, Inr a))"

lemma act_simps [simp]:
  "sret a s = (s, Inr a)" "sraise e s = (s, Inl e)" "slift r s = (s, r)"
  by (simp_all add: sret_def sraise_def slift_def)

lemma sbind_simps [simp]:
  "m s = (s1, Inr a) \<Longrightarrow> sbind m f s = f a s1" "m s = (s1, Inl e) \<Longrightarrow> sbind m f s = (s1, Inl e)"
  by (simp_all add: sbind_def)

lemma sbind_ret [simp]: "sbind (sret a) f = f a" "sbind (slift (Inr a)) f = f a" "sbind (slift (Inl e)) f = sraise e"
  "sbind (sraise e) f = sraise e"
  by (rule ext; simp)+

text \<open>An invariant of the state that every part of a computation keeps, the whole keeps.\<close>

definition keeps :: "('s \<Rightarrow> bool) \<Rightarrow> ('s, 'a) act \<Rightarrow> bool" where
  "keeps I m \<longleftrightarrow> (\<forall>s. I s \<longrightarrow> I (fst (m s)))"

named_theorems keeps_intros

lemma keepsD: "keeps I m \<Longrightarrow> I s \<Longrightarrow> m s = (s1, r) \<Longrightarrow> I s1"
  unfolding keeps_def by (metis fst_conv)

lemma keeps_ret [keeps_intros]: "keeps I (sret a)" "keeps I (sraise e)" "keeps I (slift r)"
  by (simp_all add: keeps_def)

lemma keeps_bind [keeps_intros]: "keeps I m \<Longrightarrow> (\<And>a. keeps I (f a)) \<Longrightarrow> keeps I (sbind m f)"
  unfolding keeps_def sbind_def by (auto split: prod.splits sum.splits)

lemma keeps_catch [keeps_intros]: "keeps I m \<Longrightarrow> (\<And>e. keeps I (h e)) \<Longrightarrow> keeps I (scatch c m h)"
  unfolding keeps_def scatch_def by (auto split: prod.splits sum.splits)

lemma keeps_if [keeps_intros]: "(b \<Longrightarrow> keeps I m) \<Longrightarrow> (\<not> b \<Longrightarrow> keeps I n) \<Longrightarrow> keeps I (if b then m else n)"
  by simp

lemma keeps_option [keeps_intros]: "keeps I m \<Longrightarrow> (\<And>x. keeps I (f x)) \<Longrightarrow> keeps I (case opt of None \<Rightarrow> m | Some x \<Rightarrow> f x)"
  by (cases opt) auto

lemma keeps_prod [keeps_intros]: "(\<And>a b. keeps I (f a b)) \<Longrightarrow> keeps I (case p of (a, b) \<Rightarrow> f a b)"
  by (cases p) auto

section \<open>Lists and association lists\<close>

text \<open>Python's \<open>dict[k] = v\<close> keeps the position of an existing key and appends a new one;
  that is \<^const>\<open>AList.update\<close>. Reading it back is the map of the list.\<close>

lemma map_of_update [simp]: "map_of (AList.update k v xs) = (map_of xs)(k \<mapsto> v)"
  by (simp add: update_conv')

lemma filter_map_snd_eq: "(\<And>x. x \<in> set xs \<Longrightarrow> P (f x) = P x) \<Longrightarrow>
    map f (filter P xs) = filter P (map f xs)"
  by (induction xs) auto

lemma map_cong_id: "(\<And>x. x \<in> set xs \<Longrightarrow> f x = x) \<Longrightarrow> map f xs = xs"
  by (induction xs) auto

lemma length_filter_map_if:
  "length (filter P (map f xs)) = length (filter (P \<circ> f) xs)"
  by (simp add: filter_map)

lemma distinct_map_append:
  "distinct (map f xs) \<Longrightarrow> distinct (map f ys) \<Longrightarrow> (\<And>y. y \<in> set ys \<Longrightarrow> f y \<notin> f ` set xs) \<Longrightarrow> distinct (map f (xs @ ys))"
  by (simp add: disjoint_iff) (metis imageE)

end
