(* ===== verification/Py_Float.thy ===== *)
theory Py_Float
  imports Complex_Main "HOL-Library.Log_Nat" Exec_Prelude
begin

text \<open>
  Python's \<open>float\<close>: IEEE-754 binary64. A value is a finite rational, an infinity or NaN; the
  arithmetic computes the exact rational and rounds it to the nearest 53-bit value (ties to
  even, subnormals and overflow included), so the equalities and comparisons the program makes
  on computed prices are the ones the machine makes. The two zeros are one value here: they
  compare equal in Python, and the program never prints or divides by a computed zero without a
  test. Every theorem about the model also holds for finite rationals that are not doubles.
\<close>

section \<open>Values and comparisons\<close>

datatype pyfloat = Fin rat | PInf | NInf | NaN

fun fl_less :: "pyfloat \<Rightarrow> pyfloat \<Rightarrow> bool" where
  "fl_less (Fin a) (Fin b) = (a < b)"
| "fl_less (Fin a) PInf = True"
| "fl_less NInf (Fin b) = True"
| "fl_less NInf PInf = True"
| "fl_less _ _ = False"

fun fl_eq :: "pyfloat \<Rightarrow> pyfloat \<Rightarrow> bool" where
  "fl_eq (Fin a) (Fin b) = (a = b)"
| "fl_eq PInf PInf = True"
| "fl_eq NInf NInf = True"
| "fl_eq _ _ = False"

definition fl_le :: "pyfloat \<Rightarrow> pyfloat \<Rightarrow> bool" where
  "fl_le a b \<longleftrightarrow> fl_less a b \<or> fl_eq a b"

fun is_finite :: "pyfloat \<Rightarrow> bool" where
  "is_finite (Fin a) = True"
| "is_finite _ = False"

section \<open>Rounding to binary64\<close>

text \<open>Nearest integer, ties to even: the rounding of IEEE arithmetic and of Python's \<open>round\<close>.\<close>

definition round_even :: "rat \<Rightarrow> int" where
  "round_even x = (let f = \<lfloor>x\<rfloor>; d = x - of_int f
     in if d < 1/2 then f else if d > 1/2 then f + 1 else if even f then f else f + 1)"

definition pow2 :: "int \<Rightarrow> rat" where
  "pow2 e = (if 0 \<le> e then 2 ^ nat e else 1 / 2 ^ nat (- e))"

text \<open>The binary exponent of a positive rational: the \<open>k\<close> with \<open>2\<^sup>k \<le> x < 2\<^sup>k\<^sup>+\<^sup>1\<close>.\<close>

definition expo :: "rat \<Rightarrow> int" where
  "expo x = (let (p, q) = quotient_of x; k = bitlen p - bitlen q
     in if pow2 k \<le> x then k else k - 1)"

definition ulp_exp :: "rat \<Rightarrow> int" where
  "ulp_exp x = max (expo \<bar>x\<bar> - 52) (-1074)"

definition b64 :: "rat \<Rightarrow> pyfloat" where
  "b64 x = (if x = 0 then Fin 0
     else let e = ulp_exp x; y = of_int (round_even (x / pow2 e)) * pow2 e
       in if \<bar>y\<bar> < pow2 1024 then Fin y else if 0 < y then PInf else NInf)"

section \<open>Arithmetic\<close>

fun fl_neg :: "pyfloat \<Rightarrow> pyfloat" where
  "fl_neg (Fin a) = Fin (- a)"
| "fl_neg PInf = NInf"
| "fl_neg NInf = PInf"
| "fl_neg NaN = NaN"

fun fl_abs :: "pyfloat \<Rightarrow> pyfloat" where
  "fl_abs (Fin a) = Fin \<bar>a\<bar>"
| "fl_abs PInf = PInf"
| "fl_abs NInf = PInf"
| "fl_abs NaN = NaN"

fun fl_add :: "pyfloat \<Rightarrow> pyfloat \<Rightarrow> pyfloat" where
  "fl_add (Fin a) (Fin b) = b64 (a + b)"
| "fl_add NaN _ = NaN"
| "fl_add _ NaN = NaN"
| "fl_add PInf NInf = NaN"
| "fl_add NInf PInf = NaN"
| "fl_add PInf _ = PInf"
| "fl_add _ PInf = PInf"
| "fl_add NInf _ = NInf"
| "fl_add _ NInf = NInf"

definition fl_sub :: "pyfloat \<Rightarrow> pyfloat \<Rightarrow> pyfloat" where
  "fl_sub a b = fl_add a (fl_neg b)"

definition fl_signed_inf :: "rat \<Rightarrow> pyfloat" where
  "fl_signed_inf s = (if 0 < s then PInf else if s < 0 then NInf else NaN)"

fun fl_sgn :: "pyfloat \<Rightarrow> rat" where
  "fl_sgn (Fin a) = sgn a"
| "fl_sgn PInf = 1"
| "fl_sgn NInf = -1"
| "fl_sgn NaN = 0"

fun fl_mul :: "pyfloat \<Rightarrow> pyfloat \<Rightarrow> pyfloat" where
  "fl_mul (Fin a) (Fin b) = b64 (a * b)"
| "fl_mul NaN _ = NaN"
| "fl_mul _ NaN = NaN"
| "fl_mul x y = fl_signed_inf (fl_sgn x * fl_sgn y)"

text \<open>Division raises on a zero divisor, whatever the dividend.\<close>

fun fl_div :: "pyfloat \<Rightarrow> pyfloat \<Rightarrow> pyfloat res" where
  "fl_div (Fin a) (Fin b) = (if b = 0 then Inl ZeroDivisionError else Inr (b64 (a / b)))"
| "fl_div NaN (Fin b) = (if b = 0 then Inl ZeroDivisionError else Inr NaN)"
| "fl_div x (Fin b) = (if b = 0 then Inl ZeroDivisionError
     else Inr (fl_signed_inf (fl_sgn x * sgn b)))"
| "fl_div (Fin a) PInf = Inr (Fin 0)"
| "fl_div (Fin a) NInf = Inr (Fin 0)"
| "fl_div _ _ = Inr NaN"

text \<open>\<open>float(n)\<close> of an int; \<open>int(x)\<close> truncates; \<open>round(x)\<close> and \<open>round(x, n)\<close> round the exact
  binary value half-to-even in decimal.\<close>

definition fl_of_int :: "int \<Rightarrow> pyfloat res" where
  "fl_of_int n = (let v = b64 (of_int n) in if is_finite v then Inr v else Inl OverflowError)"

definition rat_trunc :: "rat \<Rightarrow> int" where
  "rat_trunc x = (if 0 \<le> x then \<lfloor>x\<rfloor> else \<lceil>x\<rceil>)"

fun fl_to_int :: "pyfloat \<Rightarrow> int res" where
  "fl_to_int (Fin a) = Inr (rat_trunc a)"
| "fl_to_int NaN = Inl ValueError"
| "fl_to_int _ = Inl OverflowError"

fun fl_round :: "pyfloat \<Rightarrow> int res" where
  "fl_round (Fin a) = Inr (round_even a)"
| "fl_round NaN = Inl ValueError"
| "fl_round _ = Inl OverflowError"

fun fl_round_dec :: "nat \<Rightarrow> pyfloat \<Rightarrow> pyfloat" where
  "fl_round_dec n (Fin a) = b64 (of_int (round_even (a * 10 ^ n)) / 10 ^ n)"
| "fl_round_dec n x = x"

text \<open>\<open>max\<close> and \<open>min\<close> of the language keep the first argument unless the second is strictly better.\<close>

definition fl_max :: "pyfloat \<Rightarrow> pyfloat \<Rightarrow> pyfloat" where
  "fl_max a b = (if fl_less a b then b else a)"

section \<open>Laws of the rounding\<close>

text \<open>
  Rounding is monotone (\<open>b64_mono\<close>) and exact on the integers below \<open>2\<^sup>5\<^sup>3\<close>
  (\<open>b64_of_int\<close>): these two laws carry every proof about a computed price or age.
\<close>

lemma round_even_int [simp]: "round_even (of_int n) = n"
  by (simp add: round_even_def Let_def)

lemma round_even_ge: "of_int n \<le> x \<Longrightarrow> n \<le> round_even x"
proof -
  assume "of_int n \<le> x"
  then have "n \<le> \<lfloor>x\<rfloor>" by (simp add: le_floor_iff)
  then show ?thesis by (simp add: round_even_def Let_def)
qed

lemma round_even_le: "x \<le> of_int n \<Longrightarrow> round_even x \<le> n"
proof -
  assume a: "x \<le> of_int n"
  show ?thesis
  proof (cases "x = of_int n")
    case False
    with a have "\<lfloor>x\<rfloor> < n" by (simp add: floor_less_iff)
    then show ?thesis by (simp add: round_even_def Let_def)
  qed simp
qed

lemma round_even_mono: "x \<le> y \<Longrightarrow> round_even x \<le> round_even y"
proof -
  assume a: "x \<le> y"
  show ?thesis
  proof (cases "\<lfloor>x\<rfloor> = \<lfloor>y\<rfloor>")
    case True
    with a show ?thesis by (auto simp: round_even_def Let_def)
  next
    case False
    with a have lt: "\<lfloor>x\<rfloor> + 1 \<le> \<lfloor>y\<rfloor>" using floor_mono [OF a] by simp
    have "round_even x \<le> \<lfloor>x\<rfloor> + 1" by (simp add: round_even_def Let_def)
    moreover have "\<lfloor>y\<rfloor> \<le> round_even y" by (simp add: round_even_def Let_def)
    ultimately show ?thesis using lt by simp
  qed
qed

lemma round_even_minus: "round_even (- x) = - round_even x"
proof (cases "x \<in> \<int>")
  case True
  then obtain n where "x = of_int n" by (auto elim: Ints_cases)
  then show ?thesis using round_even_int [of "- n"] by simp
next
  case False
  then have c: "\<lceil>x\<rceil> = \<lfloor>x\<rfloor> + 1" using ceiling_altdef [of x] by (auto simp: Ints_def)
  have f: "\<lfloor>- x\<rfloor> = - \<lfloor>x\<rfloor> - 1" using c by (simp add: floor_minus)
  show ?thesis unfolding round_even_def Let_def f by (auto simp: field_simps)
qed

lemma pow2_pos [simp]: "0 < pow2 e" by (simp add: pow2_def)
lemma pow2_nz [simp]: "pow2 e \<noteq> 0" using pow2_pos [of e] by linarith
lemma pow2_powi: "pow2 e = 2 powi e"
  by (simp add: pow2_def power_int_def field_simps)
lemma pow2_add: "pow2 (a + b) = pow2 a * pow2 b"
  by (simp add: pow2_powi power_int_add)
lemma pow2_mono: "a \<le> b \<Longrightarrow> pow2 a \<le> pow2 b"
  by (simp add: pow2_powi power_int_increasing)
lemma pow2_strict: "a < b \<Longrightarrow> pow2 a < pow2 b"
  by (simp add: pow2_powi power_int_strict_increasing)

lemma bitlen_bounds': "0 < p \<Longrightarrow> pow2 (bitlen p - 1) \<le> of_int p \<and> of_int p < pow2 (bitlen p)"
proof -
  assume p: "0 < p"
  have b: "1 \<le> bitlen p" using p bitlen_nonneg [of p] bitlen_eq_zero_iff [of p] by linarith
  have "2 ^ nat (bitlen p - 1) \<le> p \<and> p < 2 ^ nat (bitlen p)" by (rule bitlen_bounds [OF p])
  then have "(of_int (2 ^ nat (bitlen p - 1)) :: rat) \<le> of_int p"
     "(of_int p :: rat) < of_int (2 ^ nat (bitlen p))" by (simp_all only: of_int_le_iff of_int_less_iff)
  with b show ?thesis by (simp add: pow2_def)
qed

lemma expo_bounds: assumes "0 < x" shows "pow2 (expo x) \<le> x \<and> x < pow2 (expo x + 1)"
proof -
  obtain p q where pq: "quotient_of x = (p, q)" by (cases "quotient_of x")
  have q: "0 < q" using pq quotient_of_denom_pos by blast
  have x: "x = of_int p / of_int q" using pq quotient_of_div by blast
  with assms q have p: "0 < p" by (simp add: zero_less_divide_iff)
  note bp = bitlen_bounds' [OF p] and bq = bitlen_bounds' [OF q]
  define k where "k = bitlen p - bitlen q"
  have qr: "(0::rat) < of_int q" using q by simp
  have "pow2 (k - 1) * of_int q \<le> pow2 (k - 1) * pow2 (bitlen q)"
    using bq by (intro mult_left_mono) (auto intro: less_imp_le)
  also have "\<dots> = pow2 (bitlen p - 1)" by (simp add: pow2_add [symmetric] k_def)
  finally have lo: "pow2 (k - 1) \<le> x" using bp qr by (simp add: x pos_le_divide_eq)
  have "of_int p < pow2 (bitlen p)" using bp by simp
  also have "\<dots> = pow2 (k + 1) * pow2 (bitlen q - 1)" by (simp add: pow2_add [symmetric] k_def)
  also have "\<dots> \<le> pow2 (k + 1) * of_int q" using bq by (intro mult_left_mono) (auto intro: less_imp_le)
  finally have hi: "x < pow2 (k + 1)" using qr by (simp add: x pos_divide_less_eq)
  show ?thesis using lo hi by (auto simp: expo_def pq k_def [symmetric] Let_def)
qed

lemma expo_mono: assumes "0 < x" "x \<le> y" shows "expo x \<le> expo y"
proof (rule ccontr)
  assume "\<not> expo x \<le> expo y"
  then have "pow2 (expo y + 1) \<le> pow2 (expo x)" by (intro pow2_mono) simp
  with expo_bounds [of x] expo_bounds [of y] assms show False by linarith
qed

text \<open>The rounded value before the overflow test.\<close>

definition b64_val :: "rat \<Rightarrow> rat" where
  "b64_val x = of_int (round_even (x / pow2 (ulp_exp x))) * pow2 (ulp_exp x)"

lemma b64_val_0 [simp]: "b64_val 0 = 0" using round_even_int [of 0] by (simp add: b64_val_def)
lemma b64_alt: "b64 x = (if \<bar>b64_val x\<bar> < pow2 1024 then Fin (b64_val x)
   else if 0 < b64_val x then PInf else NInf)"
proof (cases "x = 0")
  case True
  then show ?thesis using b64_val_0 by (simp add: b64_def)
qed (simp add: b64_def b64_val_def Let_def)

lemma b64_val_minus: "b64_val (- x) = - b64_val x"
  by (simp add: b64_val_def ulp_exp_def round_even_minus)

lemma b64_val_nonneg: "0 \<le> x \<Longrightarrow> 0 \<le> b64_val x"
  using round_even_ge [of 0 "x / pow2 (ulp_exp x)"]
  by (simp add: b64_val_def less_imp_le)

lemma pow2_quot: "e \<le> m \<Longrightarrow> pow2 m / pow2 e = of_int (2 ^ nat (m - e))"
  using pow2_add [of "m - e" e] by (simp add: pow2_def [of "m - e"])

lemma b64_val_le_pow2: assumes "x \<le> pow2 m" "ulp_exp x \<le> m" shows "b64_val x \<le> pow2 m"
proof -
  let ?e = "ulp_exp x"
  have "x / pow2 ?e \<le> of_int (2 ^ nat (m - ?e))"
    unfolding pow2_quot [OF assms(2), symmetric]
    using assms(1) by (intro divide_right_mono) (auto intro: less_imp_le)
  then have "round_even (x / pow2 ?e) \<le> 2 ^ nat (m - ?e)" by (rule round_even_le)
  then have "(of_int (round_even (x / pow2 ?e)) :: rat) \<le> pow2 m / pow2 ?e"
    unfolding pow2_quot [OF assms(2)] by (simp only: of_int_le_iff)
  then show ?thesis by (simp add: b64_val_def pos_le_divide_eq)
qed

lemma b64_val_ge_pow2: assumes "pow2 m \<le> x" "ulp_exp x \<le> m" shows "pow2 m \<le> b64_val x"
proof -
  let ?e = "ulp_exp x"
  have "of_int (2 ^ nat (m - ?e)) \<le> x / pow2 ?e"
    unfolding pow2_quot [OF assms(2), symmetric]
    using assms(1) by (intro divide_right_mono) (auto intro: less_imp_le)
  then have "2 ^ nat (m - ?e) \<le> round_even (x / pow2 ?e)" by (rule round_even_ge)
  then have "pow2 m / pow2 ?e \<le> (of_int (round_even (x / pow2 ?e)) :: rat)"
    unfolding pow2_quot [OF assms(2)] by (simp only: of_int_le_iff)
  then show ?thesis by (simp add: b64_val_def pos_divide_le_eq)
qed

lemma b64_val_mono_pos: assumes "0 < x" "x \<le> y" shows "b64_val x \<le> b64_val y"
proof -
  have ex: "expo x \<le> expo y" using assms by (rule expo_mono)
  show ?thesis
  proof (cases "ulp_exp x = ulp_exp y")
    case True
    have "round_even (x / pow2 (ulp_exp x)) \<le> round_even (y / pow2 (ulp_exp x))"
      using assms by (intro round_even_mono divide_right_mono) (auto intro: less_imp_le)
    then show ?thesis
      unfolding b64_val_def True [symmetric] by (intro mult_right_mono) (auto intro: less_imp_le)
  next
    case False
    have u: "ulp_exp x \<le> expo y" "ulp_exp y \<le> expo y" "expo x < expo y"
      using assms ex False by (auto simp: ulp_exp_def max_def split: if_splits)
    have "x \<le> pow2 (expo x + 1)" using expo_bounds [OF assms(1)] by simp
    also have "\<dots> \<le> pow2 (expo y)" using u by (intro pow2_mono) simp
    finally have "b64_val x \<le> pow2 (expo y)" using u(1) by (rule b64_val_le_pow2)
    moreover have "pow2 (expo y) \<le> b64_val y"
      using expo_bounds [of y] assms u by (intro b64_val_ge_pow2) auto
    ultimately show ?thesis by simp
  qed
qed

lemma b64_val_mono: assumes "x \<le> y" shows "b64_val x \<le> b64_val y"
proof (cases "0 < x")
  case True
  then show ?thesis using assms by (rule b64_val_mono_pos)
next
  case False
  show ?thesis
  proof (cases "0 \<le> y")
    case True
    have "b64_val x \<le> 0" using b64_val_nonneg [of "- x"] False by (simp add: b64_val_minus)
    with b64_val_nonneg [OF True] show ?thesis by simp
  next
    case F2: False
    then have "b64_val (- y) \<le> b64_val (- x)" using assms by (intro b64_val_mono_pos) auto
    then show ?thesis by (simp add: b64_val_minus)
  qed
qed

lemma b64_mono: "x \<le> y \<Longrightarrow> fl_le (b64 x) (b64 y)"
  using b64_val_mono [of x y] pow2_pos [of 1024] by (auto simp: b64_alt fl_le_def)

lemma b64_nonneg: "0 \<le> x \<Longrightarrow> fl_le (Fin 0) (b64 x)"
  using b64_mono [of 0 x] by (simp add: b64_def)

lemma b64_not_NaN [simp]: "b64 x \<noteq> NaN" "b64 x = NaN \<longleftrightarrow> False"
  by (simp_all add: b64_alt)

lemma b64_val_of_int: assumes "\<bar>n\<bar> < 2 ^ 53" shows "b64_val (of_int n) = of_int n"
proof (cases "n = 0")
  case False
  have lt: "\<bar>of_int n :: rat\<bar> < pow2 53"
  proof -
    have "\<bar>of_int n :: rat\<bar> = of_int \<bar>n\<bar>" by simp
    also have "\<dots> < of_int (2 ^ 53)" using assms by (simp only: of_int_less_iff)
    finally show ?thesis by (simp add: pow2_def)
  qed
  have pos: "0 < \<bar>of_int n :: rat\<bar>" using False by simp
  have "expo \<bar>of_int n\<bar> \<le> 52"
  proof (rule ccontr)
    assume "\<not> ?thesis"
    then have "pow2 53 \<le> pow2 (expo \<bar>of_int n\<bar>)" by (intro pow2_mono) simp
    with expo_bounds [OF pos] lt show False by linarith
  qed
  then have e: "ulp_exp (of_int n) \<le> 0" by (simp add: ulp_exp_def)
  have "of_int n / pow2 (ulp_exp (of_int n)) = of_int n * pow2 (- ulp_exp (of_int n))"
    by (simp add: pow2_powi power_int_minus field_simps)
  also have "\<dots> = of_int (n * 2 ^ nat (- ulp_exp (of_int n)))" using e by (simp add: pow2_def)
  finally have q: "of_int n / pow2 (ulp_exp (of_int n)) = of_int (n * 2 ^ nat (- ulp_exp (of_int n)))" .
  have "b64_val (of_int n) = of_int n / pow2 (ulp_exp (of_int n)) * pow2 (ulp_exp (of_int n))"
    by (simp only: b64_val_def q round_even_int)
  then show ?thesis by simp
qed simp

lemma b64_of_int: assumes "\<bar>n\<bar> < 2 ^ 53" shows "b64 (of_int n) = Fin (of_int n)"
proof -
  have "\<bar>of_int n :: rat\<bar> = of_int \<bar>n\<bar>" by simp
  also have "\<dots> < of_int (2 ^ 53)" using assms by (simp only: of_int_less_iff)
  also have "\<dots> \<le> pow2 1024" by (simp add: pow2_def)
  finally show ?thesis by (simp add: b64_alt b64_val_of_int [OF assms])
qed

lemma b64_overflow: assumes "pow2 1024 \<le> x" shows "b64 x = PInf"
proof -
  have "expo (pow2 1024) \<le> 1024"
  proof (rule ccontr)
    assume "\<not> ?thesis"
    then have "pow2 1024 < pow2 (expo (pow2 1024))" by (intro pow2_strict) simp
    with expo_bounds [of "pow2 1024"] show False by simp
  qed
  then have "ulp_exp (pow2 1024) \<le> 1024" by (simp add: ulp_exp_def abs_of_pos)
  then have "pow2 1024 \<le> b64_val (pow2 1024)" by (intro b64_val_ge_pow2) auto
  also have "\<dots> \<le> b64_val x" using assms by (rule b64_val_mono)
  finally have v: "pow2 1024 \<le> b64_val x" .
  then have "0 < b64_val x" using pow2_pos [of 1024] by linarith
  with v show ?thesis by (simp add: b64_alt)
qed

lemma fl_of_int_overflow: "2 ^ 1024 \<le> n \<Longrightarrow> fl_of_int n = Inl OverflowError"
proof -
  assume "2 ^ 1024 \<le> n"
  then have "(of_int (2 ^ 1024) :: rat) \<le> of_int n" by (simp only: of_int_le_iff)
  then have "b64 (of_int n) = PInf" by (intro b64_overflow) (simp add: pow2_def)
  then show ?thesis by (simp add: fl_of_int_def)
qed

lemma b64_0 [simp]: "b64 0 = Fin 0"
  by (simp add: b64_def)

lemma b64_numeral: "(numeral k :: int) < 2 ^ 53 \<Longrightarrow> b64 (numeral k) = Fin (numeral k)"
  using b64_of_int [of "numeral k"] by simp

lemma b64_1 [simp]: "b64 1 = Fin 1"
  using b64_of_int [of 1] by simp

lemma b64_neg_numeral: "(numeral k :: int) < 2 ^ 53 \<Longrightarrow> b64 (- numeral k) = Fin (- numeral k)"
  using b64_of_int [of "- numeral k"] by simp

lemma b64_neg_1 [simp]: "b64 (- 1) = Fin (- 1)"
  using b64_of_int [of "- 1"] by simp

text \<open>Evaluation of the arithmetic on small whole numbers, for concrete inputs.\<close>

lemmas b64_small = b64_numeral b64_neg_numeral

section \<open>Laws of the comparisons\<close>

lemma fl_less_irrefl [simp]: "\<not> fl_less a a"
  by (cases a) auto

lemma fl_less_trans: "fl_less a b \<Longrightarrow> fl_less b c \<Longrightarrow> fl_less a c"
  by (cases a; cases b; cases c) auto

lemma fl_less_asym: "fl_less a b \<Longrightarrow> \<not> fl_less b a"
  by (cases a; cases b) auto

lemma fl_NaN [simp]: "\<not> fl_less NaN a" "\<not> fl_less a NaN" "\<not> fl_le NaN a" "\<not> fl_le a NaN"
  by (cases a; simp add: fl_le_def)+

lemma fl_le_Fin [simp]: "fl_le (Fin a) (Fin b) \<longleftrightarrow> a \<le> b"
  by (auto simp: fl_le_def)

lemma fl_eq_iff: "fl_eq a b \<longleftrightarrow> a = b \<and> a \<noteq> NaN"
  by (cases a; cases b) auto

lemma fl_le_less_trans: "fl_le a b \<Longrightarrow> fl_less b c \<Longrightarrow> fl_less a c"
  by (auto simp: fl_le_def fl_eq_iff intro: fl_less_trans)

lemma fl_less_le_trans: "fl_less a b \<Longrightarrow> fl_le b c \<Longrightarrow> fl_less a c"
  by (auto simp: fl_le_def fl_eq_iff intro: fl_less_trans)

lemma fl_le_trans: "fl_le a b \<Longrightarrow> fl_le b c \<Longrightarrow> fl_le a c"
  by (auto simp: fl_le_def fl_eq_iff intro: fl_less_trans)

lemma fl_not_less: "a \<noteq> NaN \<Longrightarrow> b \<noteq> NaN \<Longrightarrow> \<not> fl_less a b \<longleftrightarrow> fl_le b a"
  by (cases a; cases b) (auto simp: fl_le_def)

lemma is_finite_iff: "is_finite x \<longleftrightarrow> (\<exists>r. x = Fin r)"
  by (cases x) auto

text \<open>
  A sum or difference is bounded by its first operand when the second is on the right side:
  the reason why subtracting a distance can never leave a price above where it started.
\<close>

lemma b64_fixed_mono_le: "b64 x = Fin x \<Longrightarrow> y \<le> x \<Longrightarrow> fl_le (b64 y) (Fin x)"
  using b64_mono [of y x] by simp

lemma b64_fixed_mono_ge: "b64 x = Fin x \<Longrightarrow> x \<le> y \<Longrightarrow> fl_le (Fin x) (b64 y)"
  using b64_mono [of x y] by simp

lemma fl_sub_Fin [simp]: "fl_sub (Fin a) (Fin b) = b64 (a - b)"
  by (simp add: fl_sub_def)

lemma b64_unit: "0 \<le> x \<Longrightarrow> x \<le> 1 \<Longrightarrow> \<exists>y. b64 x = Fin y \<and> 0 \<le> y \<and> y \<le> 1"
  using b64_nonneg [of x] b64_fixed_mono_le [OF b64_1, of x] by (cases "b64 x") (auto simp: fl_le_def)

end
