(* ===== verification/Py_Value.thy ===== *)
theory Py_Value
  imports Py_Float
begin

text \<open>
  Python's dynamic values as far as JSON and the broker's replies produce them, and the built-in
  conversions the program applies to them: truth value, \<open>dict.get\<close>, \<open>str\<close>, \<open>int\<close>, \<open>float\<close>,
  and the string methods \<open>upper\<close>, \<open>lower\<close>, \<open>strip\<close>, \<open>split\<close>, \<open>startswith\<close>, \<open>endswith\<close>.
  Strings are byte strings: case mapping is the ASCII one, which is what the program's vocabulary
  (sides, instruments, flags) uses.
\<close>

section \<open>Values\<close>

datatype pyval =
    VNone
  | VBool bool
  | VInt int
  | VFloat pyfloat
  | VStr string
  | VList "pyval list"
  | VDict "(string \<times> pyval) list"

type_synonym pydict = "(string \<times> pyval) list"

fun truthy :: "pyval \<Rightarrow> bool" where
  "truthy VNone = False"
| "truthy (VBool b) = b"
| "truthy (VInt n) = (n \<noteq> 0)"
| "truthy (VFloat x) = (x \<noteq> Fin 0)"
| "truthy (VStr s) = (s \<noteq> [])"
| "truthy (VList xs) = (xs \<noteq> [])"
| "truthy (VDict kvs) = (kvs \<noteq> [])"

definition or_else :: "pyval \<Rightarrow> pyval \<Rightarrow> pyval" where
  "or_else a b = (if truthy a then a else b)"

text \<open>\<open>d.get(k)\<close>, \<open>d.get(k, x)\<close> and \<open>d[k]\<close> on a dictionary, and \<open>v.get(k)\<close> on a value that may
  not be one (an \<open>AttributeError\<close>).\<close>

definition dget_or :: "pydict \<Rightarrow> string \<Rightarrow> pyval \<Rightarrow> pyval" where
  "dget_or d k x = (case map_of d k of None \<Rightarrow> x | Some v \<Rightarrow> v)"

definition dget :: "pydict \<Rightarrow> string \<Rightarrow> pyval" where
  "dget d k = dget_or d k VNone"

definition dindex :: "pydict \<Rightarrow> string \<Rightarrow> pyval res" where
  "dindex d k = (case map_of d k of None \<Rightarrow> Inl KeyError | Some v \<Rightarrow> Inr v)"

fun vget :: "pyval \<Rightarrow> string \<Rightarrow> pyval res" where
  "vget (VDict d) k = Inr (dget d k)"
| "vget _ k = Inl AttributeError"

fun vget_or :: "pyval \<Rightarrow> string \<Rightarrow> pyval \<Rightarrow> pyval res" where
  "vget_or (VDict d) k x = Inr (dget_or d k x)"
| "vget_or _ k x = Inl AttributeError"

text \<open>\<open>v[k]\<close> with a string key: a dictionary looks it up, every other value raises \<open>TypeError\<close>.\<close>

fun vindex :: "pyval \<Rightarrow> string \<Rightarrow> pyval res" where
  "vindex (VDict d) k = dindex d k"
| "vindex _ k = Inl TypeError"

text \<open>\<open>v[0]\<close>: a list or a string by position; a dictionary has no integer keys here.\<close>

fun vfirst :: "pyval \<Rightarrow> pyval res" where
  "vfirst (VList []) = Inl IndexError"
| "vfirst (VList (x # xs)) = Inr x"
| "vfirst (VStr []) = Inl IndexError"
| "vfirst (VStr (c # cs)) = Inr (VStr [c])"
| "vfirst (VDict d) = Inl KeyError"
| "vfirst _ = Inl TypeError"

text \<open>Iterating a value: the elements of a list, the keys of a dictionary, the characters of a string.
  And \<open>v[k] = x\<close> with a string key.\<close>

fun py_iter :: "pyval \<Rightarrow> pyval list res" where
  "py_iter (VList xs) = Inr xs"
| "py_iter (VDict d) = Inr (map (VStr \<circ> fst) d)"
| "py_iter (VStr s) = Inr (map (\<lambda>c. VStr [c]) s)"
| "py_iter _ = Inl TypeError"

fun vset :: "pyval \<Rightarrow> string \<Rightarrow> pyval \<Rightarrow> pyval res" where
  "vset (VDict d) k x = Inr (VDict (AList.update k x d))"
| "vset _ k x = Inl TypeError"

section \<open>Strings\<close>

definition chr_code :: "char \<Rightarrow> nat" where
  "chr_code c = of_char c"

definition is_digit :: "char \<Rightarrow> bool" where
  "is_digit c \<longleftrightarrow> 48 \<le> chr_code c \<and> chr_code c \<le> 57"

definition digit_val :: "char \<Rightarrow> int" where
  "digit_val c = int (chr_code c) - 48"

definition upper_char :: "char \<Rightarrow> char" where
  "upper_char c = (if 97 \<le> chr_code c \<and> chr_code c \<le> 122 then char_of (chr_code c - 32) else c)"

definition lower_char :: "char \<Rightarrow> char" where
  "lower_char c = (if 65 \<le> chr_code c \<and> chr_code c \<le> 90 then char_of (chr_code c + 32) else c)"

definition upper :: "string \<Rightarrow> string" where
  "upper = map upper_char"

definition lower :: "string \<Rightarrow> string" where
  "lower = map lower_char"

definition is_space :: "char \<Rightarrow> bool" where
  "is_space c \<longleftrightarrow> chr_code c = 32 \<or> (9 \<le> chr_code c \<and> chr_code c \<le> 13)
     \<or> (28 \<le> chr_code c \<and> chr_code c \<le> 31)"

definition strip :: "string \<Rightarrow> string" where
  "strip s = rev (dropWhile is_space (rev (dropWhile is_space s)))"

definition startswith :: "string \<Rightarrow> string \<Rightarrow> bool" where
  "startswith s p \<longleftrightarrow> take (length p) s = p"

definition endswith :: "string \<Rightarrow> string \<Rightarrow> bool" where
  "endswith s p \<longleftrightarrow> length p \<le> length s \<and> drop (length s - length p) s = p"

fun split_on :: "char \<Rightarrow> string \<Rightarrow> string list" where
  "split_on c [] = [[]]"
| "split_on c (x # xs) = (if x = c then [] # split_on c xs
     else case split_on c xs of [] \<Rightarrow> [[x]] | w # ws \<Rightarrow> (x # w) # ws)"

fun join :: "string \<Rightarrow> string list \<Rightarrow> string" where
  "join sep [] = []"
| "join sep [w] = w"
| "join sep (w # v # ws) = w @ sep @ join sep (v # ws)"

text \<open>\<open>s.replace("Z", "+00:00")\<close>, the program's one use of \<open>replace\<close> on input.\<close>

definition replace_Z :: "string \<Rightarrow> string" where
  "replace_Z s = concat (map (\<lambda>c. if c = CHR ''Z'' then ''+00:00'' else [c]) s)"

fun find_char :: "char \<Rightarrow> string \<Rightarrow> nat option" where
  "find_char c [] = None"
| "find_char c (x # xs) = (if x = c then Some 0 else map_option Suc (find_char c xs))"

section \<open>Printing numbers and values\<close>

definition digit_char :: "int \<Rightarrow> char" where
  "digit_char n = char_of (48 + nat n)"

text \<open>The decimal digits of a natural number, given as an \<open>int\<close> so that it evaluates in binary.\<close>

function nat_str :: "int \<Rightarrow> string" where
  "nat_str n = (if n < 10 then [digit_char n] else nat_str (n div 10) @ [digit_char (n mod 10)])"
  by pat_completeness auto
termination
  by (relation "measure nat") auto

declare nat_str.simps [simp del]

lemma digit_char_simps [simp]:
  "digit_char 0 = CHR ''0''" "digit_char 1 = CHR ''1''" "digit_char 2 = CHR ''2''" "digit_char 3 = CHR ''3''"
  "digit_char 4 = CHR ''4''" "digit_char 5 = CHR ''5''" "digit_char 6 = CHR ''6''" "digit_char 7 = CHR ''7''"
  "digit_char 8 = CHR ''8''" "digit_char 9 = CHR ''9''"
  by code_simp+

definition int_str :: "int \<Rightarrow> string" where
  "int_str n = (if n < 0 then ''-'' @ nat_str (- n) else nat_str n)"

definition pow10 :: "int \<Rightarrow> rat" where
  "pow10 e = (if 0 \<le> e then 10 ^ nat e else 1 / 10 ^ nat (- e))"

text \<open>The decimal exponent of a positive rational: the \<open>e\<close> with \<open>10\<^sup>e \<le> x < 10\<^sup>e\<^sup>+\<^sup>1\<close>.\<close>

definition dec_expo :: "rat \<Rightarrow> int" where
  "dec_expo x = (let (p, q) = quotient_of x;
       k = int (length (nat_str p)) - int (length (nat_str q))
     in if pow10 k \<le> x then k else k - 1)"

text \<open>
  The shortest decimal that reads back as the float, nearest first: \<open>(d, s)\<close> with value
  \<open>d * 10\<^sup>s\<close>. That is what \<open>repr\<close> prints and what \<open>Decimal(str(x))\<close> holds.
\<close>

definition dec_try :: "rat \<Rightarrow> int \<Rightarrow> (int \<times> int) option" where
  "dec_try x s = (let f = \<lfloor>x / pow10 s\<rfloor>;
       ok = (\<lambda>d. b64 (of_int d * pow10 s) = Fin x)
     in if ok f \<and> (\<not> ok (f + 1) \<or> x / pow10 s - of_int f \<le> 1/2) then Some (f, s)
        else if ok (f + 1) then Some (f + 1, s) else None)"

fun dec_search :: "nat \<Rightarrow> rat \<Rightarrow> int \<Rightarrow> int \<times> int" where
  "dec_search 0 x s = (\<lfloor>x / pow10 s\<rfloor>, s)"
| "dec_search (Suc k) x s = (case dec_try x s of Some r \<Rightarrow> r | None \<Rightarrow> dec_search k x (s - 1))"

definition dec_shortest :: "rat \<Rightarrow> int \<times> int" where
  "dec_shortest x = (let (d, s) = dec_search 17 x (dec_expo x)
     in if d mod 10 = 0 then (d div 10, s + 1) else (d, s))"

definition dec_of_float :: "rat \<Rightarrow> rat" where
  "dec_of_float x = (if x = 0 then 0
     else let (d, s) = dec_shortest \<bar>x\<bar> in sgn x * of_int d * pow10 s)"

definition exp_str :: "int \<Rightarrow> string" where
  "exp_str e = (if e < 0 then ''-'' else ''+'')
     @ (if \<bar>e\<bar> < 10 then ''0'' else []) @ nat_str \<bar>e\<bar>"

definition float_str :: "pyfloat \<Rightarrow> string" where
  "float_str v = (case v of PInf \<Rightarrow> ''inf'' | NInf \<Rightarrow> ''-inf'' | NaN \<Rightarrow> ''nan''
   | Fin x \<Rightarrow> if x = 0 then ''0.0'' else
       let (d, s) = dec_shortest \<bar>x\<bar>; ds = nat_str d; pt = int (length ds) + s;
           body = (if -4 < pt \<and> pt \<le> 16
              then if pt \<le> 0 then ''0.'' @ replicate (nat (- pt)) (CHR ''0'') @ ds
                else if int (length ds) \<le> pt then ds @ replicate (nat s) (CHR ''0'') @ ''.0''
                else take (nat pt) ds @ ''.'' @ drop (nat pt) ds
              else take 1 ds @ (if length ds = 1 then [] else ''.'' @ drop 1 ds)
                @ ''e'' @ exp_str (pt - 1))
       in (if x < 0 then ''-'' else []) @ body)"

definition hex_char :: "nat \<Rightarrow> char" where
  "hex_char n = (if n < 10 then digit_char (int n) else char_of (87 + n))"

definition repr_char :: "char \<Rightarrow> char \<Rightarrow> string" where
  "repr_char q c = (let n = chr_code c in
     if n = 92 then [c, c] else if c = q then [char_of (92::nat), c]
     else if n = 10 then [char_of (92::nat), CHR ''n'']
     else if n = 13 then [char_of (92::nat), CHR ''r'']
     else if n = 9 then [char_of (92::nat), CHR ''t'']
     else if n < 32 \<or> n = 127 then [char_of (92::nat), CHR ''x'', hex_char (n div 16), hex_char (n mod 16)]
     else [c])"

definition str_repr :: "string \<Rightarrow> string" where
  "str_repr s = (let a = char_of (39::nat); b = char_of (34::nat);
       q = (if a \<in> set s \<and> b \<notin> set s then b else a)
     in [q] @ concat (map (repr_char q) s) @ [q])"

fun py_repr :: "pyval \<Rightarrow> string" where
  "py_repr VNone = ''None''"
| "py_repr (VBool b) = (if b then ''True'' else ''False'')"
| "py_repr (VInt n) = int_str n"
| "py_repr (VFloat x) = float_str x"
| "py_repr (VStr s) = str_repr s"
| "py_repr (VList xs) = ''['' @ join '', '' (map py_repr xs) @ '']''"
| "py_repr (VDict d) = ''{'' @ join '', '' (map (\<lambda>kv. str_repr (fst kv) @ '': '' @ py_repr (snd kv)) d) @ ''}''"

fun py_str :: "pyval \<Rightarrow> string" where
  "py_str (VStr s) = s"
| "py_str v = py_repr v"

section \<open>Reading numbers\<close>

text \<open>Underscores are allowed between two digits only; the result has them removed.\<close>

fun drop_underscores :: "bool \<Rightarrow> string \<Rightarrow> string option" where
  "drop_underscores prev [] = Some []"
| "drop_underscores prev (c # cs) = (if c = CHR ''_''
     then if prev \<and> cs \<noteq> [] \<and> is_digit (hd cs) then drop_underscores False cs else None
     else map_option (\<lambda>r. c # r) (drop_underscores (is_digit c) cs))"

definition digits_val :: "string \<Rightarrow> int" where
  "digits_val s = foldl (\<lambda>n c. n * 10 + digit_val c) 0 s"

definition read_digits :: "string \<Rightarrow> int option" where
  "read_digits s = (if s \<noteq> [] \<and> list_all is_digit s then Some (digits_val s) else None)"

definition read_sign :: "string \<Rightarrow> int \<times> string" where
  "read_sign s = (case s of [] \<Rightarrow> (1, [])
     | c # r \<Rightarrow> if c = CHR ''-'' then (-1, r) else if c = CHR ''+'' then (1, r) else (1, s))"

definition int_of_str :: "string \<Rightarrow> int res" where
  "int_of_str t = (let (sg, r) = read_sign (strip t) in
     case Option.bind (drop_underscores False r) read_digits of
       None \<Rightarrow> Inl ValueError | Some n \<Rightarrow> Inr (sg * n))"

definition read_exponent :: "string \<Rightarrow> int option" where
  "read_exponent s = (case s of [] \<Rightarrow> Some 0
     | c # r \<Rightarrow> if c = CHR ''e'' then (let (sg, ds) = read_sign r in map_option ((*) sg) (read_digits ds))
        else None)"

definition read_decimal :: "string \<Rightarrow> rat option" where
  "read_decimal s = (let ip = takeWhile is_digit s; r = dropWhile is_digit s;
       fp = (case r of [] \<Rightarrow> [] | c # q \<Rightarrow> if c = CHR ''.'' then takeWhile is_digit q else []);
       r' = (case r of [] \<Rightarrow> [] | c # q \<Rightarrow> if c = CHR ''.'' then dropWhile is_digit q else r)
     in if ip = [] \<and> fp = [] then None
        else map_option (\<lambda>e. of_int (digits_val (ip @ fp)) * pow10 (e - int (length fp))) (read_exponent r'))"

definition float_of_str :: "string \<Rightarrow> pyfloat res" where
  "float_of_str t = (let (sg, r) = read_sign (strip t); w = lower r in
     if w = ''inf'' \<or> w = ''infinity'' then Inr (if sg < 0 then NInf else PInf)
     else if w = ''nan'' then Inr NaN
     else case Option.bind (drop_underscores False w) read_decimal of
       None \<Rightarrow> Inl ValueError | Some x \<Rightarrow> Inr (b64 (of_int sg * x)))"

fun py_float :: "pyval \<Rightarrow> pyfloat res" where
  "py_float (VFloat x) = Inr x"
| "py_float (VInt n) = fl_of_int n"
| "py_float (VBool b) = Inr (if b then Fin 1 else Fin 0)"
| "py_float (VStr s) = float_of_str s"
| "py_float _ = Inl TypeError"

fun py_int :: "pyval \<Rightarrow> int res" where
  "py_int (VInt n) = Inr n"
| "py_int (VBool b) = Inr (if b then 1 else 0)"
| "py_int (VFloat x) = fl_to_int x"
| "py_int (VStr s) = int_of_str s"
| "py_int _ = Inl TypeError"

section \<open>Laws\<close>

lemma dget_simps [simp]: "dget [] k = VNone" "dget ((k', v) # d) k = (if k = k' then v else dget d k)"
  by (simp_all add: dget_def dget_or_def)

lemma dget_or_simps [simp]:
  "dget_or [] k x = x" "dget_or ((k', v) # d) k x = (if k = k' then v else dget_or d k x)"
  by (simp_all add: dget_or_def)

lemma dget_update [simp]: "dget (AList.update k v d) k' = (if k' = k then v else dget d k')"
  by (simp add: dget_def dget_or_def)

lemma dget_Some_dindex: "dget d k \<noteq> VNone \<Longrightarrow> dindex d k = Inr (dget d k)"
  by (auto simp: dget_def dget_or_def dindex_def split: option.splits)

lemma startswith_append [simp]: "startswith (p @ s) p"
  by (simp add: startswith_def)

lemma py_float_not_Attribute: "py_float v \<noteq> Inl AttributeError"
  by (cases v) (auto simp: fl_of_int_def float_of_str_def Let_def split: prod.splits option.splits)

lemma py_float_Int_small: "\<bar>n\<bar> < 2 ^ 53 \<Longrightarrow> py_float (VInt n) = Inr (Fin (of_int n))"
  by (simp add: fl_of_int_def b64_of_int)

lemma fl_of_int_numeral [simp]: "(numeral k :: int) < 2 ^ 53 \<Longrightarrow> fl_of_int (numeral k) = Inr (Fin (numeral k))"
  by (simp add: fl_of_int_def b64_numeral)

lemma py_float_VInt_numeral [simp]:
  "(numeral k :: int) < 2 ^ 53 \<Longrightarrow> py_float (VInt (numeral k)) = Inr (Fin (numeral k))"
  by simp

text \<open>The shortest decimal of a one-digit price, for concrete inputs.\<close>

lemma dec_expo_small: "dec_expo 1 = 0" "dec_expo 2 = 0" "dec_expo 3 = 0" by code_simp+

lemma dec_search_Some: "dec_try x s = Some r \<Longrightarrow> 0 < k \<Longrightarrow> dec_search k x s = r"
  by (cases k) auto

lemma dec_try_small: "dec_try 1 0 = Some (1, 0)" "dec_try 2 0 = Some (2, 0)" "dec_try 3 0 = Some (3, 0)"
  by (simp_all add: dec_try_def pow10_def b64_small Let_def)

lemma dec_of_float_small [simp]: "dec_of_float 1 = 1" "dec_of_float 2 = 2" "dec_of_float 3 = 3"
  by (simp_all add: dec_of_float_def dec_shortest_def dec_expo_small dec_search_Some [OF dec_try_small(1)]
      dec_search_Some [OF dec_try_small(2)] dec_search_Some [OF dec_try_small(3)] pow10_def)

end
