(* ===== verification/Queue_Backend.thy ===== *)
theory Queue_Backend
  imports Py_Value "HOL-Library.Multiset"
begin

text \<open>
  \<open>common/queue_backend.py\<close>: the SQLite-backed \<open>LocalDurableBackend\<close>, the queue every message of
  the service passes through (orders in, fills and closes out, and the outbox).

  A \<open>qdb\<close> is the table \<open>queue\<close>, its rows in \<open>seq\<close> order (the column is an autoincrementing
  primary key, so an insert is an append); a \<open>backend\<close> is one Python object on it, and several
  may share the table. Each SQL statement is one update of the table and runs atomically, as
  autocommit makes it. Acknowledgement ids are drawn from a counter: \<open>uuid4\<close> never repeats.
  The two clocks of the code, SQLite's \<open>strftime('%s','now')\<close> and \<open>time.time()\<close>, are separate
  fields of \<open>qclock\<close>.
\<close>

section \<open>Table, backend object, messages\<close>

datatype qstate = Ready | Inflight | Done | Dead

text \<open>A stored text: the JSON document it parses to, or text that is not JSON.\<close>

datatype qbody = JsonBody pyval | RawBody string

record qrow =
  q_seq :: nat
  q_topic :: string
  q_body :: qbody
  q_state :: qstate
  q_attempts :: int
  q_available :: pyfloat
  q_ack :: "nat option"
  q_leased :: pyfloat
  q_owner :: "string option"

record qdb =
  qd_rows :: "qrow list"
  qd_next :: nat
  qd_uuid :: nat

record backend =
  qb_owner :: string
  qb_max :: int
  qb_lease :: pyfloat
  qb_recovered :: "string set"

record qclock =
  db_now :: pyfloat
  py_now :: pyfloat
  iso_now :: string

record qmsg =
  m_ack :: nat
  m_topic :: string
  m_body :: pyval
  m_attempts :: int

definition empty_qdb :: qdb where
  "empty_qdb = \<lparr>qd_rows = [], qd_next = 1, qd_uuid = 0\<rparr>"

definition new_backend :: "string \<Rightarrow> int \<Rightarrow> pyfloat \<Rightarrow> backend" where
  "new_backend owner mx lease = \<lparr>qb_owner = owner, qb_max = mx, qb_lease = lease, qb_recovered = {}\<rparr>"

section \<open>SQL statements\<close>

definition update_where :: "(qrow \<Rightarrow> bool) \<Rightarrow> (qrow \<Rightarrow> qrow) \<Rightarrow> qdb \<Rightarrow> qdb" where
  "update_where p f db = db\<lparr>qd_rows := map (\<lambda>r. if p r then f r else r) (qd_rows db)\<rparr>"

definition row_exists :: "(qrow \<Rightarrow> bool) \<Rightarrow> qdb \<Rightarrow> bool" where
  "row_exists p db = list_ex p (qd_rows db)"

definition insert_row :: "string \<Rightarrow> qbody \<Rightarrow> qdb \<Rightarrow> qdb" where
  "insert_row t v db = db\<lparr>qd_rows := qd_rows db @ [\<lparr>q_seq = qd_next db, q_topic = t, q_body = v,
       q_state = Ready, q_attempts = 0, q_available = Fin 0, q_ack = None, q_leased = Fin 0,
       q_owner = None\<rparr>], qd_next := qd_next db + 1\<rparr>"

section \<open>Operations\<close>

definition publish :: "string \<Rightarrow> pyval \<Rightarrow> qdb \<Rightarrow> qdb" where
  "publish t v db = insert_row t (JsonBody v) db"

definition dlq_topic :: "string \<Rightarrow> string" where
  "dlq_topic t = t @ ''.dlq''"

definition dlq_wrapper :: "pyval \<Rightarrow> string \<Rightarrow> string \<Rightarrow> int \<Rightarrow> pyval" where
  "dlq_wrapper original reason ts attempts = VDict [(''original'', original),
     (''dlq_reason'', VStr reason), (''dlq_timestamp'', VStr ts), (''attempts'', VInt attempts)]"

text \<open>The row is claimed first; the wrapper is written only when the claim won.\<close>

definition body_value :: "qbody \<Rightarrow> pyval" where
  "body_value b = (case b of JsonBody v \<Rightarrow> v | RawBody s \<Rightarrow> VStr s)"

definition dead_letter_row :: "string \<Rightarrow> nat \<Rightarrow> string \<Rightarrow> qbody \<Rightarrow> int \<Rightarrow> string \<Rightarrow> qdb \<Rightarrow> qdb" where
  "dead_letter_row ts seq t body attempts reason db =
     (let p = (\<lambda>r. q_seq r = seq \<and> q_state r = Inflight) in
      if \<not> row_exists p db then db
      else publish (dlq_topic t) (dlq_wrapper (body_value body) reason ts attempts)
             (update_where p (\<lambda>r. r\<lparr>q_state := Dead\<rparr>) db))"

definition release_row :: "pyfloat \<Rightarrow> qrow \<Rightarrow> qrow" where
  "release_row avail r = r\<lparr>q_state := Ready, q_ack := None, q_owner := None, q_leased := Fin 0,
     q_available := avail\<rparr>"

definition reclaim_row :: "backend \<Rightarrow> qclock \<Rightarrow> string \<Rightarrow> qrow \<Rightarrow> qdb \<Rightarrow> qdb" where
  "reclaim_row b c t r db =
     (if qb_max b \<le> q_attempts r
      then dead_letter_row (iso_now c) (q_seq r) t (q_body r) (q_attempts r)
             (''lease expired; max_attempts '' @ int_str (qb_max b) @ '' exceeded'') db
      else update_where (\<lambda>r'. q_seq r' = q_seq r \<and> q_state r' = Inflight) (release_row (Fin 0)) db)"

text \<open>Expired leases always; on the first pull of a subscription also another owner's leases.\<close>

definition is_orphan :: "backend \<Rightarrow> qclock \<Rightarrow> string \<Rightarrow> qrow \<Rightarrow> bool" where
  "is_orphan b c t r \<longleftrightarrow> q_topic r = t \<and> q_state r = Inflight
     \<and> (fl_le (q_leased r) (db_now c) \<or> (t \<notin> qb_recovered b \<and> q_owner r \<noteq> Some (qb_owner b)))"

definition reclaim :: "backend \<Rightarrow> qclock \<Rightarrow> string \<Rightarrow> qdb \<Rightarrow> backend \<times> qdb \<times> nat" where
  "reclaim b c t db = (let rows = filter (is_orphan b c t) (qd_rows db) in
     (b\<lparr>qb_recovered := insert t (qb_recovered b)\<rparr>, fold (reclaim_row b c t) rows db, length rows))"

definition claim_row :: "backend \<Rightarrow> qclock \<Rightarrow> nat \<Rightarrow> qrow \<Rightarrow> qrow" where
  "claim_row b c a r = r\<lparr>q_state := Inflight, q_ack := Some a, q_attempts := q_attempts r + 1,
     q_owner := Some (qb_owner b), q_leased := fl_add (db_now c) (qb_lease b)\<rparr>"

text \<open>The delivery loop. A stored text that is not JSON raises in the middle of the batch, after
  its row has been claimed.\<close>

fun pull_rows :: "backend \<Rightarrow> qclock \<Rightarrow> string \<Rightarrow> qrow list \<Rightarrow> qdb \<Rightarrow> qdb \<times> qmsg list res" where
  "pull_rows b c t [] db = (db, Inr [])"
| "pull_rows b c t (r # rs) db =
     (let a = qd_uuid db; db1 = db\<lparr>qd_uuid := Suc a\<rparr>;
          p = (\<lambda>r'. q_seq r' = q_seq r \<and> q_state r' = Ready) in
      if \<not> row_exists p db1 then pull_rows b c t rs db1
      else let db2 = update_where p (claim_row b c a) db1 in
        (case q_body r of RawBody s \<Rightarrow> (db2, Inl ValueError)
         | JsonBody v \<Rightarrow> (case pull_rows b c t rs db2 of (db3, out) \<Rightarrow>
             (db3, emap (\<lambda>ms. \<lparr>m_ack = a, m_topic = t, m_body = v, m_attempts = q_attempts r + 1\<rparr> # ms) out))))"

definition is_available :: "qclock \<Rightarrow> string \<Rightarrow> qrow \<Rightarrow> bool" where
  "is_available c t r \<longleftrightarrow> q_topic r = t \<and> q_state r = Ready \<and> fl_le (q_available r) (py_now c)"

definition pull :: "qclock \<Rightarrow> string \<Rightarrow> nat \<Rightarrow> backend \<times> qdb \<Rightarrow> (backend \<times> qdb) \<times> qmsg list res" where
  "pull c t n s = (case reclaim (fst s) c t (snd s) of (b, db, k) \<Rightarrow>
     (case pull_rows b c t (take n (filter (is_available c t) (qd_rows db))) db of
        (db', out) \<Rightarrow> ((b, db'), out)))"

definition ack :: "qmsg \<Rightarrow> qdb \<Rightarrow> qdb" where
  "ack m db = update_where (\<lambda>r. q_ack r = Some (m_ack m)) (\<lambda>r. r\<lparr>q_state := Done\<rparr>) db"

definition to_dlq :: "qclock \<Rightarrow> qmsg \<Rightarrow> string \<Rightarrow> qdb \<Rightarrow> qdb" where
  "to_dlq c m reason db =
     update_where (\<lambda>r. q_ack r = Some (m_ack m)) (\<lambda>r. r\<lparr>q_state := Dead\<rparr>)
       (publish (dlq_topic (m_topic m)) (dlq_wrapper (m_body m) reason (iso_now c) (m_attempts m)) db)"

definition nack :: "backend \<Rightarrow> qclock \<Rightarrow> qmsg \<Rightarrow> pyfloat \<Rightarrow> qdb \<Rightarrow> qdb" where
  "nack b c m backoff db =
     (case find (\<lambda>r. q_ack r = Some (m_ack m)) (qd_rows db) of None \<Rightarrow> db
      | Some r \<Rightarrow>
          if qb_max b \<le> q_attempts r
          then to_dlq c m (''max_attempts '' @ int_str (qb_max b) @ '' exceeded'') db
          else update_where (\<lambda>r'. q_seq r' = q_seq r) (release_row (fl_add (py_now c) backoff)) db)"

definition depth :: "string \<Rightarrow> qstate \<Rightarrow> qdb \<Rightarrow> nat" where
  "depth t st db = length (filter (\<lambda>r. q_topic r = t \<and> q_state r = st) (qd_rows db))"

section \<open>Table invariant\<close>

definition row_wf :: "qdb \<Rightarrow> qrow \<Rightarrow> bool" where
  "row_wf db r \<longleftrightarrow> q_seq r < qd_next db
     \<and> (q_ack r = None \<longrightarrow> q_state r \<noteq> Inflight)
     \<and> (\<forall>a. q_ack r = Some a \<longrightarrow> a < qd_uuid db \<and> q_state r \<noteq> Ready)"

definition acks_unique :: "qrow list \<Rightarrow> bool" where
  "acks_unique rows \<longleftrightarrow> (\<forall>r \<in> set rows. \<forall>r' \<in> set rows. \<forall>a.
     q_ack r = Some a \<and> q_ack r' = Some a \<longrightarrow> q_seq r = q_seq r')"

definition qdb_wf :: "qdb \<Rightarrow> bool" where
  "qdb_wf db \<longleftrightarrow> sorted_wrt (<) (map q_seq (qd_rows db)) \<and> (\<forall>r \<in> set (qd_rows db). row_wf db r)
     \<and> acks_unique (qd_rows db)"

lemma qdb_wf_empty: "qdb_wf empty_qdb"
  by (simp add: qdb_wf_def empty_qdb_def acks_unique_def)

lemma qdb_wf_distinct: "qdb_wf db \<Longrightarrow> distinct (map q_seq (qd_rows db))"
  by (simp add: qdb_wf_def strict_sorted_iff)

lemma qdb_wf_seq_inj: "qdb_wf db \<Longrightarrow> r \<in> set (qd_rows db) \<Longrightarrow> r' \<in> set (qd_rows db) \<Longrightarrow>
    q_seq r = q_seq r' \<Longrightarrow> r = r'"
  using qdb_wf_distinct by (metis distinct_map inj_onD)

lemma update_where_fields [simp]:
  "qd_next (update_where p f db) = qd_next db" "qd_uuid (update_where p f db) = qd_uuid db"
  "qd_rows (update_where p f db) = map (\<lambda>r. if p r then f r else r) (qd_rows db)"
  by (simp_all add: update_where_def)

lemma insert_row_fields [simp]:
  "qd_next (insert_row t v db) = qd_next db + 1" "qd_uuid (insert_row t v db) = qd_uuid db"
  by (simp_all add: insert_row_def)

lemma qdb_wf_insert:
  assumes "qdb_wf db" shows "qdb_wf (insert_row t v db)"
proof -
  have rows: "\<forall>r \<in> set (qd_rows db). row_wf db r" and un: "acks_unique (qd_rows db)"
    using assms by (simp_all add: qdb_wf_def)
  have "sorted_wrt (<) (map q_seq (qd_rows (insert_row t v db)))"
    using assms rows by (simp add: qdb_wf_def insert_row_def sorted_wrt_append row_wf_def)
  moreover have "\<forall>r \<in> set (qd_rows (insert_row t v db)). row_wf (insert_row t v db) r"
  proof
    fix r assume "r \<in> set (qd_rows (insert_row t v db))"
    then consider "r \<in> set (qd_rows db)" | "q_seq r = qd_next db" "q_ack r = None" "q_state r = Ready"
      by (auto simp: insert_row_def)
    then show "row_wf (insert_row t v db) r"
    proof cases
      case 1
      with rows have "row_wf db r" by blast
      then show ?thesis by (simp add: row_wf_def less_SucI)
    qed (simp add: row_wf_def)
  qed
  moreover have "acks_unique (qd_rows (insert_row t v db))"
    using un by (simp add: acks_unique_def insert_row_def)
  ultimately show ?thesis by (simp add: qdb_wf_def)
qed

lemma qdb_wf_publish: "qdb_wf db \<Longrightarrow> qdb_wf (publish t v db)"
  by (simp add: publish_def qdb_wf_insert)

text \<open>An update that keeps \<open>seq\<close> and only drops acknowledgement ids, or assigns a fresh one to a
  single row, keeps the invariant.\<close>

lemma qdb_wf_update:
  assumes "qdb_wf db"
    and "\<And>r. r \<in> set (qd_rows db) \<Longrightarrow> p r \<Longrightarrow>
      q_seq (f r) = q_seq r \<and> row_wf db (f r) \<and> (q_ack (f r) = q_ack r \<or> q_ack (f r) = None)"
  shows "qdb_wf (update_where p f db)"
proof -
  let ?g = "\<lambda>r. if p r then f r else r"
  have seq: "map q_seq (map ?g (qd_rows db)) = map q_seq (qd_rows db)"
    using assms(2) by (simp add: comp_def)
  have "acks_unique (map ?g (qd_rows db))"
    unfolding acks_unique_def
  proof (intro ballI allI impI)
    fix r r' a
    assume "r \<in> set (map ?g (qd_rows db))" "r' \<in> set (map ?g (qd_rows db))"
      and a: "q_ack r = Some a \<and> q_ack r' = Some a"
    then obtain s s' where s: "s \<in> set (qd_rows db)" "r = ?g s" "s' \<in> set (qd_rows db)" "r' = ?g s'"
      by auto
    have keep: "q_seq (?g z) = q_seq z \<and> (q_ack (?g z) = Some a \<longrightarrow> q_ack z = Some a)"
      if "z \<in> set (qd_rows db)" for z
      using assms(2) [OF that] by auto
    have "q_ack s = Some a" "q_ack s' = Some a" "q_seq r = q_seq s" "q_seq r' = q_seq s'"
      using s a keep [OF s(1)] keep [OF s(3)] by auto
    then show "q_seq r = q_seq r'"
      using assms(1) s unfolding qdb_wf_def acks_unique_def by metis
  qed
  moreover have "\<forall>r \<in> set (map ?g (qd_rows db)). row_wf (update_where p f db) r"
    using assms by (auto simp: qdb_wf_def row_wf_def)
  moreover have "sorted_wrt (<) (map q_seq (map ?g (qd_rows db)))"
    unfolding seq using assms(1) by (simp add: qdb_wf_def)
  ultimately show ?thesis
    unfolding qdb_wf_def update_where_fields by blast
qed

lemma qdb_wf_ack: "qdb_wf db \<Longrightarrow> qdb_wf (ack m db)"
  unfolding ack_def by (rule qdb_wf_update) (auto simp: qdb_wf_def row_wf_def)

lemma qdb_wf_release: "qdb_wf db \<Longrightarrow> qdb_wf (update_where p (release_row x) db)"
  by (rule qdb_wf_update) (auto simp: qdb_wf_def row_wf_def release_row_def)

lemma qdb_wf_dead: "qdb_wf db \<Longrightarrow> (\<And>r. p r \<Longrightarrow> q_ack r \<noteq> None \<or> q_state r \<noteq> Ready) \<Longrightarrow>
    qdb_wf (update_where p (\<lambda>r. r\<lparr>q_state := Dead\<rparr>) db)"
  by (rule qdb_wf_update) (auto simp: qdb_wf_def row_wf_def split: option.splits)

lemma qdb_wf_to_dlq: "qdb_wf db \<Longrightarrow> qdb_wf (to_dlq c m reason db)"
  unfolding to_dlq_def by (intro qdb_wf_dead qdb_wf_publish) auto

lemma qdb_wf_nack: "qdb_wf db \<Longrightarrow> qdb_wf (nack b c m x db)"
  by (auto simp: nack_def qdb_wf_to_dlq qdb_wf_release split: option.splits)

lemma qdb_wf_dead_letter: "qdb_wf db \<Longrightarrow> qdb_wf (dead_letter_row ts s t v a reason db)"
  by (auto simp: dead_letter_row_def Let_def intro!: qdb_wf_publish qdb_wf_dead)

lemma qdb_wf_reclaim_row: "qdb_wf db \<Longrightarrow> qdb_wf (reclaim_row b c t r db)"
  by (simp add: reclaim_row_def qdb_wf_dead_letter qdb_wf_release)

lemma qdb_wf_reclaim_rows: "qdb_wf db \<Longrightarrow> qdb_wf (fold (reclaim_row b c t) rs db)"
  by (induction rs arbitrary: db) (auto simp: qdb_wf_reclaim_row)

lemma qdb_wf_reclaim: "qdb_wf db \<Longrightarrow> reclaim b c t db = (b', db', k) \<Longrightarrow> qdb_wf db'"
  by (auto simp: reclaim_def Let_def qdb_wf_reclaim_rows)

text \<open>One claim: exactly the row with this \<open>seq\<close>, which gets a fresh acknowledgement id.\<close>

definition claim :: "backend \<Rightarrow> qclock \<Rightarrow> qrow \<Rightarrow> qdb \<Rightarrow> qdb" where
  "claim b c r db = update_where (\<lambda>r'. q_seq r' = q_seq r \<and> q_state r' = Ready)
     (claim_row b c (qd_uuid db)) (db\<lparr>qd_uuid := Suc (qd_uuid db)\<rparr>)"

lemma claim_rows: "qd_rows (claim b c r db) =
    map (\<lambda>r'. if q_seq r' = q_seq r \<and> q_state r' = Ready then claim_row b c (qd_uuid db) r' else r') (qd_rows db)"
  by (simp add: claim_def)

lemma qdb_wf_claim:
  assumes "qdb_wf db" shows "qdb_wf (claim b c r db)"
proof -
  let ?g = "\<lambda>r'. if q_seq r' = q_seq r \<and> q_state r' = Ready then claim_row b c (qd_uuid db) r' else r'"
  have fresh: "\<And>s. s \<in> set (qd_rows db) \<Longrightarrow> q_ack s \<noteq> Some (qd_uuid db)"
    using assms by (auto simp: qdb_wf_def row_wf_def)
  have seq: "map q_seq (map ?g (qd_rows db)) = map q_seq (qd_rows db)"
    by (simp add: comp_def claim_row_def)
  have "acks_unique (map ?g (qd_rows db))"
    unfolding acks_unique_def
  proof (intro ballI allI impI)
    fix x y a
    assume "x \<in> set (map ?g (qd_rows db))" "y \<in> set (map ?g (qd_rows db))"
      and a: "q_ack x = Some a \<and> q_ack y = Some a"
    then obtain s s' where s: "s \<in> set (qd_rows db)" "x = ?g s" "s' \<in> set (qd_rows db)" "y = ?g s'"
      by auto
    have q: "q_seq x = q_seq s" "q_seq y = q_seq s'" using s by (auto simp: claim_row_def)
    have "q_seq s = q_seq s'"
    proof (cases "a = qd_uuid db")
      case True
      with fresh s a show ?thesis by (auto simp: claim_row_def split: if_splits)
    next
      case False
      then have "q_ack s = Some a" "q_ack s' = Some a"
        using s a by (auto simp: claim_row_def split: if_splits)
      then show ?thesis using assms s unfolding qdb_wf_def acks_unique_def by metis
    qed
    with q show "q_seq x = q_seq y" by simp
  qed
  moreover have "\<forall>x \<in> set (map ?g (qd_rows db)). row_wf (claim b c r db) x"
    using assms by (auto simp: qdb_wf_def row_wf_def claim_row_def claim_def split: option.splits)
  moreover have "sorted_wrt (<) (map q_seq (map ?g (qd_rows db)))"
    unfolding seq using assms by (simp add: qdb_wf_def)
  ultimately show ?thesis
    unfolding qdb_wf_def claim_rows by blast
qed

lemma qdb_wf_uuid: "qdb_wf db \<Longrightarrow> qdb_wf (db\<lparr>qd_uuid := Suc (qd_uuid db)\<rparr>)"
  by (auto simp: qdb_wf_def row_wf_def split: option.splits)

text \<open>The loop, with the claim named.\<close>

lemma pull_rows_Cons:
  "pull_rows b c t (r # rs) db =
     (if \<not> row_exists (\<lambda>r'. q_seq r' = q_seq r \<and> q_state r' = Ready) db
      then pull_rows b c t rs (db\<lparr>qd_uuid := Suc (qd_uuid db)\<rparr>)
      else case q_body r of RawBody s \<Rightarrow> (claim b c r db, Inl ValueError)
         | JsonBody v \<Rightarrow> (case pull_rows b c t rs (claim b c r db) of (db3, out) \<Rightarrow>
             (db3, emap (\<lambda>ms. \<lparr>m_ack = qd_uuid db, m_topic = t, m_body = v,
                m_attempts = q_attempts r + 1\<rparr> # ms) out)))"
  by (cases "q_body r") (simp_all add: claim_def Let_def row_exists_def)

declare pull_rows.simps(2) [simp del]

lemma fst_pull_rows_Cons:
  "fst (pull_rows b c t (r # rs) db) =
     (if \<not> row_exists (\<lambda>r'. q_seq r' = q_seq r \<and> q_state r' = Ready) db
      then fst (pull_rows b c t rs (db\<lparr>qd_uuid := Suc (qd_uuid db)\<rparr>))
      else case q_body r of RawBody s \<Rightarrow> claim b c r db
         | JsonBody v \<Rightarrow> fst (pull_rows b c t rs (claim b c r db)))"
  by (cases "q_body r") (simp_all add: pull_rows_Cons split: prod.splits)

lemma snd_fst_pull: "reclaim (fst s) c t (snd s) = (b, db, k) \<Longrightarrow> snd (fst (pull c t n s)) =
    fst (pull_rows b c t (take n (filter (is_available c t) (qd_rows db))) db)"
  by (auto simp: pull_def split: prod.splits)

text \<open>Whatever each claim keeps, the delivery loop keeps.\<close>

lemma pull_rows_invariant:
  assumes "I db" "\<And>db r. I db \<Longrightarrow> I (claim b c r db)"
    "\<And>db. I db \<Longrightarrow> I (db\<lparr>qd_uuid := Suc (qd_uuid db)\<rparr>)"
  shows "I (fst (pull_rows b c t rs db))"
  using assms(1)
proof (induction rs arbitrary: db)
  case (Cons r rs)
  show ?case
    using assms(2,3) [OF Cons.prems] Cons.IH
    by (cases "q_body r") (simp_all add: fst_pull_rows_Cons)
qed simp

lemma qdb_wf_pull:
  assumes "qdb_wf (snd s)" shows "qdb_wf (snd (fst (pull c t n s)))"
proof -
  obtain b db k where r: "reclaim (fst s) c t (snd s) = (b, db, k)" by (cases "reclaim (fst s) c t (snd s)")
  have "qdb_wf db" using assms r by (rule qdb_wf_reclaim)
  then show ?thesis
    unfolding snd_fst_pull [OF r] by (rule pull_rows_invariant) (auto intro: qdb_wf_claim qdb_wf_uuid)
qed

lemmas qdb_wf_intros = qdb_wf_empty qdb_wf_publish qdb_wf_ack qdb_wf_nack qdb_wf_to_dlq qdb_wf_pull

section \<open>What the table retains\<close>

text \<open>
  The messages of a topic that are not acknowledged: ready, leased or dead-lettered rows. Rows
  are never deleted, so this is what the backend still holds.
\<close>

definition retained :: "string \<Rightarrow> qdb \<Rightarrow> qbody multiset" where
  "retained t db = mset (map q_body (filter (\<lambda>r. q_topic r = t \<and> q_state r \<noteq> Done) (qd_rows db)))"

definition held :: "string \<Rightarrow> qdb \<Rightarrow> qmsg \<Rightarrow> bool" where
  "held t db m \<longleftrightarrow> (\<exists>r \<in> set (qd_rows db). q_ack r = Some (m_ack m) \<and> q_state r = Inflight
     \<and> q_topic r = t \<and> q_body r = JsonBody (m_body m))"

lemma retained_insert:
  "retained t (insert_row t' v db) = (if t' = t then add_mset v (retained t db) else retained t db)"
  by (simp add: retained_def insert_row_def)

lemma retained_publish:
  "retained t (publish t' v db) = (if t' = t then add_mset (JsonBody v) (retained t db) else retained t db)"
  by (simp add: publish_def retained_insert)

lemma dlq_topic_neq [simp]: "dlq_topic t \<noteq> t" "t \<noteq> dlq_topic t"
  by (simp_all add: dlq_topic_def)

lemma retained_update:
  assumes "\<And>r. r \<in> set (qd_rows db) \<Longrightarrow> p r \<Longrightarrow> q_topic (f r) = q_topic r \<and> q_body (f r) = q_body r
      \<and> (q_state (f r) = Done \<longleftrightarrow> q_state r = Done)"
  shows "retained t (update_where p f db) = retained t db"
proof -
  let ?g = "\<lambda>r. if p r then f r else r"
  have "map q_body (filter (\<lambda>r. q_topic r = t \<and> q_state r \<noteq> Done) (map ?g rs))
      = map q_body (filter (\<lambda>r. q_topic r = t \<and> q_state r \<noteq> Done) rs)"
    if "set rs \<subseteq> set (qd_rows db)" for rs
    using that assms by (induction rs) auto
  then show ?thesis by (simp add: retained_def)
qed

lemma retained_claim: "retained t (claim b c r db) = retained t db"
proof -
  have "retained t (claim b c r db) = retained t (db\<lparr>qd_uuid := Suc (qd_uuid db)\<rparr>)"
    unfolding claim_def by (rule retained_update) (auto simp: claim_row_def)
  then show ?thesis by (simp add: retained_def)
qed

lemma retained_uuid [simp]: "retained t (db\<lparr>qd_uuid := n\<rparr>) = retained t db"
  by (simp add: retained_def)

lemma retained_dead_letter:
  "dlq_topic t' \<noteq> t \<Longrightarrow> retained t (dead_letter_row ts s t' v a reason db) = retained t db"
  by (auto simp: dead_letter_row_def Let_def retained_publish intro!: retained_update)

lemma retained_reclaim_row: "retained t (reclaim_row b c t r db) = retained t db"
  by (auto simp: reclaim_row_def retained_dead_letter release_row_def intro!: retained_update)

lemma retained_reclaim: "reclaim b c t db = (b', db', k) \<Longrightarrow> retained t db' = retained t db"
proof -
  have "retained t (fold (reclaim_row b c t) rs db) = retained t db" for rs
    by (induction rs arbitrary: db) (simp_all add: retained_reclaim_row)
  then show "reclaim b c t db = (b', db', k) \<Longrightarrow> ?thesis" by (auto simp: reclaim_def Let_def)
qed

lemma retained_pull: "retained t (snd (fst (pull c t n s))) = retained t (snd s)"
proof -
  obtain b db k where r: "reclaim (fst s) c t (snd s) = (b, db, k)" by (cases "reclaim (fst s) c t (snd s)")
  show ?thesis
    unfolding snd_fst_pull [OF r]
    by (rule pull_rows_invariant [where I = "\<lambda>d. retained t d = retained t (snd s)"])
       (simp_all add: retained_claim retained_reclaim [OF r])
qed

lemma held_row: "held t db m \<Longrightarrow> qdb_wf db \<Longrightarrow>
    \<exists>r \<in> set (qd_rows db). q_ack r = Some (m_ack m) \<and> q_state r = Inflight \<and> q_topic r = t
      \<and> q_body r = JsonBody (m_body m)
      \<and> (\<forall>r' \<in> set (qd_rows db). q_ack r' = Some (m_ack m) \<longrightarrow> r' = r)"
  unfolding held_def by (metis acks_unique_def qdb_wf_def qdb_wf_seq_inj)

lemma retained_to_dlq:
  assumes "held t db m" "qdb_wf db" "m_topic m = t"
  shows "retained t (to_dlq c m reason db) = retained t db"
proof -
  let ?db = "publish (dlq_topic (m_topic m)) (dlq_wrapper (m_body m) reason (iso_now c) (m_attempts m)) db"
  have "retained t (to_dlq c m reason db) = retained t ?db"
    unfolding to_dlq_def
  proof (rule retained_update)
    fix r assume r: "r \<in> set (qd_rows ?db)" "q_ack r = Some (m_ack m)"
    from held_row [OF assms(1,2)] obtain r0 where r0: "q_state r0 = Inflight"
      "\<And>r'. r' \<in> set (qd_rows db) \<Longrightarrow> q_ack r' = Some (m_ack m) \<Longrightarrow> r' = r0" by blast
    from r have "r \<in> set (qd_rows db)" by (auto simp: publish_def insert_row_def)
    with r0 r have "r = r0" by blast
    with r0 show "q_topic (r\<lparr>q_state := Dead\<rparr>) = q_topic r \<and> q_body (r\<lparr>q_state := Dead\<rparr>) = q_body r
      \<and> (q_state (r\<lparr>q_state := Dead\<rparr>) = Done \<longleftrightarrow> q_state r = Done)" by simp
  qed
  then show ?thesis using assms(3) by (simp add: retained_publish)
qed

lemma retained_ack:
  assumes "held t db m" "qdb_wf db"
  shows "add_mset (JsonBody (m_body m)) (retained t (ack m db)) = retained t db"
proof -
  from held_row [OF assms] obtain r where r: "r \<in> set (qd_rows db)" "q_ack r = Some (m_ack m)"
      "q_state r = Inflight" "q_topic r = t" "q_body r = JsonBody (m_body m)"
      "\<And>r'. r' \<in> set (qd_rows db) \<Longrightarrow> q_ack r' = Some (m_ack m) \<Longrightarrow> r' = r" by blast
  obtain xs ys where split: "qd_rows db = xs @ r # ys" using r(1) by (auto dest: split_list)
  have ni: "r \<notin> set xs" "r \<notin> set ys"
    using qdb_wf_distinct [OF assms(2)] by (auto simp: split)
  have no: "q_ack z \<noteq> Some (m_ack m)" if "z \<in> set xs \<or> z \<in> set ys" for z
  proof -
    have "z \<in> set (qd_rows db)" "z \<noteq> r" using that ni unfolding split by auto
    with r(6) show ?thesis by blast
  qed
  have same: "map (\<lambda>r. if q_ack r = Some (m_ack m) then r\<lparr>q_state := Done\<rparr> else r) zs = zs"
    if "zs = xs \<or> zs = ys" for zs
    using that no by (intro map_cong_id) auto
  show ?thesis
    using r(1-5) same [of xs] same [of ys] by (simp add: retained_def ack_def split)
qed

lemma held_ack: "held t db m' \<Longrightarrow> m_ack m' \<noteq> m_ack m \<Longrightarrow> held t (ack m db) m'"
  unfolding held_def ack_def by (auto intro!: bexI)

lemma nack_cases:
  assumes "held t db m" "qdb_wf db"
  obtains r where "r \<in> set (qd_rows db)" "q_ack r = Some (m_ack m)" "q_state r = Inflight" "q_topic r = t"
    "nack b c m x db = (if qb_max b \<le> q_attempts r
       then to_dlq c m (''max_attempts '' @ int_str (qb_max b) @ '' exceeded'') db
       else update_where (\<lambda>r'. q_seq r' = q_seq r) (release_row (fl_add (py_now c) x)) db)"
proof -
  from held_row [OF assms] obtain r where r: "r \<in> set (qd_rows db)" "q_ack r = Some (m_ack m)"
      "q_state r = Inflight" "q_topic r = t"
      "\<And>r'. r' \<in> set (qd_rows db) \<Longrightarrow> q_ack r' = Some (m_ack m) \<Longrightarrow> r' = r" by blast
  have "find (\<lambda>r. q_ack r = Some (m_ack m)) (qd_rows db) = Some r"
  proof (cases "find (\<lambda>r. q_ack r = Some (m_ack m)) (qd_rows db)")
    case None
    with r(1,2) show ?thesis by (auto simp: find_None_iff)
  next
    case (Some s)
    then have "s \<in> set (qd_rows db)" "q_ack s = Some (m_ack m)" by (auto simp: find_Some_iff)
    with r(5) Some show ?thesis by simp
  qed
  then show ?thesis by (intro that [OF r(1-4)]) (simp add: nack_def)
qed

lemma retained_nack:
  assumes "held t db m" "qdb_wf db" "m_topic m = t"
  shows "retained t (nack b c m x db) = retained t db"
proof -
  from nack_cases [OF assms(1,2)] obtain r where r: "r \<in> set (qd_rows db)" "q_state r = Inflight"
    and eq: "nack b c m x db = (if qb_max b \<le> q_attempts r
       then to_dlq c m (''max_attempts '' @ int_str (qb_max b) @ '' exceeded'') db
       else update_where (\<lambda>r'. q_seq r' = q_seq r) (release_row (fl_add (py_now c) x)) db)" by metis
  have "retained t (update_where (\<lambda>r'. q_seq r' = q_seq r) (release_row y) db) = retained t db" for y
  proof (rule retained_update)
    fix r' assume "r' \<in> set (qd_rows db)" "q_seq r' = q_seq r"
    then have "r' = r" using r assms(2) qdb_wf_seq_inj by blast
    then show "q_topic (release_row y r') = q_topic r' \<and> q_body (release_row y r') = q_body r'
      \<and> (q_state (release_row y r') = Done \<longleftrightarrow> q_state r' = Done)"
      using r by (simp add: release_row_def)
  qed
  then show ?thesis unfolding eq using retained_to_dlq [OF assms] by simp
qed

lemma held_to_dlq:
  assumes "held t db m'" "m_ack m' \<noteq> m_ack m"
  shows "held t (to_dlq c m reason db) m'"
proof -
  from assms(1) obtain s where s: "s \<in> set (qd_rows db)" "q_ack s = Some (m_ack m')"
    "q_state s = Inflight" "q_topic s = t" "q_body s = JsonBody (m_body m')" by (auto simp: held_def)
  with assms(2) show ?thesis
    unfolding held_def to_dlq_def publish_def insert_row_def by (intro bexI [of _ s]) auto
qed

lemma held_nack:
  assumes "held t db m'" "held t db m" "m_ack m' \<noteq> m_ack m" "qdb_wf db"
  shows "held t (nack b c m x db) m'"
proof -
  from nack_cases [OF assms(2,4)] obtain r where r: "r \<in> set (qd_rows db)" "q_ack r = Some (m_ack m)"
    and eq: "nack b c m x db = (if qb_max b \<le> q_attempts r
       then to_dlq c m (''max_attempts '' @ int_str (qb_max b) @ '' exceeded'') db
       else update_where (\<lambda>r'. q_seq r' = q_seq r) (release_row (fl_add (py_now c) x)) db)" by metis
  from assms(1) obtain s where s: "s \<in> set (qd_rows db)" "q_ack s = Some (m_ack m')"
    "q_state s = Inflight" "q_topic s = t" "q_body s = JsonBody (m_body m')" by (auto simp: held_def)
  have "q_seq s \<noteq> q_seq r"
    using s r assms(3,4) qdb_wf_seq_inj by (metis option.inject)
  with s have "held t (update_where (\<lambda>r'. q_seq r' = q_seq r) f db) m'" for f
    unfolding held_def by (intro bexI [of _ s]) auto
  then show ?thesis unfolding eq using held_to_dlq [OF assms(1,3)] by simp
qed

end
