(* ===== verification/Queue_Laws.thy ===== *)
theory Queue_Laws
  imports Queue_Backend
begin

text \<open>
  What the operations of \<^theory_text>\<open>Queue_Backend\<close> promise to the code that uses them: what a pull
  delivers, that redelivery is bounded, that no lease outlives its deadline, and the contract
  \<open>message_store\<close> under which the clients are verified.
\<close>

section \<open>Delivery\<close>

definition matches :: "string \<Rightarrow> qrow list \<Rightarrow> qdb \<Rightarrow> bool" where
  "matches t rs db \<longleftrightarrow> (\<forall>r \<in> set rs. \<forall>r' \<in> set (qd_rows db). q_seq r' = q_seq r \<longrightarrow>
     q_body r' = q_body r \<and> q_topic r' = t)"

lemma matches_claim: "matches t rs db \<Longrightarrow> matches t rs (claim b c r db)"
  by (auto simp: matches_def claim_rows claim_row_def split: if_splits)

lemma held_claim: "held t db m \<Longrightarrow> held t (claim b c r db) m"
  unfolding held_def claim_rows by force

lemma held_claimed:
  assumes "matches t [r] db" "row_exists (\<lambda>r'. q_seq r' = q_seq r \<and> q_state r' = Ready) db" "q_body r = JsonBody v"
  shows "held t (claim b c r db) \<lparr>m_ack = qd_uuid db, m_topic = t, m_body = v, m_attempts = n\<rparr>"
proof -
  from assms(2) obtain r' where r': "r' \<in> set (qd_rows db)" "q_seq r' = q_seq r" "q_state r' = Ready"
    by (auto simp: row_exists_def list_ex_iff)
  with assms(1,3) have "q_body r' = JsonBody v" "q_topic r' = t" by (auto simp: matches_def)
  with r' show ?thesis
    unfolding held_def claim_rows by (intro bexI [of _ "claim_row b c (qd_uuid db) r'"]) (auto simp: claim_row_def)
qed

lemma held_uuid [simp]: "held t (db\<lparr>qd_uuid := n\<rparr>) m = held t db m"
  by (simp add: held_def)

lemma held_pull_rows: "held t db m \<Longrightarrow> held t (fst (pull_rows b c t' rs db)) m"
  by (rule pull_rows_invariant [where I = "\<lambda>d. held t d m"]) (simp_all add: held_claim)

lemma qd_uuid_claim [simp]: "qd_uuid (claim b c r db) = Suc (qd_uuid db)"
  by (simp add: claim_def)

lemma pull_rows_delivered:
  "pull_rows b c t rs db = (db', Inr ms) \<Longrightarrow> matches t rs db \<Longrightarrow>
     (\<forall>m \<in> set ms. held t db' m \<and> m_topic m = t \<and> qd_uuid db \<le> m_ack m) \<and> distinct (map m_ack ms)"
proof (induction rs arbitrary: db ms)
  case (Cons r rs)
  have mt: "matches t rs db" "matches t [r] db" using Cons.prems(2) by (auto simp: matches_def)
  show ?case
  proof (cases "row_exists (\<lambda>r'. q_seq r' = q_seq r \<and> q_state r' = Ready) db")
    case False
    then have "pull_rows b c t rs (db\<lparr>qd_uuid := Suc (qd_uuid db)\<rparr>) = (db', Inr ms)"
      using Cons.prems(1) by (simp add: pull_rows_Cons)
    from Cons.IH [OF this] mt(1) show ?thesis by (auto simp: matches_def)
  next
    case True
    with Cons.prems(1) obtain v ms' where v: "q_body r = JsonBody v"
      and p: "pull_rows b c t rs (claim b c r db) = (db', Inr ms')"
      and ms: "ms = \<lparr>m_ack = qd_uuid db, m_topic = t, m_body = v, m_attempts = q_attempts r + 1\<rparr> # ms'"
      by (auto simp: pull_rows_Cons emap_Inr_iff split: qbody.splits prod.splits)
    from Cons.IH [OF p matches_claim [OF mt(1)]]
    have IH: "\<forall>m \<in> set ms'. held t db' m \<and> m_topic m = t \<and> Suc (qd_uuid db) \<le> m_ack m" "distinct (map m_ack ms')"
      by auto
    have "held t db' \<lparr>m_ack = qd_uuid db, m_topic = t, m_body = v, m_attempts = q_attempts r + 1\<rparr>"
      using held_pull_rows [OF held_claimed [OF mt(2) True v, of b c "q_attempts r + 1"], of b c t rs] p by simp
    with IH show ?thesis by (auto simp: ms)
  qed
qed simp

lemma matches_rows: "qdb_wf db \<Longrightarrow> rs = take n (filter (is_available c t) (qd_rows db)) \<Longrightarrow> matches t rs db"
  unfolding matches_def
  by (auto dest!: in_set_takeD simp: is_available_def dest: qdb_wf_seq_inj)

lemma pull_delivered:
  assumes "qdb_wf (snd s)" "pull c t n s = (s', Inr ms)"
  shows "\<forall>m \<in> set ms. held t (snd s') m \<and> m_topic m = t" "distinct (map m_ack ms)"
proof -
  obtain b db k where r: "reclaim (fst s) c t (snd s) = (b, db, k)" by (cases "reclaim (fst s) c t (snd s)")
  have wf: "qdb_wf db" using assms(1) r by (rule qdb_wf_reclaim)
  have "pull_rows b c t (take n (filter (is_available c t) (qd_rows db))) db = (snd s', Inr ms)"
    using assms(2) r by (auto simp: pull_def split: prod.splits)
  from pull_rows_delivered [OF this matches_rows [OF wf refl]]
  show "\<forall>m \<in> set ms. held t (snd s') m \<and> m_topic m = t" "distinct (map m_ack ms)" by auto
qed

section \<open>The attempt counter\<close>

definition attempts_ok :: "int \<Rightarrow> qdb \<Rightarrow> bool" where
  "attempts_ok mx db \<longleftrightarrow> (\<forall>r \<in> set (qd_rows db). 0 \<le> q_attempts r \<and> q_attempts r \<le> mx
     \<and> (q_state r = Ready \<longrightarrow> q_attempts r < mx))"

lemma attempts_ok_publish: "0 < mx \<Longrightarrow> attempts_ok mx db \<Longrightarrow> attempts_ok mx (publish t v db)"
  by (auto simp: attempts_ok_def publish_def insert_row_def)

lemma attempts_ok_update:
  "attempts_ok mx db \<Longrightarrow> (\<And>r. p r \<Longrightarrow> q_attempts (f r) = q_attempts r \<and> q_state (f r) \<noteq> Ready) \<Longrightarrow>
     attempts_ok mx (update_where p f db)"
  by (auto simp: attempts_ok_def)

lemma attempts_ok_ack: "attempts_ok mx db \<Longrightarrow> attempts_ok mx (ack m db)"
  unfolding ack_def by (rule attempts_ok_update) auto

lemma attempts_ok_to_dlq: "0 < mx \<Longrightarrow> attempts_ok mx db \<Longrightarrow> attempts_ok mx (to_dlq c m reason db)"
  unfolding to_dlq_def by (intro attempts_ok_update attempts_ok_publish) auto

lemma attempts_ok_release:
  "attempts_ok mx db \<Longrightarrow> (\<And>r'. r' \<in> set (qd_rows db) \<Longrightarrow> p r' \<Longrightarrow> q_attempts r' < mx) \<Longrightarrow>
     attempts_ok mx (update_where p (release_row x) db)"
  by (auto simp: attempts_ok_def release_row_def)

lemma attempts_ok_nack:
  assumes "0 < qb_max b" "qdb_wf db" "attempts_ok (qb_max b) db"
  shows "attempts_ok (qb_max b) (nack b c m x db)"
proof (cases "find (\<lambda>r. q_ack r = Some (m_ack m)) (qd_rows db)")
  case None
  with assms show ?thesis by (simp add: nack_def)
next
  case (Some r)
  then have r: "r \<in> set (qd_rows db)" by (auto simp: find_Some_iff)
  have same: "r' = r" if "r' \<in> set (qd_rows db)" "q_seq r' = q_seq r" for r'
    using qdb_wf_seq_inj [OF assms(2) that(1) r that(2)] .
  have "attempts_ok (qb_max b) (update_where (\<lambda>r'. q_seq r' = q_seq r) (release_row y) db)"
    if "\<not> qb_max b \<le> q_attempts r" for y
    by (rule attempts_ok_release [OF assms(3)]) (use that same in force)
  with Some assms show ?thesis by (simp add: nack_def attempts_ok_to_dlq)
qed

lemma attempts_ok_claim: "attempts_ok mx db \<Longrightarrow> attempts_ok mx (claim b c r db)"
  by (auto simp: attempts_ok_def claim_rows claim_row_def)

lemma attempts_ok_uuid [simp]: "attempts_ok mx (db\<lparr>qd_uuid := n\<rparr>) = attempts_ok mx db"
  by (simp add: attempts_ok_def)

lemma attempts_ok_pull_rows: "attempts_ok mx db \<Longrightarrow> attempts_ok mx (fst (pull_rows b c t rs db))"
  by (rule pull_rows_invariant [where I = "attempts_ok mx"]) (simp_all add: attempts_ok_claim)

text \<open>In the reaper's loop a row of the snapshot keeps its counter until it is reached.\<close>

definition snapshot_of :: "qrow list \<Rightarrow> qdb \<Rightarrow> bool" where
  "snapshot_of rs db \<longleftrightarrow> (\<forall>r \<in> set rs. \<forall>r' \<in> set (qd_rows db). q_seq r' = q_seq r \<longrightarrow> q_attempts r' = q_attempts r)
     \<and> (\<forall>r \<in> set rs. q_seq r < qd_next db)"

lemma snapshot_of_publish: "snapshot_of rs db \<Longrightarrow> snapshot_of rs (publish t v db)"
  by (force simp: snapshot_of_def publish_def insert_row_def)

lemma snapshot_of_update:
  "snapshot_of rs db \<Longrightarrow> (\<And>r. q_seq (f r) = q_seq r \<and> q_attempts (f r) = q_attempts r) \<Longrightarrow>
    snapshot_of rs (update_where p f db)"
  by (auto simp: snapshot_of_def)

lemma snapshot_of_reclaim_row: "snapshot_of rs db \<Longrightarrow> snapshot_of rs (reclaim_row b c t r db)"
  by (auto simp: reclaim_row_def dead_letter_row_def Let_def release_row_def
      intro!: snapshot_of_publish snapshot_of_update)

lemma attempts_ok_reclaim_row:
  assumes "0 < qb_max b" "attempts_ok (qb_max b) db" "snapshot_of [r] db"
  shows "attempts_ok (qb_max b) (reclaim_row b c t r db)"
proof (cases "qb_max b \<le> q_attempts r")
  case True
  with assms show ?thesis
    by (auto simp: reclaim_row_def dead_letter_row_def Let_def intro!: attempts_ok_publish attempts_ok_update)
next
  case False
  with assms show ?thesis
    by (auto simp: reclaim_row_def snapshot_of_def intro!: attempts_ok_release)
qed

lemma attempts_ok_reclaim_rows:
  "0 < qb_max b \<Longrightarrow> attempts_ok (qb_max b) db \<Longrightarrow> snapshot_of rs db \<Longrightarrow>
     attempts_ok (qb_max b) (fold (reclaim_row b c t) rs db)"
proof (induction rs arbitrary: db)
  case (Cons r rs)
  have "snapshot_of [r] db" "snapshot_of rs db" using Cons.prems(3) by (auto simp: snapshot_of_def)
  with Cons show ?case by (simp add: attempts_ok_reclaim_row snapshot_of_reclaim_row)
qed simp

lemma attempts_ok_pull:
  assumes "0 < qb_max (fst s)" "qdb_wf (snd s)" "attempts_ok (qb_max (fst s)) (snd s)"
  shows "attempts_ok (qb_max (fst s)) (snd (fst (pull c t n s)))"
proof -
  obtain b db k where r: "reclaim (fst s) c t (snd s) = (b, db, k)" by (cases "reclaim (fst s) c t (snd s)")
  have "snapshot_of (filter (is_orphan (fst s) c t) (qd_rows (snd s))) (snd s)"
    using assms(2) qdb_wf_seq_inj [OF assms(2)] by (auto simp: snapshot_of_def qdb_wf_def row_wf_def)
  then have "attempts_ok (qb_max (fst s)) db"
    using attempts_ok_reclaim_rows [OF assms(1,3)] r by (auto simp: reclaim_def Let_def)
  then show ?thesis unfolding snd_fst_pull [OF r] by (rule attempts_ok_pull_rows)
qed

lemma pull_rows_attempts:
  "pull_rows b c t rs db = (db', Inr ms) \<Longrightarrow> \<forall>r \<in> set rs. q_attempts r < mx \<Longrightarrow> \<forall>m \<in> set ms. m_attempts m \<le> mx"
proof (induction rs arbitrary: db ms)
  case (Cons r rs)
  then show ?case
    by (fastforce simp: pull_rows_Cons emap_Inr_iff split: qbody.splits prod.splits if_splits)
qed simp

section \<open>The reaper in one step\<close>

text \<open>What one pass of the reaper does to a row, and the wrapper it files for a dead one.\<close>

definition reclaimed :: "backend \<Rightarrow> qclock \<Rightarrow> string \<Rightarrow> qrow \<Rightarrow> qrow" where
  "reclaimed b c t r = (if \<not> is_orphan b c t r then r
     else if qb_max b \<le> q_attempts r then r\<lparr>q_state := Dead\<rparr> else release_row (Fin 0) r)"

definition filed :: "backend \<Rightarrow> qclock \<Rightarrow> string \<Rightarrow> qrow list \<Rightarrow> (string \<times> qbody \<times> qstate \<times> int) list" where
  "filed b c t rs = map (\<lambda>r. (dlq_topic t, JsonBody (dlq_wrapper (body_value (q_body r))
       (''lease expired; max_attempts '' @ int_str (qb_max b) @ '' exceeded'') (iso_now c) (q_attempts r)), Ready, 0))
     (filter (\<lambda>r. is_orphan b c t r \<and> qb_max b \<le> q_attempts r) rs)"

abbreviation row_entry :: "qrow \<Rightarrow> string \<times> qbody \<times> qstate \<times> int" where
  "row_entry r \<equiv> (q_topic r, q_body r, q_state r, q_attempts r)"

lemma reclaimed_seq [simp]: "q_seq (reclaimed b c t r) = q_seq r"
  by (simp add: reclaimed_def release_row_def)

text \<open>One row of the snapshot, in a table whose rows before it were already reaped.\<close>

lemma reclaim_row_step:
  assumes wf: "distinct (map q_seq (rows @ new))" and r: "r \<in> set rows" "is_orphan b c t r"
    and ps: "r \<notin> set ps"
    and db: "qd_rows db = map (\<lambda>x. if x \<in> set ps then reclaimed b c t x else x) rows @ new"
    and new: "\<forall>x \<in> set new. q_state x = Ready"
  shows "\<exists>new'. qd_rows (reclaim_row b c t r db)
      = map (\<lambda>x. if x \<in> insert r (set ps) then reclaimed b c t x else x) rows @ new @ new'
    \<and> map row_entry new' = filed b c t [r]"
proof -
  let ?p = "\<lambda>x. q_seq x = q_seq r \<and> q_state x = Inflight"
  have inj: "x = r" if "x \<in> set rows" "q_seq x = q_seq r" for x
    using that r(1) wf by (auto simp: distinct_map dest: inj_onD)
  have infl: "q_state r = Inflight" using r(2) by (simp add: is_orphan_def)
  have upd: "map (\<lambda>x. if ?p x then f x else x) (qd_rows db)
      = map (\<lambda>x. if x \<in> insert r (set ps) then (if x = r then f r else reclaimed b c t x) else x) rows @ new" for f
    unfolding db using inj infl ps new by (auto simp: list.map_comp intro!: map_cong_id)
  have ex: "row_exists ?p db"
    unfolding row_exists_def db using r(1) ps infl by (auto simp: list_ex_iff)
  show ?thesis
  proof (cases "qb_max b \<le> q_attempts r")
    case True
    then show ?thesis using ex r(2)
      by (auto simp: reclaim_row_def dead_letter_row_def Let_def publish_def insert_row_def upd filed_def
          reclaimed_def cong: map_cong)
  next
    case False
    then show ?thesis using r(2)
      by (auto simp: reclaim_row_def upd filed_def reclaimed_def cong: map_cong)
  qed
qed

lemma filed_append: "filed b c t (xs @ ys) = filed b c t xs @ filed b c t ys"
  by (simp add: filed_def)

lemma reclaim_rows_seq: "map q_seq (qd_rows (reclaim_row b c t r db)) =
    map q_seq (qd_rows db) @ (if qb_max b \<le> q_attempts r \<and> row_exists (\<lambda>x. q_seq x = q_seq r \<and> q_state x = Inflight) db
      then [qd_next db] else [])"
  by (auto simp: reclaim_row_def dead_letter_row_def Let_def publish_def insert_row_def release_row_def)

lemma reclaim_fold:
  assumes "qdb_wf db0" "set rs \<subseteq> {r \<in> set (qd_rows db0). is_orphan b c t r}" "distinct rs"
  shows "\<exists>new. qd_rows (fold (reclaim_row b c t) rs db0)
      = map (\<lambda>x. if x \<in> set rs then reclaimed b c t x else x) (qd_rows db0) @ new
    \<and> map row_entry new = filed b c t rs"
  using assms(2,3)
proof (induction rs rule: rev_induct)
  case Nil
  then show ?case by (simp add: filed_def)
next
  case (snoc r rs)
  let ?db = "fold (reclaim_row b c t) rs db0"
  obtain new where db: "qd_rows ?db = map (\<lambda>x. if x \<in> set rs then reclaimed b c t x else x) (qd_rows db0) @ new"
    and new: "map row_entry new = filed b c t rs"
    using snoc.IH snoc.prems by auto
  have ready: "\<forall>x \<in> set new. q_state x = Ready"
  proof
    fix x assume "x \<in> set new"
    then have "row_entry x \<in> set (filed b c t rs)" unfolding new [symmetric] by simp
    then show "q_state x = Ready" by (auto simp: filed_def)
  qed
  have "distinct (map q_seq (qd_rows ?db))"
    using qdb_wf_distinct [OF qdb_wf_reclaim_rows [OF assms(1)]] .
  then have "distinct (map q_seq (qd_rows db0 @ new))"
    unfolding db by (simp add: comp_def if_distrib cong: if_cong)
  from reclaim_row_step [OF this _ _ _ db ready, of r] snoc.prems obtain new' where
    "qd_rows (reclaim_row b c t r ?db)
      = map (\<lambda>x. if x \<in> insert r (set rs) then reclaimed b c t x else x) (qd_rows db0) @ new @ new'"
    "map row_entry new' = filed b c t [r]" by auto
  with new show ?case by (intro exI [of _ "new @ new'"]) (simp add: filed_append)
qed

lemma filed_orphans: "filed b c t (filter (is_orphan b c t) rs) = filed b c t rs"
  by (induction rs) (simp_all add: filed_def)

lemma reclaim_rows_spec:
  assumes "qdb_wf db" "reclaim b c t db = (b', db', k)"
  shows "\<exists>new. qd_rows db' = map (reclaimed b c t) (qd_rows db) @ new \<and> map row_entry new = filed b c t (qd_rows db)"
proof -
  let ?rs = "filter (is_orphan b c t) (qd_rows db)"
  have "distinct ?rs" using qdb_wf_distinct [OF assms(1)] by (simp add: distinct_map)
  from reclaim_fold [OF assms(1) _ this, of b c t] obtain new where
    n: "qd_rows (fold (reclaim_row b c t) ?rs db) =
      map (\<lambda>x. if x \<in> set ?rs then reclaimed b c t x else x) (qd_rows db) @ new" "map row_entry new = filed b c t ?rs"
    by auto
  have "map (\<lambda>x. if x \<in> set ?rs then reclaimed b c t x else x) (qd_rows db) = map (reclaimed b c t) (qd_rows db)"
    by (auto simp: reclaimed_def)
  moreover have "db' = fold (reclaim_row b c t) ?rs db" using assms(2) by (auto simp: reclaim_def Let_def)
  ultimately show ?thesis using n unfolding filed_orphans by (intro exI [of _ new]) simp
qed

section \<open>A pull in one step\<close>

definition deliver :: "string \<Rightarrow> qrow \<Rightarrow> nat \<Rightarrow> qmsg" where
  "deliver t r a = \<lparr>m_ack = a, m_topic = t, m_body = body_value (q_body r), m_attempts = q_attempts r + 1\<rparr>"

lemma claim_other: "x \<in> set (qd_rows db) \<Longrightarrow> q_seq x \<noteq> q_seq r \<Longrightarrow> x \<in> set (qd_rows (claim b c r db))"
  by (force simp: claim_rows)

lemma pull_rows_exact:
  assumes "set rs \<subseteq> set (qd_rows db)" "\<forall>r \<in> set rs. q_state r = Ready" "distinct (map q_seq rs)"
    "\<forall>r \<in> set rs. \<exists>v. q_body r = JsonBody v"
  shows "\<exists>db' ms. pull_rows b c t rs db = (db', Inr ms)
    \<and> ms = map2 (deliver t) rs [qd_uuid db..<qd_uuid db + length rs]"
  using assms
proof (induction rs arbitrary: db)
  case (Cons r rs)
  from Cons.prems obtain v where v: "q_body r = JsonBody v" by auto
  have "row_exists (\<lambda>r'. q_seq r' = q_seq r \<and> q_state r' = Ready) db"
    using Cons.prems by (auto simp: row_exists_def list_ex_iff)
  moreover have "set rs \<subseteq> set (qd_rows (claim b c r db))"
  proof
    fix x assume x: "x \<in> set rs"
    then have "q_seq x \<noteq> q_seq r" using Cons.prems(3) by (metis distinct.simps(2) image_eqI list.set_map list.simps(9))
    with x Cons.prems(1) show "x \<in> set (qd_rows (claim b c r db))" by (auto intro!: claim_other)
  qed
  from Cons.IH [OF this] Cons.prems obtain db' where
    "pull_rows b c t rs (claim b c r db) = (db', Inr (map2 (deliver t) rs [Suc (qd_uuid db)..<Suc (qd_uuid db) + length rs]))"
    by auto
  moreover have "[qd_uuid db..<qd_uuid db + Suc (length rs)] = qd_uuid db # [Suc (qd_uuid db)..<Suc (qd_uuid db) + length rs]"
    by (simp add: upt_conv_Cons del: upt_Suc)
  ultimately show ?case
    by (simp add: pull_rows_Cons v deliver_def body_value_def del: upt_Suc)
qed simp

definition all_json :: "string \<Rightarrow> qdb \<Rightarrow> bool" where
  "all_json t db \<longleftrightarrow> (\<forall>r \<in> set (qd_rows db). q_topic r = t \<longrightarrow> (\<exists>v. q_body r = JsonBody v))"

definition deliverable :: "backend \<Rightarrow> qclock \<Rightarrow> string \<Rightarrow> qdb \<Rightarrow> qrow list" where
  "deliverable b c t db = filter (is_available c t) (map (reclaimed b c t) (qd_rows db))"


lemma available_reclaimed:
  assumes "qdb_wf db" "reclaim b c t db = (b', db', k)"
  shows "filter (is_available c t) (qd_rows db') = deliverable b c t db"
proof -
  from reclaim_rows_spec [OF assms] obtain new where
    "qd_rows db' = map (reclaimed b c t) (qd_rows db) @ new" and n: "map row_entry new = filed b c t (qd_rows db)" by blast
  moreover have "filter (is_available c t) new = []"
  proof -
    have "q_topic x = dlq_topic t" if "x \<in> set new" for x
    proof -
      from that have "row_entry x \<in> set (filed b c t (qd_rows db))" unfolding n [symmetric] by simp
      then show ?thesis by (auto simp: filed_def)
    qed
    then show ?thesis by (auto simp: filter_empty_conv is_available_def)
  qed
  ultimately show ?thesis by (simp add: deliverable_def)
qed

lemma reclaim_uuid: "reclaim b c t db = (b', db', k) \<Longrightarrow> qd_uuid db' = qd_uuid db"
proof -
  have "qd_uuid (reclaim_row b c t r db) = qd_uuid db" for r db
    by (simp add: reclaim_row_def dead_letter_row_def Let_def publish_def)
  then have "qd_uuid (fold (reclaim_row b c t) rs db) = qd_uuid db" for rs
    by (induction rs arbitrary: db) simp_all
  then show "reclaim b c t db = (b', db', k) \<Longrightarrow> ?thesis" by (auto simp: reclaim_def Let_def)
qed

lemma body_reclaimed [simp]: "q_body (reclaimed b c t r) = q_body r" "q_topic (reclaimed b c t r) = q_topic r"
    "q_attempts (reclaimed b c t r) = q_attempts r"
  by (simp_all add: reclaimed_def release_row_def)

lemma pull_exact:
  assumes "qdb_wf (snd s)" "all_json t (snd s)"
  shows "snd (pull c t n s) =
    Inr (let rs = take n (deliverable (fst s) c t (snd s)) in map2 (deliver t) rs [qd_uuid (snd s)..<qd_uuid (snd s) + length rs])"
proof -
  obtain b db k where r: "reclaim (fst s) c t (snd s) = (b, db, k)" by (cases "reclaim (fst s) c t (snd s)")
  let ?rs = "take n (deliverable (fst s) c t (snd s))"
  have av: "filter (is_available c t) (qd_rows db) = deliverable (fst s) c t (snd s)"
    using assms(1) r by (rule available_reclaimed)
  have sub: "set ?rs \<subseteq> set (filter (is_available c t) (qd_rows db))"
    unfolding av by (rule set_take_subset)
  have "distinct (map q_seq ?rs)"
    using qdb_wf_distinct [OF qdb_wf_reclaim [OF assms(1) r]] unfolding av [symmetric]
    by (simp add: take_map [symmetric] distinct_map_filter)
  moreover have "\<forall>r \<in> set ?rs. \<exists>v. q_body r = JsonBody v"
    using assms(2) by (auto simp: all_json_def deliverable_def is_available_def dest!: in_set_takeD)
  ultimately obtain db' where
    "pull_rows b c t ?rs db = (db', Inr (map2 (deliver t) ?rs [qd_uuid db..<qd_uuid db + length ?rs]))"
    using sub pull_rows_exact [of ?rs db b c t] by (auto simp: is_available_def)
  then show ?thesis
    using r reclaim_uuid [OF r] by (simp add: pull_def av Let_def)
qed

lemma map2_deliver_bodies:
  "map (\<lambda>m. (m_topic m, m_body m, m_attempts m)) (map2 (deliver t) rs [a..<a + length rs])
    = map (\<lambda>r. (t, body_value (q_body r), q_attempts r + 1)) rs"
proof (induction rs arbitrary: a)
  case (Cons r rs)
  from Cons.IH [of "Suc a"] show ?case by (simp add: upt_conv_Cons deliver_def del: upt_Suc)
qed simp

text \<open>A row that another holder has on an unexpired lease is left alone.\<close>

lemma claim_keeps:
  assumes "x \<in> set (qd_rows db)" "q_state x \<noteq> Ready" shows "x \<in> set (qd_rows (claim b c r db))"
  using assms by (force simp: claim_rows)

lemma pull_keeps_lease:
  assumes "qdb_wf (snd s)" "x \<in> set (qd_rows (snd s))" "q_state x = Inflight" "\<not> is_orphan (fst s) c t x"
  shows "x \<in> set (qd_rows (snd (fst (pull c t n s))))"
proof -
  obtain b db k where r: "reclaim (fst s) c t (snd s) = (b, db, k)" by (cases "reclaim (fst s) c t (snd s)")
  from reclaim_rows_spec [OF assms(1) r] obtain new where
    new: "qd_rows db = map (reclaimed (fst s) c t) (qd_rows (snd s)) @ new" by blast
  have "reclaimed (fst s) c t x = x" using assms(4) by (simp add: reclaimed_def)
  then have "x \<in> set (qd_rows db)" using assms(2) unfolding new by force
  then show ?thesis
    unfolding snd_fst_pull [OF r] using assms(3)
    by (intro pull_rows_invariant [where I = "\<lambda>d. x \<in> set (qd_rows d)"]) (auto intro: claim_keeps)
qed


section \<open>The contract of a message store\<close>

text \<open>
  The methods of a queue object that its clients call. \<open>retained t s\<close> are the unacknowledged
  messages of topic \<open>t\<close>; \<open>holds t s m\<close> says the caller still has \<open>m\<close> on lease.
\<close>

record 's store_ops =
  so_publish :: "string \<Rightarrow> pyval \<Rightarrow> 's \<Rightarrow> 's"
  so_pull :: "qclock \<Rightarrow> string \<Rightarrow> nat \<Rightarrow> 's \<Rightarrow> 's \<times> qmsg list res"
  so_ack :: "qmsg \<Rightarrow> 's \<Rightarrow> 's"
  so_nack :: "qclock \<Rightarrow> qmsg \<Rightarrow> pyfloat \<Rightarrow> 's \<Rightarrow> 's"
  so_to_dlq :: "qclock \<Rightarrow> qmsg \<Rightarrow> string \<Rightarrow> 's \<Rightarrow> 's"

definition local_ops :: "(backend \<times> qdb) store_ops" where
  "local_ops = \<lparr>
     so_publish = (\<lambda>t v s. (fst s, publish t v (snd s))),
     so_pull = pull,
     so_ack = (\<lambda>m s. (fst s, ack m (snd s))),
     so_nack = (\<lambda>c m x s. (fst s, nack (fst s) c m x (snd s))),
     so_to_dlq = (\<lambda>c m reason s. (fst s, to_dlq c m reason (snd s)))\<rparr>"

locale message_store =
  fixes ops :: "'s store_ops"
    and inv :: "'s \<Rightarrow> bool"
    and kept :: "string \<Rightarrow> 's \<Rightarrow> qbody multiset"
    and holds :: "string \<Rightarrow> 's \<Rightarrow> qmsg \<Rightarrow> bool"
  assumes inv_publish: "inv s \<Longrightarrow> inv (so_publish ops t v s)"
    and inv_pull: "inv s \<Longrightarrow> inv (fst (so_pull ops c t n s))"
    and inv_ack: "inv s \<Longrightarrow> inv (so_ack ops m s)"
    and inv_nack: "inv s \<Longrightarrow> inv (so_nack ops c m x s)"
    and inv_to_dlq: "inv s \<Longrightarrow> inv (so_to_dlq ops c m reason s)"
    and kept_publish: "inv s \<Longrightarrow> kept t (so_publish ops t v s) = add_mset (JsonBody v) (kept t s)"
    and kept_publish_other: "inv s \<Longrightarrow> t' \<noteq> t \<Longrightarrow> kept t (so_publish ops t' v s) = kept t s"
    and kept_pull: "inv s \<Longrightarrow> kept t (fst (so_pull ops c t n s)) = kept t s"
    and pull_holds: "inv s \<Longrightarrow> so_pull ops c t n s = (s', Inr ms) \<Longrightarrow> m \<in> set ms \<Longrightarrow> holds t s' m"
    and pull_distinct: "inv s \<Longrightarrow> so_pull ops c t n s = (s', Inr ms) \<Longrightarrow> distinct (map m_ack ms)"
    and kept_ack: "inv s \<Longrightarrow> holds t s m \<Longrightarrow> kept t s = add_mset (JsonBody (m_body m)) (kept t (so_ack ops m s))"
    and kept_nack: "inv s \<Longrightarrow> holds t s m \<Longrightarrow> kept t (so_nack ops c m x s) = kept t s"
    and kept_to_dlq: "inv s \<Longrightarrow> holds t s m \<Longrightarrow> kept t (so_to_dlq ops c m reason s) = kept t s"
    and holds_ack: "inv s \<Longrightarrow> holds t s m' \<Longrightarrow> m_ack m' \<noteq> m_ack m \<Longrightarrow> holds t (so_ack ops m s) m'"
    and holds_nack: "inv s \<Longrightarrow> holds t s m' \<Longrightarrow> holds t s m \<Longrightarrow> m_ack m' \<noteq> m_ack m \<Longrightarrow>
      holds t (so_nack ops c m x s) m'"
    and holds_to_dlq: "inv s \<Longrightarrow> holds t s m' \<Longrightarrow> m_ack m' \<noteq> m_ack m \<Longrightarrow>
      holds t (so_to_dlq ops c m reason s) m'"
begin

text \<open>A client disposes of a delivered message in one of three ways; each keeps the rest of the
  batch on lease, and only an acknowledgement removes the message.\<close>

definition disposal :: "qmsg \<Rightarrow> ('s \<Rightarrow> 's) \<Rightarrow> bool" where
  "disposal m f \<longleftrightarrow> f = so_ack ops m \<or> (\<exists>c x. f = so_nack ops c m x) \<or> (\<exists>c reason. f = so_to_dlq ops c m reason)"

lemma inv_disposal: "inv s \<Longrightarrow> disposal m f \<Longrightarrow> inv (f s)"
  by (auto simp: disposal_def inv_ack inv_nack inv_to_dlq)

lemma kept_disposal: "inv s \<Longrightarrow> holds t s m \<Longrightarrow> disposal m f \<Longrightarrow>
    kept t (f s) = kept t s \<or> add_mset (JsonBody (m_body m)) (kept t (f s)) = kept t s"
  by (auto simp: disposal_def kept_ack kept_nack kept_to_dlq)

lemma holds_disposal: "inv s \<Longrightarrow> holds t s m \<Longrightarrow> holds t s m' \<Longrightarrow> m_ack m' \<noteq> m_ack m \<Longrightarrow> disposal m f \<Longrightarrow>
    holds t (f s) m'"
  by (auto simp: disposal_def holds_ack holds_nack holds_to_dlq)

end

definition on_lease :: "string \<Rightarrow> backend \<times> qdb \<Rightarrow> qmsg \<Rightarrow> bool" where
  "on_lease t s m \<longleftrightarrow> held t (snd s) m \<and> m_topic m = t"

interpretation local_store: message_store local_ops "\<lambda>s. qdb_wf (snd s)" "\<lambda>t s. retained t (snd s)" on_lease
proof unfold_locales
  fix s :: "backend \<times> qdb" and c t n s' ms m
  assume "qdb_wf (snd s)" "so_pull local_ops c t n s = (s', Inr ms)"
  then have p: "qdb_wf (snd s)" "pull c t n s = (s', Inr ms)" by (simp_all add: local_ops_def)
  show "distinct (map m_ack ms)" using pull_delivered [OF p] by simp
  assume "m \<in> set ms"
  then show "on_lease t s' m" using pull_delivered [OF p] by (simp add: on_lease_def)
qed (auto simp: local_ops_def on_lease_def qdb_wf_intros retained_publish retained_pull retained_ack
    retained_nack retained_to_dlq held_ack held_nack held_to_dlq)


end
