(* ===== verification/Queue_Net.thy ===== *)
theory Queue_Net
  imports Queue_Laws
begin

text \<open>
  The queue as several processes see it: a step relation over the backend objects that share one
  table, its invariants by rule induction, and the properties of delivery, leases, redelivery and
  dead-lettering that the comments of \<open>common/queue_backend.py\<close> claim.
\<close>

section \<open>Several consumers on one table\<close>

text \<open>
  The processes that share the queue file: \<open>bs i\<close> is the backend object of process \<open>i\<close>. Any of
  them may take the next step, a process may be restarted (a new object, a new owner), and the
  arguments of a step are arbitrary: stale messages included.
\<close>

type_synonym qnet = "(nat \<Rightarrow> backend) \<times> qdb"

inductive qstep :: "int \<Rightarrow> qnet \<Rightarrow> qnet \<Rightarrow> bool" for mx :: int where
  q_publish: "qstep mx (bs, db) (bs, publish t v db)"
| q_pull: "pull c t n (bs i, db) = ((b', db'), out) \<Longrightarrow> qstep mx (bs, db) (bs(i := b'), db')"
| q_ack: "qstep mx (bs, db) (bs, ack m db)"
| q_nack: "qstep mx (bs, db) (bs, nack (bs i) c m x db)"
| q_to_dlq: "qstep mx (bs, db) (bs, to_dlq c m reason db)"
| q_restart: "qstep mx (bs, db) (bs(i := new_backend owner mx lease), db)"

inductive_cases qstepE: "qstep mx s s'"

definition qnet_wf :: "int \<Rightarrow> qnet \<Rightarrow> bool" where
  "qnet_wf mx s \<longleftrightarrow> qdb_wf (snd s) \<and> attempts_ok mx (snd s) \<and> (\<forall>i. qb_max (fst s i) = mx)"

lemma pull_backend: "pull c t n (b, db) = ((b', db'), out) \<Longrightarrow> qb_max b' = qb_max b"
  by (auto simp: pull_def reclaim_def Let_def split: prod.splits)

lemma qnet_wf_step:
  assumes "qstep mx s s'" "0 < mx" "qnet_wf mx s" shows "qnet_wf mx s'"
  using assms(1)
proof cases
  case (q_pull c t n bs i db b' db' out)
  have p: "fst (pull c t n (bs i, db)) = (b', db')" using q_pull(3) by simp
  have "qdb_wf db'" using assms(3) qdb_wf_pull [of "(bs i, db)" c t n] p q_pull(1) by (simp add: qnet_wf_def)
  moreover have "attempts_ok mx db'"
    using assms attempts_ok_pull [of "(bs i, db)" c t n] p q_pull(1) by (simp add: qnet_wf_def)
  ultimately show ?thesis
    using assms(3) q_pull(1,2) pull_backend [OF q_pull(3)] by (simp add: qnet_wf_def)
next
  case (q_nack bs db i c m x)
  have "attempts_ok mx (nack (bs i) c m x db)"
    using assms attempts_ok_nack [of "bs i" db c m x] q_nack by (simp add: qnet_wf_def)
  then show ?thesis using assms(3) q_nack by (simp add: qnet_wf_def qdb_wf_nack)
qed (use assms(2,3) in \<open>simp_all add: qnet_wf_def qdb_wf_publish qdb_wf_ack qdb_wf_to_dlq attempts_ok_publish
      attempts_ok_ack attempts_ok_to_dlq new_backend_def\<close>)

lemma qnet_wf_steps: "(qstep mx)\<^sup>*\<^sup>* s s' \<Longrightarrow> 0 < mx \<Longrightarrow> qnet_wf mx s \<Longrightarrow> qnet_wf mx s'"
  by (induction rule: rtranclp_induct) (auto intro: qnet_wf_step)

definition qnet_init :: "int \<Rightarrow> qnet" where
  "qnet_init mx = (\<lambda>i. new_backend (''p'' @ nat_str (int i)) mx (Fin 300), empty_qdb)"

lemma qnet_wf_init: "qnet_wf mx (qnet_init mx)"
proof -
  have "attempts_ok mx empty_qdb" by (simp add: attempts_ok_def empty_qdb_def)
  then show ?thesis by (simp add: qnet_wf_def qnet_init_def new_backend_def qdb_wf_empty)
qed

text \<open>A fenced acknowledgement id names no row and never will again.\<close>

definition fenced :: "nat \<Rightarrow> qdb \<Rightarrow> bool" where
  "fenced a db \<longleftrightarrow> a < qd_uuid db \<and> (\<forall>r \<in> set (qd_rows db). q_ack r \<noteq> Some a)"

lemma fenced_publish: "fenced a db \<Longrightarrow> fenced a (publish t v db)"
  by (simp add: fenced_def publish_def insert_row_def)

lemma fenced_update: "fenced a db \<Longrightarrow> (\<And>r. p r \<Longrightarrow> q_ack (f r) = q_ack r \<or> q_ack (f r) = None) \<Longrightarrow>
    fenced a (update_where p f db)"
  by (fastforce simp: fenced_def)

lemma fenced_to_dlq: "fenced a db \<Longrightarrow> fenced a (to_dlq c m reason db)"
  unfolding to_dlq_def by (intro fenced_update fenced_publish) auto

lemma fenced_release: "fenced a db \<Longrightarrow> fenced a (update_where p (release_row x) db)"
  by (rule fenced_update) (simp_all add: release_row_def)

lemma fenced_nack: "fenced a db \<Longrightarrow> fenced a (nack b c m x db)"
  by (auto simp: nack_def fenced_to_dlq fenced_release split: option.splits)

lemma fenced_reclaim_row: "fenced a db \<Longrightarrow> fenced a (reclaim_row b c t r db)"
  by (auto simp: reclaim_row_def dead_letter_row_def Let_def fenced_release intro!: fenced_publish fenced_update)

lemma fenced_claim: "fenced a db \<Longrightarrow> fenced a (claim b c r db)"
  by (auto simp: fenced_def claim_rows claim_row_def)

lemma fenced_uuid: "fenced a db \<Longrightarrow> fenced a (db\<lparr>qd_uuid := Suc (qd_uuid db)\<rparr>)"
  by (simp add: fenced_def)

lemma fenced_pull: assumes "fenced a (snd s)" shows "fenced a (snd (fst (pull c t n s)))"
proof -
  obtain b db k where r: "reclaim (fst s) c t (snd s) = (b, db, k)" by (cases "reclaim (fst s) c t (snd s)")
  have "fenced a (fold (reclaim_row (fst s) c t) rs d)" if "fenced a d" for rs d
    using that by (induction rs arbitrary: d) (simp_all add: fenced_reclaim_row)
  with assms r have "fenced a db" by (auto simp: reclaim_def Let_def)
  then show ?thesis
    unfolding snd_fst_pull [OF r] by (rule pull_rows_invariant) (simp_all add: fenced_claim fenced_uuid)
qed

lemma fenced_step: "qstep mx s s' \<Longrightarrow> fenced a (snd s) \<Longrightarrow> fenced a (snd s')"
proof (erule qstepE)
  fix c t n bs i db b' db' out
  assume "s = (bs, db)" "s' = (bs(i := b'), db')" "pull c t n (bs i, db) = ((b', db'), out)" "fenced a (snd s)"
  then show "fenced a (snd s')" using fenced_pull [of a "(bs i, db)" c t n] by simp
qed (auto simp: fenced_publish fenced_nack fenced_to_dlq ack_def intro!: fenced_update)

lemma fenced_steps: "(qstep mx)\<^sup>*\<^sup>* s s' \<Longrightarrow> fenced a (snd s) \<Longrightarrow> fenced a (snd s')"
  by (induction rule: rtranclp_induct) (auto intro: fenced_step)

lemma fenced_noop: "fenced (m_ack m) db \<Longrightarrow> ack m db = db \<and> nack b c m x db = db"
proof -
  assume f: "fenced (m_ack m) db"
  then have "find (\<lambda>r. q_ack r = Some (m_ack m)) (qd_rows db) = None" by (simp add: fenced_def find_None_iff)
  moreover have "map (\<lambda>r. if q_ack r = Some (m_ack m) then r\<lparr>q_state := Done\<rparr> else r) (qd_rows db) = qd_rows db"
    using f by (intro map_cong_id) (simp add: fenced_def)
  ultimately show ?thesis by (simp add: ack_def nack_def update_where_def)
qed


section \<open>Handles whose lease was taken away\<close>

lemma reclaim_fences:
  assumes "qdb_wf db" "x \<in> set (qd_rows db)" "q_ack x = Some a" "is_orphan b c t x" "q_attempts x < qb_max b"
    and r: "reclaim b c t db = (b', db', k)"
  shows "fenced a db'"
proof -
  have a: "a < qd_uuid db'"
    using assms(1-3) reclaim_uuid [OF r] by (auto simp: qdb_wf_def row_wf_def)
  from reclaim_rows_spec [OF assms(1) r] obtain new where
    rows: "qd_rows db' = map (reclaimed b c t) (qd_rows db) @ new" and n: "map row_entry new = filed b c t (qd_rows db)" by blast
  have "q_ack y \<noteq> Some a" if "y \<in> set (qd_rows db)" "y \<noteq> x" for y
    using that assms(1-3) unfolding qdb_wf_def acks_unique_def by (metis assms(1) qdb_wf_seq_inj)
  then have old: "q_ack (reclaimed b c t y) \<noteq> Some a" if "y \<in> set (qd_rows db)" for y
    using that assms(3-5) by (cases "y = x") (auto simp: reclaimed_def release_row_def)
  have "q_ack y \<noteq> Some a" if y: "y \<in> set new" for y
  proof -
    from y have "row_entry y \<in> set (filed b c t (qd_rows db))" unfolding n [symmetric] by simp
    then have "q_state y = Ready" by (auto simp: filed_def)
    moreover have "row_wf db' y" using qdb_wf_reclaim [OF assms(1) r] y rows by (auto simp: qdb_wf_def)
    ultimately show ?thesis by (auto simp: row_wf_def)
  qed
  with a old rows show ?thesis by (auto simp: fenced_def)
qed

lemma pull_fences:
  assumes "qdb_wf db" "x \<in> set (qd_rows db)" "q_ack x = Some a" "is_orphan b c t x" "q_attempts x < qb_max b"
  shows "fenced a (snd (fst (pull c t n (b, db))))"
proof -
  obtain b' d k where r: "reclaim b c t db = (b', d, k)" by (cases "reclaim b c t db")
  then have r': "reclaim (fst (b, db)) c t (snd (b, db)) = (b', d, k)" by simp
  have "fenced a d" using reclaim_fences [OF assms r] .
  then show ?thesis
    unfolding snd_fst_pull [OF r'] by (rule pull_rows_invariant) (simp_all add: fenced_claim fenced_uuid)
qed

section \<open>Texts that are not JSON\<close>

lemma pull_rows_error:
  assumes "set rs \<subseteq> set (qd_rows db)" "\<forall>r \<in> set rs. q_state r = Ready" "distinct (map q_seq rs)"
  shows "(snd (pull_rows b c t rs db) = Inl ValueError) = (\<exists>r \<in> set rs. \<exists>s. q_body r = RawBody s)"
  using assms
proof (induction rs arbitrary: db)
  case (Cons r rs)
  have ex: "row_exists (\<lambda>r'. q_seq r' = q_seq r \<and> q_state r' = Ready) db"
    using Cons.prems by (auto simp: row_exists_def list_ex_iff)
  have "set rs \<subseteq> set (qd_rows (claim b c r db))"
  proof
    fix x assume x: "x \<in> set rs"
    then have "q_seq x \<noteq> q_seq r" using Cons.prems(3) by (metis distinct.simps(2) image_eqI list.set_map list.simps(9))
    with x Cons.prems(1) show "x \<in> set (qd_rows (claim b c r db))" by (auto intro!: claim_other)
  qed
  from Cons.IH [OF this] Cons.prems ex show ?case
    by (cases "q_body r"; cases "pull_rows b c t rs (claim b c r db)"; cases "snd (pull_rows b c t rs (claim b c r db))")
       (auto simp: pull_rows_Cons)
qed simp

section \<open>Properties\<close>


definition wit_clock :: "int \<Rightarrow> qclock" where
  "wit_clock k = \<lparr>db_now = Fin (of_int k), py_now = Fin (of_int k), iso_now = ''2026-07-01T00:00:00+00:00''\<rparr>"

definition wit_db :: qdb where
  "wit_db = publish ''orders'' (VInt 2) (publish ''orders'' (VInt 1) empty_qdb)"

lemma wit_pull: "pull (wit_clock 10) ''orders'' 1 (new_backend ''p0'' 3 (Fin 300), wit_db) =
   ((\<lparr>qb_owner = ''p0'', qb_max = 3, qb_lease = Fin 300, qb_recovered = {''orders''}\<rparr>,
     \<lparr>qd_rows = [\<lparr>q_seq = 1, q_topic = ''orders'', q_body = JsonBody (VInt 1), q_state = Inflight, q_attempts = 1,
         q_available = Fin 0, q_ack = Some 0, q_leased = Fin 310, q_owner = Some ''p0''\<rparr>,
        \<lparr>q_seq = 2, q_topic = ''orders'', q_body = JsonBody (VInt 2), q_state = Ready, q_attempts = 0,
         q_available = Fin 0, q_ack = None, q_leased = Fin 0, q_owner = None\<rparr>], qd_next = 3, qd_uuid = 1\<rparr>),
    Inr [\<lparr>m_ack = 0, m_topic = ''orders'', m_body = VInt 1, m_attempts = 1\<rparr>])"
  by (simp add: pull_def reclaim_def wit_db_def publish_def insert_row_def empty_qdb_def new_backend_def
      wit_clock_def is_orphan_def is_available_def pull_rows_Cons row_exists_def claim_def claim_row_def
      update_where_def b64_small)


lemma wit_reach: "(qstep 3)\<^sup>*\<^sup>* (qnet_init 3) (\<lambda>i. new_backend (''p'' @ nat_str (int i)) 3 (Fin 300), wit_db)"
proof -
  let ?bs = "\<lambda>i. new_backend (''p'' @ nat_str (int i)) 3 (Fin 300)"
  have "qstep 3 (?bs, empty_qdb) (?bs, publish ''orders'' (VInt 1) empty_qdb)"
    "qstep 3 (?bs, publish ''orders'' (VInt 1) empty_qdb) (?bs, wit_db)"
    unfolding wit_db_def by (rule q_publish)+
  then show ?thesis unfolding qnet_init_def by (meson converse_rtranclp_into_rtranclp r_into_rtranclp)
qed


text \<open>C26: A pull delivers exactly the first \<open>n\<close> messages of the subscription in the order they
  were published, each once, with its attempt counter raised: the ready ones whose backoff has
  passed together with those whose lease the pull itself has just taken back.\<close>

theorem pull_delivers_exactly:
  assumes "qdb_wf (snd s)" "all_json t (snd s)"
  shows "\<exists>ms. snd (pull c t n s) = Inr ms \<and>
    map (\<lambda>m. (m_topic m, m_body m, m_attempts m)) ms =
    map (\<lambda>r. (t, body_value (q_body r), q_attempts r + 1)) (take n (deliverable (fst s) c t (snd s)))"
  unfolding pull_exact [OF assms] Let_def
  by (rule exI, rule conjI, rule refl) (rule map2_deliver_bodies)

lemma wit_wf: "qdb_wf wit_db"
  by (simp add: wit_db_def qdb_wf_intros)

theorem pull_delivers_exactly_witness:
  "\<exists>ms. snd (pull (wit_clock 10) ''orders'' 1 (new_backend ''p0'' 3 (Fin 300), wit_db)) = Inr ms \<and>
    map (\<lambda>m. (m_topic m, m_body m, m_attempts m)) ms = [(''orders'', VInt 1, 1)]"
proof -
  have "all_json ''orders'' wit_db"
    by (simp add: all_json_def wit_db_def publish_def insert_row_def empty_qdb_def)
  moreover have "deliverable (new_backend ''p0'' 3 (Fin 300)) (wit_clock 10) ''orders'' wit_db = qd_rows wit_db"
    by (simp add: deliverable_def wit_db_def publish_def insert_row_def empty_qdb_def is_available_def
        wit_clock_def reclaimed_def is_orphan_def)
  ultimately show ?thesis
    using pull_delivers_exactly [of "(new_backend ''p0'' 3 (Fin 300), wit_db)" "''orders''" "wit_clock 10" 1] wit_wf
    by (simp add: wit_db_def publish_def insert_row_def empty_qdb_def body_value_def)
qed

definition wit_held :: qdb where
  "wit_held = snd (fst (pull (wit_clock 10) ''orders'' 1 (new_backend ''p0'' 3 (Fin 300), wit_db)))"

definition wit_row :: qrow where
  "wit_row = \<lparr>q_seq = 1, q_topic = ''orders'', q_body = JsonBody (VInt 1), q_state = Inflight, q_attempts = 1,
     q_available = Fin 0, q_ack = Some 0, q_leased = Fin 310, q_owner = Some ''p0''\<rparr>"

lemma wit_held_rows: "qd_rows wit_held = [wit_row,
    \<lparr>q_seq = 2, q_topic = ''orders'', q_body = JsonBody (VInt 2), q_state = Ready, q_attempts = 0,
         q_available = Fin 0, q_ack = None, q_leased = Fin 0, q_owner = None\<rparr>]"
  unfolding wit_held_def wit_pull by (simp add: wit_row_def)

lemma wit_held: "qdb_wf wit_held" "wit_row \<in> set (qd_rows wit_held)"
  subgoal unfolding wit_held_def by (rule qdb_wf_pull) (simp add: wit_wf)
  subgoal by (simp add: wit_held_rows)
  done

text \<open>C27: The reaper implements its specification in one step: every orphaned lease of the
  subscription becomes ready again with its counter kept, or, when the counter has reached
  \<open>max_attempts\<close>, dead, with one dead-letter wrapper filed per dead row in order; every other row
  is untouched and none is lost.\<close>

theorem reaper_refines_spec:
  assumes "qdb_wf db" "reclaim b c t db = (b', db', k)"
  shows "\<exists>new. qd_rows db' = map (reclaimed b c t) (qd_rows db) @ new
    \<and> map row_entry new = filed b c t (qd_rows db)"
  by (rule reclaim_rows_spec [OF assms])

theorem reaper_refines_spec_witness:
  "\<exists>new. qd_rows (fst (snd (reclaim (new_backend ''p1'' 1 (Fin 300)) (wit_clock 400) ''orders'' wit_held))) =
     [wit_row\<lparr>q_state := Dead\<rparr>,
      \<lparr>q_seq = 2, q_topic = ''orders'', q_body = JsonBody (VInt 2), q_state = Ready, q_attempts = 0,
         q_available = Fin 0, q_ack = None, q_leased = Fin 0, q_owner = None\<rparr>] @ new
     \<and> map row_entry new = [(''orders.dlq'', JsonBody (dlq_wrapper (VInt 1) ''lease expired; max_attempts 1 exceeded''
         ''2026-07-01T00:00:00+00:00'' 1), Ready, 0)]"
proof -
  let ?b = "new_backend ''p1'' 1 (Fin 300)" and ?c = "wit_clock 400"
  obtain b' db' k where r: "reclaim ?b ?c ''orders'' wit_held = (b', db', k)"
    by (cases "reclaim ?b ?c ''orders'' wit_held")
  have "filed ?b ?c ''orders'' (qd_rows wit_held) = [(''orders.dlq'', JsonBody (dlq_wrapper (VInt 1)
      ''lease expired; max_attempts 1 exceeded'' ''2026-07-01T00:00:00+00:00'' 1), Ready, 0)]"
    by (simp add: wit_held_rows wit_row_def filed_def is_orphan_def new_backend_def wit_clock_def dlq_topic_def
        body_value_def int_str_def nat_str.simps)
  with reaper_refines_spec [OF wit_held(1) r] show ?thesis
    by (simp add: r wit_held_rows reclaimed_def is_orphan_def)
       (simp add: wit_row_def new_backend_def wit_clock_def)
qed

text \<open>C28: A message on an unexpired lease is not delivered a second time: after any pull of the
  subscription by a consumer that has pulled it before, the row is exactly as its holder left it,
  so the holder's acknowledgement still takes effect.\<close>

theorem lease_is_exclusive:
  assumes "qdb_wf db" "x \<in> set (qd_rows db)" "q_state x = Inflight"
    and "t \<in> qb_recovered b" "fl_less (db_now c) (q_leased x)"
  shows "x \<in> set (qd_rows (snd (fst (pull c t n (b, db)))))"
proof -
  have "\<not> fl_le (q_leased x) (db_now c)" using assms(5) by (metis fl_le_less_trans fl_less_irrefl)
  with assms(4) have "\<not> is_orphan b c t x" by (simp add: is_orphan_def)
  then show ?thesis using pull_keeps_lease [of "(b, db)" x c t n] assms by simp
qed


theorem lease_is_exclusive_witness:
  "wit_row \<in> set (qd_rows (snd (fst (pull (wit_clock 309) ''orders'' 5
     (\<lparr>qb_owner = ''p1'', qb_max = 3, qb_lease = Fin 300, qb_recovered = {''orders''}\<rparr>, wit_held)))))"
  by (rule lease_is_exclusive) (simp_all add: wit_held, simp_all add: wit_row_def wit_clock_def)

text \<open>A consumer that outlives its lease cannot disturb the message afterwards. Once another
  consumer's pull has taken an expired lease back for redelivery, an acknowledgement or a nack
  through the old handle changes nothing, now and after any further steps of any process.\<close>

theorem late_handle_is_harmless:
  assumes "qdb_wf db" "x \<in> set (qd_rows db)" "q_ack x = Some (m_ack m)" "q_topic x = t" "q_state x = Inflight"
    and "fl_le (q_leased x) (db_now c)" "q_attempts x < qb_max (bs i)"
    and "pull c t n (bs i, db) = ((b', db'), out)" "(qstep mx)\<^sup>*\<^sup>* (bs(i := b'), db') (bs'', db'')"
  shows "ack m db'' = db'' \<and> nack b2 c2 m y db'' = db''"
proof -
  have "is_orphan (bs i) c t x" using assms by (simp add: is_orphan_def)
  from pull_fences [OF assms(1-3) this assms(7), of n] have "fenced (m_ack m) db'"
    using assms(8) by simp
  with fenced_steps [OF assms(9)] have "fenced (m_ack m) db''" by simp
  then show ?thesis by (rule fenced_noop)
qed

definition wit_msg :: qmsg where
  "wit_msg = \<lparr>m_ack = 0, m_topic = ''orders'', m_body = VInt 1, m_attempts = 1\<rparr>"

theorem late_handle_is_harmless_witness:
  "let s = fst (pull (wit_clock 400) ''orders'' 1 (new_backend ''p1'' 3 (Fin 300), wit_held))
   in ack wit_msg (snd s) = snd s \<and> nack (fst s) (wit_clock 401) wit_msg (Fin 5) (snd s) = snd s"
proof -
  let ?b = "new_backend ''p1'' 3 (Fin 300)"
  obtain b' db' out where p: "pull (wit_clock 400) ''orders'' 1 (?b, wit_held) = ((b', db'), out)"
    by (cases "pull (wit_clock 400) ''orders'' 1 (?b, wit_held)") auto
  have "(qstep 3)\<^sup>*\<^sup>* ((\<lambda>_. ?b)(0 := b'), db') ((\<lambda>_. ?b)(0 := b'), db')" by simp
  note late_handle_is_harmless [OF wit_held, where m = wit_msg and bs = "\<lambda>_. ?b" and i = 0 and t = "''orders''"
      and c = "wit_clock 400", OF _ _ _ _ _ p this]
  then show ?thesis
    unfolding p Let_def fst_conv snd_conv by (simp add: wit_row_def wit_msg_def wit_clock_def new_backend_def)
qed

text \<open>The exception to the rule above, and to the comment on \<open>ack\<close>: when the reaper files the
  expired message as dead it keeps the acknowledgement id, so the late acknowledgement rewrites the
  dead row as done, and the late nack files a second dead-letter wrapper.\<close>

theorem late_handle_of_dead_row:
  "let s = fst (pull (wit_clock 400) ''orders'' 1 (new_backend ''p1'' 1 (Fin 300), wit_held)) in
     depth ''orders'' Dead (snd s) = 1 \<and> depth ''orders.dlq'' Ready (snd s) = 1
     \<and> depth ''orders'' Dead (ack wit_msg (snd s)) = 0 \<and> depth ''orders'' Done (ack wit_msg (snd s)) = 1
     \<and> depth ''orders.dlq'' Ready (nack (fst s) (wit_clock 401) wit_msg (Fin 5) (snd s)) = 2"
  unfolding wit_held_def wit_pull
  by code_simp

text \<open>A stored text that is not JSON makes the pull that reaches it raise \<open>ValueError\<close>, and
  nothing else does.\<close>

theorem pull_raises_iff_not_json:
  assumes "qdb_wf (snd s)"
  shows "(snd (pull c t n s) = Inl ValueError) =
    (\<exists>r \<in> set (take n (deliverable (fst s) c t (snd s))). \<exists>txt. q_body r = RawBody txt)"
proof -
  obtain b db k where r: "reclaim (fst s) c t (snd s) = (b, db, k)" by (cases "reclaim (fst s) c t (snd s)")
  have av: "filter (is_available c t) (qd_rows db) = deliverable (fst s) c t (snd s)"
    using assms r by (rule available_reclaimed)
  have "set (take n (filter (is_available c t) (qd_rows db))) \<subseteq> set (filter (is_available c t) (qd_rows db))"
    by (rule set_take_subset)
  moreover have "distinct (map q_seq (take n (filter (is_available c t) (qd_rows db))))"
    using qdb_wf_distinct [OF qdb_wf_reclaim [OF assms r]] by (simp add: take_map [symmetric] distinct_map_filter)
  ultimately have "(snd (pull_rows b c t (take n (filter (is_available c t) (qd_rows db))) db) = Inl ValueError) =
      (\<exists>r \<in> set (take n (filter (is_available c t) (qd_rows db))). \<exists>txt. q_body r = RawBody txt)"
    by (intro pull_rows_error) (auto simp: is_available_def)
  then show ?thesis unfolding av using r
    by (cases "pull_rows b c t (take n (deliverable (fst s) c t (snd s))) db") (simp add: pull_def av)
qed

theorem pull_raises_iff_not_json_witness:
  "snd (pull (wit_clock 10) ''t'' 5 (new_backend ''p0'' 3 (Fin 300), insert_row ''t'' (RawBody ''{'') empty_qdb)) = Inl ValueError"
proof -
  have "qdb_wf (insert_row ''t'' (RawBody ''{'') empty_qdb)" by (intro qdb_wf_insert qdb_wf_empty)
  then show ?thesis
    using pull_raises_iff_not_json [of "(new_backend ''p0'' 3 (Fin 300), insert_row ''t'' (RawBody ''{'') empty_qdb)"
        "wit_clock 10" "''t''" 5]
    by (simp add: deliverable_def insert_row_def empty_qdb_def is_available_def wit_clock_def reclaimed_def is_orphan_def)
qed

end
