(* ===== verification/Secrets_Config.thy ===== *)
theory Secrets_Config
  imports Py_Value
begin

text \<open>
  \<open>common/secrets.py\<close>: the dotenv parser and the merged view over the env file and the process
  environment. The two sources are association lists read at construction; the text of the env
  file is an argument (\<open>None\<close> when it does not exist).
\<close>

section \<open>The env file\<close>

definition is_line_end :: "char \<Rightarrow> bool" where
  "is_line_end c \<longleftrightarrow> chr_code c \<in> {10, 11, 12, 13, 28, 29, 30}"

text \<open>\<open>str.splitlines\<close> of a text whose line ends were normalised by the text-mode read.\<close>

function splitlines :: "string \<Rightarrow> string list" where
  "splitlines s = (if s = [] then []
     else takeWhile (\<lambda>c. \<not> is_line_end c) s # splitlines (drop 1 (dropWhile (\<lambda>c. \<not> is_line_end c) s)))"
  by pat_completeness auto
termination
proof (relation "measure length")
  fix s :: string
  assume "s \<noteq> []"
  moreover have "length (dropWhile (\<lambda>c. \<not> is_line_end c) s) \<le> length s" by (rule length_dropWhile_le)
  ultimately show "(drop 1 (dropWhile (\<lambda>c. \<not> is_line_end c) s), s) \<in> measure length" by (cases s) auto
qed simp

declare splitlines.simps [simp del]

text \<open>\<open>s.strip(c)\<close> for one character.\<close>

definition strip_char :: "char \<Rightarrow> string \<Rightarrow> string" where
  "strip_char c s = rev (dropWhile ((=) c) (rev (dropWhile ((=) c) s)))"

definition partition_eq :: "string \<Rightarrow> string \<times> string" where
  "partition_eq s = (takeWhile (\<lambda>c. c \<noteq> CHR ''='') s, drop 1 (dropWhile (\<lambda>c. c \<noteq> CHR ''='') s))"

definition env_line :: "string \<Rightarrow> (string \<times> string) option" where
  "env_line raw = (let l = strip raw in
     if l = [] \<or> startswith l ''#'' \<or> CHR ''='' \<notin> set l then None
     else let (k, v) = partition_eq l; key = strip k;
              val = strip_char (char_of (39::nat)) (strip_char (char_of (34::nat)) (strip v))
          in if key = [] then None else Some (key, val))"

definition parse_env_file :: "string option \<Rightarrow> (string \<times> string) list" where
  "parse_env_file txt = (case txt of None \<Rightarrow> []
     | Some t \<Rightarrow> fold (\<lambda>l m. case env_line l of None \<Rightarrow> m | Some (k, v) \<Rightarrow> AList.update k v m) (splitlines t) [])"

section \<open>The merged view\<close>

record secrets =
  sec_environ :: "(string \<times> string) list"
  sec_file :: "(string \<times> string) list"

definition sec_get :: "secrets \<Rightarrow> string \<Rightarrow> string option" where
  "sec_get s n = (case map_of (sec_environ s) n of Some v \<Rightarrow> Some v | None \<Rightarrow> map_of (sec_file s) n)"

text \<open>\<open>get(name, default)\<close> and the idiom \<open>get(name, d) or d\<close>.\<close>

definition sec_get_or :: "secrets \<Rightarrow> string \<Rightarrow> string \<Rightarrow> string" where
  "sec_get_or s n d = (case sec_get s n of Some v \<Rightarrow> v | None \<Rightarrow> d)"

definition sec_get_nonempty :: "secrets \<Rightarrow> string \<Rightarrow> string \<Rightarrow> string" where
  "sec_get_nonempty s n d = (let v = sec_get_or s n d in if v = [] then d else v)"

definition sec_require :: "secrets \<Rightarrow> string \<Rightarrow> string res" where
  "sec_require s n = (case sec_get s n of None \<Rightarrow> Inl MissingSecretError
     | Some v \<Rightarrow> if v = [] then Inl MissingSecretError else Inr v)"

definition sec_require_many :: "secrets \<Rightarrow> string list \<Rightarrow> (string \<times> string) list res" where
  "sec_require_many s ns =
     (let missing = filter (\<lambda>n. sec_get s n = None \<or> sec_get s n = Some []) ns;
          out = fold (\<lambda>n m. case sec_get s n of Some v \<Rightarrow> if v = [] then m else AList.update n v m | None \<Rightarrow> m) ns []
      in if missing \<noteq> [] then Inl MissingSecretError else Inr out)"

definition sec_bool :: "secrets \<Rightarrow> string \<Rightarrow> bool \<Rightarrow> bool" where
  "sec_bool s n d = (case sec_get s n of None \<Rightarrow> d
     | Some v \<Rightarrow> lower (strip v) \<in> {''1'', ''true'', ''yes'', ''on''})"

definition sec_int :: "secrets \<Rightarrow> string \<Rightarrow> int \<Rightarrow> int" where
  "sec_int s n d = (case sec_get s n of None \<Rightarrow> d
     | Some v \<Rightarrow> if v = [] then d else (case int_of_str v of Inl e \<Rightarrow> d | Inr i \<Rightarrow> i))"

section \<open>Laws\<close>

lemma sec_get_environ: "map_of (sec_environ s) n = Some v \<Longrightarrow> sec_get s n = Some v"
  by (simp add: sec_get_def)

lemma sec_require_Inr: "sec_require s n = Inr v \<longleftrightarrow> sec_get s n = Some v \<and> v \<noteq> []"
  by (auto simp: sec_require_def split: option.splits)

lemma sec_require_Inl: "sec_require s n = Inl MissingSecretError \<longleftrightarrow> sec_get s n = None \<or> sec_get s n = Some []"
  by (auto simp: sec_require_def split: option.splits)

lemma sec_require_many_error: "sec_require_many s ns = Inl e \<longleftrightarrow>
    e = MissingSecretError \<and> (\<exists>n \<in> set ns. sec_require s n = Inl MissingSecretError)"
proof -
  have "(\<exists>n \<in> set ns. sec_require s n = Inl MissingSecretError)
      = (filter (\<lambda>n. sec_get s n = None \<or> sec_get s n = Some []) ns \<noteq> [])"
    unfolding sec_require_Inl by (auto simp: filter_empty_conv)
  then show ?thesis by (auto simp: sec_require_many_def Let_def)
qed

lemma sec_require_many_fold:
  "\<forall>n \<in> set ns. \<exists>v. sec_get s n = Some v \<and> v \<noteq> [] \<Longrightarrow>
   map_of (fold (\<lambda>n m. case sec_get s n of Some v \<Rightarrow> if v = [] then m else AList.update n v m | None \<Rightarrow> m) ns m)
     = (\<lambda>k. if k \<in> set ns then sec_get s k else map_of m k)"
  by (induction ns arbitrary: m) (auto split: option.splits)

lemma sec_require_many_values:
  assumes "sec_require_many s ns = Inr out" "n \<in> set ns"
  shows "map_of out n = sec_get s n \<and> (\<exists>v. sec_get s n = Some v \<and> v \<noteq> [])"
proof -
  have ok: "\<forall>n \<in> set ns. \<exists>v. sec_get s n = Some v \<and> v \<noteq> []"
    using assms(1) by (auto simp: sec_require_many_def Let_def filter_empty_conv split: if_splits)
  with assms show ?thesis
    using sec_require_many_fold [OF ok, of "[]"] by (auto simp: sec_require_many_def Let_def split: if_splits)
qed

end
