(* ===== verification/Py_Time.thy ===== *)
theory Py_Time
  imports Py_Value
begin

text \<open>
  Instants are whole microseconds since 1970-01-01T00:00Z, Python's own resolution of an aware
  \<open>datetime\<close>. This theory holds the trading calendar arithmetic (weekday and hour of an instant),
  \<open>timedelta.total_seconds\<close>, and \<open>datetime.fromisoformat(s).astimezone(utc)\<close> with the ISO 8601
  forms the parser of Python 3.11 and later accepts. A timestamp with no offset is read in the
  host's zone, which the deployment image sets to UTC.
\<close>

type_synonym instant = int

section \<open>Calendar\<close>

definition us_per_sec :: int where "us_per_sec = 1000000"
definition us_per_hour :: int where "us_per_hour = 3600000000"
definition us_per_day :: int where "us_per_day = 86400000000"

text \<open>\<open>weekday()\<close> (Monday is 0) and \<open>hour\<close>; the epoch was a Thursday.\<close>

definition weekday :: "instant \<Rightarrow> int" where
  "weekday t = (t div us_per_day + 3) mod 7"

definition hour_of :: "instant \<Rightarrow> int" where
  "hour_of t = t mod us_per_day div us_per_hour"

definition total_seconds :: "int \<Rightarrow> pyfloat" where
  "total_seconds us = b64 (of_int us / 1000000)"

definition is_leap :: "int \<Rightarrow> bool" where
  "is_leap y \<longleftrightarrow> y mod 4 = 0 \<and> (y mod 100 \<noteq> 0 \<or> y mod 400 = 0)"

definition days_in_month :: "int \<Rightarrow> int \<Rightarrow> int" where
  "days_in_month y m = (if m = 2 then if is_leap y then 29 else 28
     else if m = 4 \<or> m = 6 \<or> m = 9 \<or> m = 11 then 30 else 31)"

definition days_before_year :: "int \<Rightarrow> int" where
  "days_before_year y = (let p = y - 1 in p * 365 + p div 4 - p div 100 + p div 400)"

definition days_before_month :: "int \<Rightarrow> int \<Rightarrow> int" where
  "days_before_month y m = sum_list (map (days_in_month y) [1 .. m - 1])"

definition ymd2ord :: "int \<Rightarrow> int \<Rightarrow> int \<Rightarrow> int" where
  "ymd2ord y m d = days_before_year y + days_before_month y m + d"

text \<open>The ordinal of 1970-01-01, and the last ordinal of year 9999.\<close>

definition epoch_ord :: int where "epoch_ord = 719163"
definition max_ord :: int where "max_ord = 3652059"

section \<open>ISO 8601\<close>

text \<open>Dates: \<open>YYYY-MM-DD\<close>, \<open>YYYYMMDD\<close> and the week forms; the result is an ordinal.\<close>

definition ord_of_ymd :: "int \<Rightarrow> int \<Rightarrow> int \<Rightarrow> int option" where
  "ord_of_ymd y m d = (if 1 \<le> y \<and> y \<le> 9999 \<and> 1 \<le> m \<and> m \<le> 12 \<and> 1 \<le> d \<and> d \<le> days_in_month y m
     then Some (ymd2ord y m d) else None)"

definition isoweek1monday :: "int \<Rightarrow> int" where
  "isoweek1monday y = (let first = ymd2ord y 1 1; wd = (first + 6) mod 7; mon = first - wd
     in if 3 < wd then mon + 7 else mon)"

definition ord_of_week :: "int \<Rightarrow> int \<Rightarrow> int \<Rightarrow> int option" where
  "ord_of_week y w d = (let first = ymd2ord y 1 1 mod 7;
       long = w = 53 \<and> (first = 4 \<or> (first = 3 \<and> is_leap y))
     in if 1 \<le> y \<and> y \<le> 9999 \<and> (1 \<le> w \<and> w < 53 \<or> long) \<and> 1 \<le> d \<and> d \<le> 7
        then let n = isoweek1monday y + (w - 1) * 7 + (d - 1)
          in if 1 \<le> n \<and> n \<le> max_ord then Some n else None
        else None)"

definition iso_separator :: "string \<Rightarrow> nat option" where
  "iso_separator s = (let n = length s in
     if n < 7 then None else if n = 7 then Some 7
     else if s ! 4 = CHR ''-'' then
       if s ! 5 = CHR ''W'' then
         if 8 < n \<and> s ! 8 = CHR ''-'' then
           if n = 9 then None else if 10 < n \<and> is_digit (s ! 10) then Some 8 else Some 10
         else Some 8
       else Some 10
     else if s ! 4 = CHR ''W'' then
       let i = 7 + length (takeWhile is_digit (drop 7 s))
       in if i < 9 then Some i else if even i then Some 7 else Some 8
     else Some 8)"

definition iso_date :: "string \<Rightarrow> int option" where
  "iso_date s = (let sep = 4 < length s \<and> s ! 4 = CHR ''-''; r = drop (if sep then 5 else 4) s in
     case read_digits (take 4 s) of None \<Rightarrow> None | Some y \<Rightarrow>
     if length s \<noteq> 7 \<and> length s \<noteq> 8 \<and> length s \<noteq> 10 then None
     else if r \<noteq> [] \<and> hd r = CHR ''W'' then
       (case read_digits (take 2 (drop 1 r)) of None \<Rightarrow> None | Some w \<Rightarrow>
         let q = drop 3 r in
         if q = [] then ord_of_week y w 1
         else if (hd q = CHR ''-'') \<noteq> sep then None
         else (case read_digits (if sep then drop 1 q else q) of None \<Rightarrow> None
           | Some d \<Rightarrow> ord_of_week y w d))
     else
       (case read_digits (take 2 r) of None \<Rightarrow> None | Some m \<Rightarrow>
         let q = drop 2 r in
         if (q \<noteq> [] \<and> hd q = CHR ''-'') \<noteq> sep then None
         else (case read_digits (if sep then drop 1 q else q) of None \<Rightarrow> None
           | Some d \<Rightarrow> ord_of_ymd y m d)))"

text \<open>Times \<open>HH[:MM[:SS[.ffffff]]]\<close>, with or without colons; the result is microseconds.\<close>

definition iso_fraction :: "string \<Rightarrow> int option" where
  "iso_fraction s = (case s of [] \<Rightarrow> Some 0
     | c # r \<Rightarrow> if (c = CHR ''.'' \<or> c = CHR '','') \<and> list_all is_digit r
         then map_option (\<lambda>n. n * 10 ^ (6 - length (take 6 r))) (read_digits (take 6 r))
         else None)"

definition iso_hms :: "string \<Rightarrow> (int \<times> int \<times> int \<times> int) option" where
  "iso_hms s =
     (case (if length s < 2 then None else read_digits (take 2 s)) of None \<Rightarrow> None | Some h \<Rightarrow>
      let r0 = drop 2 s; sep = r0 \<noteq> [] \<and> hd r0 = CHR '':'' in
      if r0 = [] then Some (h, 0, 0, 0) else
      let r = (if sep then drop 1 r0 else r0) in
      case (if length r < 2 then None else read_digits (take 2 r)) of None \<Rightarrow> None | Some m \<Rightarrow>
      let r1 = drop 2 r in
      if r1 = [] then Some (h, m, 0, 0) else
      if sep \<and> hd r1 \<noteq> CHR '':'' then None else
      let r2 = (if sep then drop 1 r1 else r1) in
      case (if length r2 < 2 then None else read_digits (take 2 r2)) of None \<Rightarrow> None | Some sec \<Rightarrow>
      map_option (\<lambda>us. (h, m, sec, us)) (iso_fraction (drop 2 r2)))"

definition iso_us :: "int \<times> int \<times> int \<times> int \<Rightarrow> int" where
  "iso_us x = (case x of (h, m, s, us) \<Rightarrow> ((h * 60 + m) * 60 + s) * us_per_sec + us)"

text \<open>The offset sign is the first minus of the time part, else its first plus, else a \<open>Z\<close>.\<close>

definition iso_tz_pos :: "string \<Rightarrow> nat option" where
  "iso_tz_pos s = (case find_char (CHR ''-'') s of Some i \<Rightarrow> Some i
     | None \<Rightarrow> (case find_char (CHR ''+'') s of Some i \<Rightarrow> Some i | None \<Rightarrow> find_char (CHR ''Z'') s))"

text \<open>Time of day and UTC offset, both in microseconds.\<close>

definition iso_time :: "string \<Rightarrow> (int \<times> int) option" where
  "iso_time s = (if length s < 2 then None else
     let pos = iso_tz_pos s; body = (case pos of None \<Rightarrow> s | Some i \<Rightarrow> take i s) in
     case iso_hms body of None \<Rightarrow> None | Some (h, m, sec, us) \<Rightarrow>
     if 23 < h \<or> 59 < m \<or> 59 < sec then None else
     let t = iso_us (h, m, sec, us) in
     case pos of None \<Rightarrow> Some (t, 0) | Some i \<Rightarrow>
     if i + 1 = length s \<and> s ! i = CHR ''Z'' then Some (t, 0)
     else let z = drop (i + 1) s in
       if length z \<le> 1 \<or> length z = 3 then None else
       case iso_hms z of None \<Rightarrow> None | Some zc \<Rightarrow>
         if us_per_day \<le> iso_us zc then None
         else Some (t, if s ! i = CHR ''-'' then - iso_us zc else iso_us zc))"

definition fromisoformat_utc :: "string \<Rightarrow> instant res" where
  "fromisoformat_utc s =
     (case iso_separator s of None \<Rightarrow> Inl ValueError | Some n \<Rightarrow>
      case iso_date (take n s) of None \<Rightarrow> Inl ValueError | Some d \<Rightarrow>
      case (if drop (n + 1) s = [] then Some (0, 0) else iso_time (drop (n + 1) s)) of
        None \<Rightarrow> Inl ValueError
      | Some (t, off) \<Rightarrow>
          let us = (d - epoch_ord) * us_per_day + t - off in
          if (1 - epoch_ord) * us_per_day \<le> us \<and> us < (max_ord + 1 - epoch_ord) * us_per_day
          then Inr us else Inl OverflowError)"

text \<open>
  The idiom \<open>datetime.fromisoformat(str(v).replace("Z", "+00:00")).astimezone(utc)\<close> of the
  program's timestamp readers.
\<close>

definition parse_ts_str :: "string \<Rightarrow> instant res" where
  "parse_ts_str s = fromisoformat_utc (replace_Z s)"

section \<open>Laws\<close>

lemma weekday_range: "0 \<le> weekday t \<and> weekday t < 7"
  by (simp add: weekday_def)

lemma hour_range: "0 \<le> hour_of t \<and> hour_of t < 24"
proof -
  have "t mod us_per_day < us_per_day" "0 \<le> t mod us_per_day"
    by (simp_all add: us_per_day_def)
  then have "t mod us_per_day div us_per_hour \<le> (us_per_day - 1) div us_per_hour"
    by (intro zdiv_mono1) (auto simp: us_per_hour_def)
  moreover have "(us_per_day - 1) div us_per_hour = 23"
    by (simp add: us_per_day_def us_per_hour_def)
  moreover have "0 \<le> t mod us_per_day div us_per_hour"
    by (simp add: us_per_hour_def us_per_day_def pos_imp_zdiv_nonneg_iff)
  ultimately show ?thesis by (simp add: hour_of_def)
qed

lemma total_seconds_mono: "a \<le> b \<Longrightarrow> fl_le (total_seconds a) (total_seconds b)"
  by (simp add: total_seconds_def b64_mono divide_right_mono)

lemma total_seconds_whole: "\<bar>n\<bar> < 2 ^ 53 \<Longrightarrow> total_seconds (n * 1000000) = Fin (of_int n)"
  by (simp add: total_seconds_def b64_of_int)

lemma total_seconds_not_NaN [simp]: "total_seconds a \<noteq> NaN"
  by (simp add: total_seconds_def)

lemma fromisoformat_utc_errors:
  "fromisoformat_utc s = Inl e \<Longrightarrow> e = ValueError \<or> e = OverflowError"
  by (auto simp: fromisoformat_utc_def Let_def split: option.splits prod.splits if_splits)

end
