(* ===== verification/Pipeline.thy ===== *)
theory Pipeline
  imports Secrets_Config Py_Time
begin

text \<open>
  \<open>execution/pipeline.py\<close>: the approved order as parsed from a message, the deterministic
  construction of the broker order (reference price, stop and target), and the decision flow
  \<open>ExecutionPipeline.process\<close> with its idempotency marker. The hooks the code injects
  (validate, submit, persist, emit) are functions on a world \<open>'w\<close> that may raise; the processed
  store is a pair of operations on its own state \<open>'s\<close>. The reason texts of a rejection are not
  part of the model, except the one a validation hook returns.
\<close>

section \<open>Modes and decisions\<close>

definition SHADOW_DEFAULT :: bool where
  "SHADOW_DEFAULT = True"

definition resolve_shadow :: "secrets \<Rightarrow> bool \<Rightarrow> bool res" where
  "resolve_shadow sec require_explicit =
     (if require_explicit \<and> strip (sec_get_or sec ''EXEC_SHADOW'' []) = [] then Inl MissingSecretError
      else Inr (sec_bool sec ''EXEC_SHADOW'' SHADOW_DEFAULT))"

datatype exec_mode = LEGACY | EXECUTION_ONLY

definition exec_mode_of :: "string \<Rightarrow> exec_mode res" where
  "exec_mode_of s = (if s = ''legacy'' then Inr LEGACY else if s = ''execution_only'' then Inr EXECUTION_ONLY
     else Inl ValueError)"

datatype decision = EXECUTED | SHADOW | SKIPPED_DUPLICATE | REJECTED_BACKUP_GUARD
  | REJECTED_OUT_OF_SESSION | REJECTED_INVALID | REJECTED_VALIDATION | DEFERRED_LEGACY

fun decision_value :: "decision \<Rightarrow> string" where
  "decision_value EXECUTED = ''executed''"
| "decision_value SHADOW = ''shadow_constructed''"
| "decision_value SKIPPED_DUPLICATE = ''skipped_duplicate''"
| "decision_value REJECTED_BACKUP_GUARD = ''rejected_backup_guard''"
| "decision_value REJECTED_OUT_OF_SESSION = ''rejected_out_of_session''"
| "decision_value REJECTED_INVALID = ''rejected_invalid''"
| "decision_value REJECTED_VALIDATION = ''rejected_validation''"
| "decision_value DEFERRED_LEGACY = ''deferred_legacy''"

section \<open>Orders\<close>

record risk_context =
  rc_atr :: pyfloat
  rc_sl :: "pyfloat option"
  rc_tp :: "pyfloat option"

record approved_order =
  ao_key :: string
  ao_corr :: string
  ao_instrument :: string
  ao_side :: string
  ao_units :: pyfloat
  ao_gran :: string
  ao_rc :: risk_context
  ao_signal :: pyval
  ao_strategy :: pyval
  ao_decision_id :: pyval
  ao_created :: pyval
  ao_schema :: string
  ao_message :: pyval

record constructed_order =
  co_key :: string
  co_corr :: string
  co_instrument :: string
  co_side :: string
  co_units :: pyfloat
  co_entry :: pyfloat
  co_sl :: pyfloat
  co_tp :: pyfloat
  co_atr :: pyfloat
  co_rr :: pyfloat

definition optional_float :: "pyval \<Rightarrow> pyfloat option res" where
  "optional_float v = (if v = VNone then Inr None else emap Some (py_float v))"

definition risk_context_from :: "pyval \<Rightarrow> risk_context res" where
  "risk_context_from d =
     ebind (ebind (vindex d ''atr'') py_float) (\<lambda>atr.
     ebind (ebind (vget d ''suggested_sl'') optional_float) (\<lambda>sl.
     ebind (ebind (vget d ''suggested_tp'') optional_float) (\<lambda>tp.
       Inr \<lparr>rc_atr = atr, rc_sl = sl, rc_tp = tp\<rparr>)))"

definition approved_from :: "pydict \<Rightarrow> approved_order res" where
  "approved_from d =
     ebind (dindex d ''idempotency_key'') (\<lambda>key.
     ebind (dindex d ''correlation_id'') (\<lambda>corr.
     ebind (dindex d ''instrument'') (\<lambda>ins.
     ebind (dindex d ''side'') (\<lambda>side.
     ebind (ebind (dindex d ''units'') py_float) (\<lambda>units.
     ebind (dindex d ''granularity'') (\<lambda>gran.
     ebind (ebind (dindex d ''risk_context'') risk_context_from) (\<lambda>rc.
       Inr \<lparr>ao_key = py_str key, ao_corr = py_str corr, ao_instrument = py_str ins,
         ao_side = upper (py_str side), ao_units = units, ao_gran = py_str gran, ao_rc = rc,
         ao_signal = dget d ''signal_id'', ao_strategy = dget d ''strategy_id'',
         ao_decision_id = dget d ''ams_decision_id'', ao_created = dget d ''created_at'',
         ao_schema = py_str (dget_or d ''schema_version'' (VStr ''1'')), ao_message = dget d ''message_id''\<rparr>)))))))"

definition direction :: "approved_order \<Rightarrow> int" where
  "direction ord = (if ao_side ord = ''BUY'' then 1 else -1)"

section \<open>Construction\<close>

text \<open>\<open>require_market_price\<close>: an absent, unreadable, non-finite or non-positive price is refused.
  An \<open>OverflowError\<close> of \<open>float\<close> is not caught.\<close>

definition require_market_price :: "pyval \<Rightarrow> pyfloat res" where
  "require_market_price v =
     (if v = VNone then Inl NoMarketPriceError
      else case py_float v of
        Inl e \<Rightarrow> Inl (if isa_TypeOrValue e then NoMarketPriceError else e)
      | Inr p \<Rightarrow> if \<not> is_finite p then Inl NoMarketPriceError
          else if fl_le p (Fin 0) then Inl NoMarketPriceError else Inr p)"

definition positive_price :: "pyval \<Rightarrow> pyfloat res" where
  "positive_price v = (if v = VNone then Inl InvalidOrderError
     else ebind (py_float v) (\<lambda>x. if \<not> is_finite x \<or> fl_le x (Fin 0) then Inl InvalidOrderError else Inr x))"

definition assert_protective_prices :: "int \<Rightarrow> pyfloat \<Rightarrow> pyval \<Rightarrow> pyval \<Rightarrow> (pyfloat \<times> pyfloat) res" where
  "assert_protective_prices dir entry sl tp =
     ebind (positive_price sl) (\<lambda>s. ebind (positive_price tp) (\<lambda>t.
       if dir = 1
       then if fl_le entry s \<or> fl_le t entry then Inl InvalidOrderError else Inr (s, t)
       else if fl_le s entry \<or> fl_le entry t then Inl InvalidOrderError else Inr (s, t)))"

definition DEFAULT_RR_RATIO :: pyfloat where "DEFAULT_RR_RATIO = Fin 3"
definition DEFAULT_ATR_MULTIPLIER_SL :: pyfloat where "DEFAULT_ATR_MULTIPLIER_SL = Fin 1"
definition DEFAULT_ATR_MULTIPLIER_TP :: pyfloat where "DEFAULT_ATR_MULTIPLIER_TP = Fin 3"

definition atr_stops :: "int \<Rightarrow> pyfloat \<Rightarrow> pyfloat \<Rightarrow> pyfloat \<Rightarrow> pyfloat \<Rightarrow> (pyfloat \<times> pyfloat) res" where
  "atr_stops dir entry atr sl_mult tp_mult =
     (if fl_eq atr (Fin 0) \<or> fl_le atr (Fin 0) then Inl InvalidOrderError
      else let sd = fl_mul atr sl_mult; td = fl_mul atr tp_mult in
        if dir = 1
        then (let sl = fl_sub entry sd; tp = fl_add entry td in
          if fl_le entry sl \<or> fl_le tp entry then Inl InvalidOrderError else Inr (sl, tp))
        else (let sl = fl_add entry sd; tp = fl_sub entry td in
          if fl_le sl entry \<or> fl_le entry tp then Inl InvalidOrderError else Inr (sl, tp)))"

definition legacy_atr_risk_parameters :: "int \<Rightarrow> pyfloat \<Rightarrow> pyfloat \<Rightarrow> pyfloat \<Rightarrow> pyfloat \<Rightarrow> pyfloat \<times> pyfloat" where
  "legacy_atr_risk_parameters dir entry atr sl_mult tp_mult =
     (let sd = fl_mul atr sl_mult; td = fl_mul atr tp_mult in
      if dir = 1 then (fl_sub entry sd, fl_add entry td) else (fl_add entry sd, fl_sub entry td))"

definition is_in_session :: "instant \<Rightarrow> bool" where
  "is_in_session t = (let wd = weekday t in
     if wd = 5 then False else if wd = 6 then 22 \<le> hour_of t else if wd = 4 then hour_of t < 20 else True)"

definition guard_evaluate :: "int \<Rightarrow> approved_order \<Rightarrow> string list \<Rightarrow> bool" where
  "guard_evaluate max_open order open_list =
     (if max_open \<le> int (length open_list) then False
      else if ao_instrument order \<in> set open_list then False else True)"

definition guard_keys :: "approved_order \<Rightarrow> string list" where
  "guard_keys order = [ao_key order]
     @ (if ao_signal order \<noteq> VNone \<and> py_str (ao_signal order) \<noteq> [] then [''signal:'' @ py_str (ao_signal order)] else [])"

definition build_order :: "approved_order \<Rightarrow> pyval \<Rightarrow> constructed_order res" where
  "build_order order entry = (let rc = ao_rc order in
     ebind (require_market_price entry) (\<lambda>price.
     ebind (case (rc_sl rc, rc_tp rc) of
         (Some s, Some t) \<Rightarrow> Inr (s, t)
       | _ \<Rightarrow> atr_stops (direction order) price (rc_atr rc) DEFAULT_ATR_MULTIPLIER_SL DEFAULT_ATR_MULTIPLIER_TP)
       (\<lambda>(s, t).
     ebind (assert_protective_prices (direction order) price (VFloat s) (VFloat t)) (\<lambda>(sl, tp).
       Inr \<lparr>co_key = ao_key order, co_corr = ao_corr order, co_instrument = ao_instrument order,
         co_side = ao_side order, co_units = ao_units order, co_entry = price, co_sl = sl, co_tp = tp,
         co_atr = rc_atr rc, co_rr = DEFAULT_RR_RATIO\<rparr>))))"


section \<open>The processed-key store\<close>

record 's processed_ops =
  pr_seen :: "string \<Rightarrow> 's \<Rightarrow> bool"
  pr_mark :: "string \<Rightarrow> 's \<Rightarrow> 's"

definition in_memory_ops :: "string set processed_ops" where
  "in_memory_ops = \<lparr>pr_seen = (\<lambda>k s. k \<in> s), pr_mark = (\<lambda>k s. insert k s)\<rparr>"

definition mark_all :: "'s processed_ops \<Rightarrow> string list \<Rightarrow> 's \<Rightarrow> 's" where
  "mark_all ops ks s = fold (pr_mark ops) ks s"

text \<open>One law: marking a key makes exactly that key seen.\<close>

locale processed_store =
  fixes ops :: "'s processed_ops"
  assumes seen_mark: "pr_seen ops k' (pr_mark ops k s) \<longleftrightarrow> k' = k \<or> pr_seen ops k' s"
begin

lemma seen_mark_all: "pr_seen ops k (mark_all ops ks s) \<longleftrightarrow> k \<in> set ks \<or> pr_seen ops k s"
  unfolding mark_all_def by (induction ks arbitrary: s) (auto simp: seen_mark)

end

interpretation in_memory: processed_store in_memory_ops
  by unfold_locales (auto simp: in_memory_ops_def)

section \<open>The decision flow\<close>

record ('w, 'f) hooks =
  hk_validate :: "(constructed_order \<Rightarrow> 'w \<Rightarrow> 'w \<times> (bool \<times> string) res) option"
  hk_submit :: "(constructed_order \<Rightarrow> 'w \<Rightarrow> 'w \<times> 'f res) option"
  hk_persist :: "(constructed_order \<Rightarrow> 'f \<Rightarrow> 'w \<Rightarrow> 'w \<times> unit res) option"
  hk_emit :: "(constructed_order \<Rightarrow> 'f \<Rightarrow> 'w \<Rightarrow> 'w \<times> unit res) option"

record pipeline =
  pl_mode :: exec_mode
  pl_shadow :: bool
  pl_max_open :: int

record 'f outcome =
  out_decision :: decision
  out_order :: "constructed_order option"
  out_fill :: "'f option"

definition post_fill :: "('w, 'f) hooks \<Rightarrow> constructed_order \<Rightarrow> 'f \<Rightarrow> 'w \<Rightarrow> 'w \<times> unit res" where
  "post_fill h c f w =
     (case (case hk_persist h of None \<Rightarrow> (w, Inr ()) | Some p \<Rightarrow> p c f w) of
        (w1, Inl e) \<Rightarrow> (w1, Inl e)
      | (w1, Inr u) \<Rightarrow> (case hk_emit h of None \<Rightarrow> (w1, Inr ()) | Some em \<Rightarrow> em c f w1))"

text \<open>The marker is written between the fill and the hooks that can still fail.\<close>

definition submit_and_record :: "'s processed_ops \<Rightarrow> ('w, 'f) hooks \<Rightarrow> approved_order \<Rightarrow> constructed_order \<Rightarrow>
    's \<times> 'w \<Rightarrow> ('s \<times> 'w) \<times> 'f outcome res" where
  "submit_and_record ops h order c sw = (case hk_submit h of
      None \<Rightarrow> (sw, Inl ValueError)
    | Some sub \<Rightarrow> (case sub c (snd sw) of
        (w1, Inl e) \<Rightarrow> ((fst sw, w1), Inl e)
      | (w1, Inr fill) \<Rightarrow>
          (let s1 = mark_all ops (guard_keys order) (fst sw) in
           case post_fill h c fill w1 of
             (w2, Inl e) \<Rightarrow> ((s1, w2), Inl e)
           | (w2, Inr u) \<Rightarrow> ((s1, w2), Inr \<lparr>out_decision = EXECUTED, out_order = Some c, out_fill = Some fill\<rparr>))))"

definition decided :: "decision \<Rightarrow> constructed_order option \<Rightarrow> 'f outcome res" where
  "decided d c = Inr \<lparr>out_decision = d, out_order = c, out_fill = None\<rparr>"

definition after_validation :: "'s processed_ops \<Rightarrow> pipeline \<Rightarrow> ('w, 'f) hooks \<Rightarrow> approved_order \<Rightarrow>
    string list \<Rightarrow> constructed_order \<Rightarrow> 's \<times> 'w \<Rightarrow> ('s \<times> 'w) \<times> 'f outcome res" where
  "after_validation ops pl h order open_list c sw =
     (if \<not> guard_evaluate (pl_max_open pl) order open_list then (sw, decided REJECTED_BACKUP_GUARD (Some c))
      else if pl_shadow pl then (sw, decided SHADOW (Some c))
      else submit_and_record ops h order c sw)"

definition process :: "'s processed_ops \<Rightarrow> pipeline \<Rightarrow> ('w, 'f) hooks \<Rightarrow> instant \<Rightarrow> approved_order \<Rightarrow> pyval \<Rightarrow>
    string list \<Rightarrow> 's \<times> 'w \<Rightarrow> ('s \<times> 'w) \<times> 'f outcome res" where
  "process ops pl h now order entry open_list sw =
     (if pl_mode pl = LEGACY then (sw, decided DEFERRED_LEGACY None)
      else if list_ex (\<lambda>k. pr_seen ops k (fst sw)) (guard_keys order) then (sw, decided SKIPPED_DUPLICATE None)
      else if \<not> is_in_session now then (sw, decided REJECTED_OUT_OF_SESSION None)
      else case build_order order entry of
        Inl e \<Rightarrow> (sw, if isa_InvalidOrder e then decided REJECTED_INVALID None else Inl e)
      | Inr c \<Rightarrow> (case hk_validate h of
            None \<Rightarrow> after_validation ops pl h order open_list c sw
          | Some v \<Rightarrow> (case v c (snd sw) of
              (w1, Inl e) \<Rightarrow> ((fst sw, w1), Inl e)
            | (w1, Inr (ok, reason)) \<Rightarrow>
                if \<not> ok then ((fst sw, w1), decided REJECTED_VALIDATION (Some c))
                else after_validation ops pl h order open_list c (fst sw, w1))))"

end
