(* ===== verification/Safety_Mode.thy ===== *)
theory Safety_Mode
  imports Pipeline
begin

text \<open>
  \<open>execution/safety_mode.py\<close>: the staleness monitor and the operator's bypass. The monitor's
  callbacks only receive the transition events, so they are a list the monitor appends to; its
  clock and its session function are arguments.
\<close>

section \<open>Configuration and state\<close>

datatype safety_state = RUNNING | PAUSED | BYPASS

record safety_config =
  sc_limit :: pyfloat
  sc_hyst :: pyfloat
  sc_enable :: bool
  sc_token :: string
  sc_risk_pct :: pyfloat
  sc_max_positions :: int
  sc_max_duration :: pyfloat

definition safety_config_from :: "secrets \<Rightarrow> safety_config res" where
  "safety_config_from sec =
     ebind (fl_of_int (sec_int sec ''STALENESS_LIMIT_SEC'' 300)) (\<lambda>limit.
     ebind (fl_of_int (sec_int sec ''STALENESS_HYSTERESIS_SEC'' 30)) (\<lambda>hyst.
     ebind (float_of_str (sec_get_nonempty sec ''BYPASS_RISK_PCT'' ''0.25'')) (\<lambda>pct.
     ebind (fl_of_int (sec_int sec ''BYPASS_MAX_DURATION_SEC'' 3600)) (\<lambda>dur.
       Inr \<lparr>sc_limit = limit, sc_hyst = hyst, sc_enable = sec_bool sec ''EXEC_BYPASS_ENABLE'' False,
         sc_token = sec_get_or sec ''BYPASS_CONFIRM_TOKEN'' [], sc_risk_pct = pct,
         sc_max_positions = sec_int sec ''BYPASS_MAX_POSITIONS'' 3, sc_max_duration = dur\<rparr>))))"

definition conservative_position_size :: "pyfloat \<Rightarrow> pyfloat \<Rightarrow> pyfloat \<Rightarrow> pyfloat \<Rightarrow> int res" where
  "conservative_position_size equity atr risk_pct sl_mult =
     (if fl_le equity (Fin 0) \<or> fl_le atr (Fin 0) \<or> fl_le risk_pct (Fin 0) then Inr 0
      else ebind (fl_div risk_pct (Fin 100)) (\<lambda>f.
        let amount = fl_mul equity f; dist = fl_mul atr sl_mult in
        if fl_le dist (Fin 0) then Inr 0 else ebind (fl_div amount dist) fl_to_int))"

record safety_event =
  se_from :: safety_state
  se_to :: safety_state
  se_reason :: string

record monitor =
  sm_config :: safety_config
  sm_state :: safety_state
  sm_heartbeat :: "instant option"
  sm_started :: instant
  sm_bypass_started :: "instant option"
  sm_operator :: "string option"
  sm_audit :: "safety_event list"

definition new_monitor :: "safety_config \<Rightarrow> instant \<Rightarrow> monitor" where
  "new_monitor cfg now = \<lparr>sm_config = cfg, sm_state = RUNNING, sm_heartbeat = None, sm_started = now,
     sm_bypass_started = None, sm_operator = None, sm_audit = []\<rparr>"

section \<open>Freshness\<close>

definition record_heartbeat :: "instant \<Rightarrow> instant option \<Rightarrow> monitor \<Rightarrow> monitor \<times> bool" where
  "record_heartbeat now sent m =
     (let ts0 = (case sent of None \<Rightarrow> now | Some t \<Rightarrow> t); ts = (if now < ts0 then now else ts0) in
      if fl_less (sc_limit (sm_config m)) (total_seconds (now - ts)) then (m, False)
      else if (case sm_heartbeat m of None \<Rightarrow> False | Some h \<Rightarrow> ts \<le> h) then (m, False)
      else (m\<lparr>sm_heartbeat := Some ts\<rparr>, True))"

definition fresh_at :: "monitor \<Rightarrow> instant option \<Rightarrow> instant" where
  "fresh_at m lastmsg = (case (lastmsg, sm_heartbeat m) of
      (None, None) \<Rightarrow> sm_started m
    | (Some a, None) \<Rightarrow> a
    | (None, Some h) \<Rightarrow> h
    | (Some a, Some h) \<Rightarrow> max a h)"

definition staleness_seconds :: "monitor \<Rightarrow> instant \<Rightarrow> instant option \<Rightarrow> pyfloat" where
  "staleness_seconds m now lastmsg = total_seconds (now - fresh_at m lastmsg)"

section \<open>Transitions\<close>

definition transition :: "safety_state \<Rightarrow> string \<Rightarrow> monitor \<Rightarrow> monitor" where
  "transition new reason m =
     (if sm_state m = new \<and> \<not> startswith reason ''bypass'' then m
      else m\<lparr>sm_state := new,
        sm_audit := sm_audit m @ [\<lparr>se_from = sm_state m, se_to = new, se_reason = reason\<rparr>]\<rparr>)"

definition leave_bypass :: "string \<Rightarrow> monitor \<Rightarrow> monitor" where
  "leave_bypass reason m = transition RUNNING (''bypass_exit:'' @ reason)
     (m\<lparr>sm_bypass_started := None, sm_operator := None\<rparr>)"

definition evaluate_session :: "(instant \<Rightarrow> bool) \<Rightarrow> instant option \<Rightarrow> instant \<Rightarrow> monitor \<Rightarrow> monitor" where
  "evaluate_session session lastmsg now m =
     (if \<not> session now
      then (if sm_state m = PAUSED then transition RUNNING ''out_of_session_no_false_pause'' m else m)
      else let staleness = staleness_seconds m now lastmsg; limit = sc_limit (sm_config m) in
        if sm_state m = RUNNING \<and> fl_less limit staleness then transition PAUSED ''queue_stale'' m
        else if sm_state m = PAUSED \<and> fl_less staleness (fl_sub limit (sc_hyst (sm_config m)))
          then transition RUNNING ''queue_fresh_resume'' m
        else m)"

definition evaluate :: "(instant \<Rightarrow> bool) \<Rightarrow> instant option \<Rightarrow> instant \<Rightarrow> monitor \<Rightarrow> monitor res" where
  "evaluate session lastmsg now m =
     (if sm_state m = BYPASS
      then (case sm_bypass_started m of
          None \<Rightarrow> Inl AssertionError
        | Some t \<Rightarrow> if fl_le (sc_max_duration (sm_config m)) (total_seconds (now - t))
            then Inr (evaluate_session session lastmsg now (leave_bypass ''bypass_window_expired'' m))
            else Inr m)
      else Inr (evaluate_session session lastmsg now m))"

definition can_submit :: "monitor \<Rightarrow> bool" where
  "can_submit m \<longleftrightarrow> sm_state m = RUNNING \<or> sm_state m = BYPASS"

definition request_bypass :: "instant \<Rightarrow> string \<Rightarrow> string \<Rightarrow> string \<Rightarrow> monitor \<Rightarrow> monitor \<times> bool" where
  "request_bypass now token operator reason m =
     (if \<not> sc_enable (sm_config m) then (m, False)
      else let expected = sc_token (sm_config m) in
        if expected = [] \<or> token \<noteq> expected then (m, False)
        else (transition BYPASS (''bypass_enabled:'' @ reason)
               (m\<lparr>sm_bypass_started := Some now, sm_operator := Some operator\<rparr>), True))"

definition exit_bypass :: "string \<Rightarrow> monitor \<Rightarrow> monitor" where
  "exit_bypass reason m = (if sm_state m = BYPASS then leave_bypass reason m else m)"

section \<open>Laws\<close>

lemma transition_fields [simp]:
  "sm_config (transition new r m) = sm_config m" "sm_heartbeat (transition new r m) = sm_heartbeat m"
  "sm_started (transition new r m) = sm_started m" "sm_bypass_started (transition new r m) = sm_bypass_started m"
  "sm_state (transition new r m) = new"
  by (simp_all add: transition_def)

lemma leave_bypass_fields [simp]:
  "sm_config (leave_bypass r m) = sm_config m" "sm_heartbeat (leave_bypass r m) = sm_heartbeat m"
  "sm_started (leave_bypass r m) = sm_started m" "sm_bypass_started (leave_bypass r m) = None"
  "sm_state (leave_bypass r m) = RUNNING"
  by (simp_all add: leave_bypass_def)

lemma evaluate_session_fields [simp]:
  "sm_config (evaluate_session s l n m) = sm_config m" "sm_heartbeat (evaluate_session s l n m) = sm_heartbeat m"
  "sm_started (evaluate_session s l n m) = sm_started m"
  "sm_bypass_started (evaluate_session s l n m) = sm_bypass_started m"
  "(sm_state (evaluate_session s l n m) = BYPASS) = (sm_state m = BYPASS)"
  by (auto simp: evaluate_session_def Let_def)

lemma staleness_leave [simp]: "staleness_seconds (leave_bypass r m) now lastmsg = staleness_seconds m now lastmsg"
  by (cases lastmsg; cases "sm_heartbeat m") (simp_all add: staleness_seconds_def fresh_at_def)

text \<open>In session the paused state is the stale one, up to the hysteresis band.\<close>

lemma evaluate_session_stale:
  assumes "session now" "fl_less (sc_limit (sm_config m)) (staleness_seconds m now lastmsg)" "sm_state m \<noteq> BYPASS"
    and "fl_le (fl_sub (sc_limit (sm_config m)) (sc_hyst (sm_config m))) (sc_limit (sm_config m))"
  shows "sm_state (evaluate_session session lastmsg now m) = PAUSED"
proof -
  have "\<not> fl_less (staleness_seconds m now lastmsg) (fl_sub (sc_limit (sm_config m)) (sc_hyst (sm_config m)))"
    using assms(2,4) fl_less_asym fl_less_le_trans by blast
  then show ?thesis using assms(1-3) by (cases "sm_state m") (auto simp: evaluate_session_def Let_def)
qed

lemma evaluate_session_fresh:
  assumes "session now" "fl_less (staleness_seconds m now lastmsg) (fl_sub (sc_limit (sm_config m)) (sc_hyst (sm_config m)))"
    "sm_state m \<noteq> BYPASS" "fl_le (fl_sub (sc_limit (sm_config m)) (sc_hyst (sm_config m))) (sc_limit (sm_config m))"
  shows "sm_state (evaluate_session session lastmsg now m) = RUNNING"
proof -
  have "\<not> fl_less (sc_limit (sm_config m)) (staleness_seconds m now lastmsg)"
    using assms(2,4) fl_less_asym fl_less_le_trans by blast
  then show ?thesis using assms(1-3) by (cases "sm_state m") (auto simp: evaluate_session_def Let_def)
qed

section \<open>The monitor as a state machine\<close>

text \<open>Every way the program drives the monitor: the consumer's heartbeats, the tick's evaluation,
  the operator's bypass. The clock of a step never runs backwards.\<close>

inductive sm_step :: "(instant \<Rightarrow> bool) \<Rightarrow> instant \<times> monitor \<Rightarrow> instant \<times> monitor \<Rightarrow> bool" for session where
  sm_beat: "t \<le> t' \<Longrightarrow> record_heartbeat t' sent m = (m', ok) \<Longrightarrow> sm_step session (t, m) (t', m')"
| sm_eval: "t \<le> t' \<Longrightarrow> evaluate session lastmsg t' m = Inr m' \<Longrightarrow> sm_step session (t, m) (t', m')"
| sm_request: "t \<le> t' \<Longrightarrow> request_bypass t' token operator reason m = (m', ok) \<Longrightarrow> sm_step session (t, m) (t', m')"
| sm_exit: "t \<le> t' \<Longrightarrow> m' = exit_bypass reason m \<Longrightarrow> sm_step session (t, m) (t', m')"

inductive_cases sm_stepE: "sm_step session s s'"

definition monitor_inv :: "safety_config \<Rightarrow> instant \<times> monitor \<Rightarrow> bool" where
  "monitor_inv cfg s \<longleftrightarrow> sm_config (snd s) = cfg
     \<and> (sm_state (snd s) = BYPASS \<longleftrightarrow> sm_bypass_started (snd s) \<noteq> None)
     \<and> (sm_state (snd s) = BYPASS \<longrightarrow> sc_enable cfg \<and> sc_token cfg \<noteq> [])
     \<and> (\<forall>h. sm_heartbeat (snd s) = Some h \<longrightarrow> h \<le> fst s)
     \<and> (\<forall>b. sm_bypass_started (snd s) = Some b \<longrightarrow> b \<le> fst s)"

lemma monitor_inv_new: "monitor_inv cfg (t, new_monitor cfg t)"
  by (simp add: monitor_inv_def new_monitor_def)

lemma record_heartbeat_cases:
  "record_heartbeat now sent m = (m', ok) \<Longrightarrow> (m' = m \<and> \<not> ok) \<or>
    (\<exists>ts \<le> now. m' = m\<lparr>sm_heartbeat := Some ts\<rparr> \<and> ok \<and> (\<forall>h. sm_heartbeat m = Some h \<longrightarrow> h < ts)
      \<and> \<not> fl_less (sc_limit (sm_config m)) (total_seconds (now - ts)))"
proof -
  define ts where "ts = (if now < (case sent of None \<Rightarrow> now | Some t \<Rightarrow> t) then now else (case sent of None \<Rightarrow> now | Some t \<Rightarrow> t))"
  have "ts \<le> now" by (simp add: ts_def)
  moreover assume "record_heartbeat now sent m = (m', ok)"
  ultimately show ?thesis
    unfolding record_heartbeat_def Let_def ts_def [symmetric] by (fastforce split: if_splits option.splits)
qed

lemma monitor_inv_step:
  assumes "sm_step session s s'" "monitor_inv cfg s" shows "monitor_inv cfg s'"
  using assms(1)
proof cases
  case (sm_beat t t' sent m m' ok)
  with assms(2) show ?thesis by (auto simp: monitor_inv_def dest!: record_heartbeat_cases)
next
  case (sm_eval t t' lastmsg m m')
  show ?thesis
  proof (cases "sm_state m = BYPASS")
    case True
    with sm_eval assms(2) show ?thesis by (auto simp: monitor_inv_def evaluate_def split: option.splits if_splits)
  next
    case False
    then have "m' = evaluate_session session lastmsg t' m" using sm_eval(4) by (simp add: evaluate_def)
    then show ?thesis using sm_eval(1-3) False assms(2) by (auto simp: monitor_inv_def)
  qed
next
  case (sm_request t t' token operator reason m m' ok)
  with assms(2) show ?thesis
    by (auto simp: monitor_inv_def request_bypass_def Let_def split: if_splits)
next
  case (sm_exit t t' m' reason m)
  with assms(2) show ?thesis by (auto simp: monitor_inv_def exit_bypass_def)
qed

lemma monitor_inv_steps: "(sm_step session)\<^sup>*\<^sup>* s s' \<Longrightarrow> monitor_inv cfg s \<Longrightarrow> monitor_inv cfg s'"
  by (induction rule: rtranclp_induct) (auto intro: monitor_inv_step)

lemma evaluate_total: "monitor_inv cfg (t, m) \<Longrightarrow> \<exists>m'. evaluate session lastmsg now m = Inr m'"
  by (auto simp: monitor_inv_def evaluate_def)

lemma record_heartbeat_exact:
  "record_heartbeat now (Some sent) m =
     (if \<not> fl_less (sc_limit (sm_config m)) (total_seconds (now - min sent now))
         \<and> (\<forall>h. sm_heartbeat m \<noteq> Some h \<or> h < min sent now)
      then (m\<lparr>sm_heartbeat := Some (min sent now)\<rparr>, True) else (m, False))"
  by (auto simp: record_heartbeat_def Let_def min_def split: option.splits)

text \<open>The mark never moves back.\<close>

lemma heartbeat_step:
  assumes "sm_step session s s'" "sm_heartbeat (snd s) = Some h"
  shows "\<exists>h'. sm_heartbeat (snd s') = Some h' \<and> h \<le> h'"
  using assms(1)
proof cases
  case (sm_beat t t' sent m m' ok)
  with assms(2) show ?thesis by (auto dest!: record_heartbeat_cases)
next
  case (sm_eval t t' lastmsg m m')
  with assms(2) show ?thesis by (auto simp: evaluate_def split: option.splits if_splits)
next
  case (sm_request t t' token operator reason m m' ok)
  with assms(2) show ?thesis by (auto simp: request_bypass_def Let_def split: if_splits)
next
  case (sm_exit t t' m' reason m)
  with assms(2) show ?thesis by (auto simp: exit_bypass_def)
qed

lemma heartbeat_steps:
  "(sm_step session)\<^sup>*\<^sup>* s s' \<Longrightarrow> sm_heartbeat (snd s) = Some h \<Longrightarrow> \<exists>h'. sm_heartbeat (snd s') = Some h' \<and> h \<le> h'"
proof (induction rule: rtranclp_induct)
  case (step y z)
  then obtain h1 where h1: "sm_heartbeat (snd y) = Some h1" "h \<le> h1" by blast
  from heartbeat_step [OF step.hyps(2) h1(1)] obtain h2 where "sm_heartbeat (snd z) = Some h2" "h1 \<le> h2" by blast
  with h1(2) show ?case by (intro exI [of _ h2]) auto
qed auto


lemma stale_cannot_submit:
  assumes "evaluate session lastmsg now m = Inr m'" "session now" "sm_state m' \<noteq> BYPASS"
    and "fl_less (sc_limit (sm_config m)) (staleness_seconds m now lastmsg)"
    and "fl_le (fl_sub (sc_limit (sm_config m)) (sc_hyst (sm_config m))) (sc_limit (sm_config m))"
  shows "\<not> can_submit m'"
proof (cases "sm_state m = BYPASS")
  case True
  then have m': "m' = evaluate_session session lastmsg now (leave_bypass ''bypass_window_expired'' m)"
    using assms(1,3) by (auto simp: evaluate_def split: option.splits if_splits)
  have "sm_state m' = PAUSED"
    unfolding m' by (rule evaluate_session_stale) (simp_all add: assms)
  then show ?thesis by (simp add: can_submit_def)
next
  case False
  then have "m' = evaluate_session session lastmsg now m" using assms(1) by (simp add: evaluate_def)
  then have "sm_state m' = PAUSED" using evaluate_session_stale assms(2,4,5) False by simp
  then show ?thesis by (simp add: can_submit_def)
qed

section \<open>Properties\<close>

text \<open>Queue down and bypass off means no submission. Whenever the monitor is evaluated in session
  with the last sign of System 3 older than the staleness limit, and the result is not a bypass, new
  orders are refused.\<close>

theorem stale_queue_blocks_submission:
  assumes "evaluate session lastmsg now m = Inr m'" "session now" "sm_state m' \<noteq> BYPASS"
    and "fl_less (sc_limit (sm_config m)) (staleness_seconds m now lastmsg)"
    and "fl_le (fl_sub (sc_limit (sm_config m)) (sc_hyst (sm_config m))) (sc_limit (sm_config m))"
  shows "\<not> can_submit m'"
  using assms by (rule stale_cannot_submit)

definition wit_config :: safety_config where
  "wit_config = \<lparr>sc_limit = Fin 300, sc_hyst = Fin 30, sc_enable = True, sc_token = ''go'', sc_risk_pct = Fin 1,
     sc_max_positions = 3, sc_max_duration = Fin 3600\<rparr>"

definition wit_start :: instant where
  "wit_start = 1782907200000000"

lemma wit_stale: "staleness_seconds (new_monitor wit_config wit_start) (wit_start + 301000000) None = Fin 301"
  using total_seconds_whole [of 301] by (simp add: staleness_seconds_def fresh_at_def new_monitor_def)

theorem stale_queue_blocks_submission_witness:
  "\<exists>m'. evaluate is_in_session None (wit_start + 301000000) (new_monitor wit_config wit_start) = Inr m' \<and> \<not> can_submit m'"
proof -
  let ?m = "new_monitor wit_config wit_start" and ?now = "wit_start + 301000000"
  have s: "is_in_session ?now" unfolding wit_start_def by code_simp
  have lim: "sc_limit (sm_config ?m) = Fin 300" "sc_hyst (sm_config ?m) = Fin 30" "sm_state ?m = RUNNING"
    by (simp_all add: new_monitor_def wit_config_def)
  have e: "evaluate is_in_session None ?now ?m = Inr (transition PAUSED ''queue_stale'' ?m)"
    by (simp add: evaluate_def evaluate_session_def s wit_stale lim Let_def)
  have "\<not> can_submit (transition PAUSED ''queue_stale'' ?m)"
    by (rule stale_queue_blocks_submission [OF e s]) (simp_all add: lim wit_stale b64_small)
  with e show ?thesis by blast
qed

text \<open>C29: In every state the monitor can reach, whatever heartbeats, evaluations and operator requests
  it saw, a bypass is in force only if the configuration enables it and carries a confirmation
  token, it has a start time, and evaluation never fails.\<close>

theorem bypass_is_authorised:
  assumes "(sm_step session)\<^sup>*\<^sup>* (t0, new_monitor cfg t0) (t, m)"
  shows "(sm_state m = BYPASS \<longrightarrow> sc_enable cfg \<and> sc_token cfg \<noteq> [] \<and> (\<exists>b \<le> t. sm_bypass_started m = Some b))
    \<and> (\<exists>m'. evaluate session lastmsg now m = Inr m')"
proof -
  have inv: "monitor_inv cfg (t, m)" using monitor_inv_steps [OF assms monitor_inv_new] .
  then show ?thesis using evaluate_total [OF inv] by (auto simp: monitor_inv_def)
qed

definition wit_bypass :: monitor where
  "wit_bypass = fst (request_bypass wit_start ''go'' ''op'' ''s3 down'' (new_monitor wit_config wit_start))"

lemma wit_bypass_reach: "(sm_step is_in_session)\<^sup>*\<^sup>* (wit_start, new_monitor wit_config wit_start) (wit_start, wit_bypass)"
  by (rule r_into_rtranclp, rule sm_request [OF order_refl, where token = "''go''" and operator = "''op''" and reason = "''s3 down''"])
     (simp add: wit_bypass_def prod_eq_iff)

lemma wit_bypass_fields: "sm_state wit_bypass = BYPASS" "sm_bypass_started wit_bypass = Some wit_start"
    "sm_config wit_bypass = wit_config"
  by (simp_all add: wit_bypass_def request_bypass_def new_monitor_def wit_config_def)

theorem bypass_is_authorised_witness:
  "sm_state wit_bypass = BYPASS \<and> sc_enable wit_config \<and> sc_token wit_config \<noteq> []"
  using bypass_is_authorised [OF wit_bypass_reach] wit_bypass_fields by auto

text \<open>A bypass is time-bounded: the first evaluation at or after its maximal duration ends it.\<close>

theorem bypass_expires:
  assumes "sm_bypass_started m = Some b" "fl_le (sc_max_duration (sm_config m)) (total_seconds (now - b))"
    and "evaluate session lastmsg now m = Inr m'"
  shows "sm_state m' \<noteq> BYPASS"
  using assms by (cases "sm_state m = BYPASS") (auto simp: evaluate_def)

theorem bypass_expires_witness:
  "\<exists>m'. evaluate is_in_session None (wit_start + 3600000000) wit_bypass = Inr m' \<and> sm_state m' \<noteq> BYPASS"
proof -
  obtain m' where e: "evaluate is_in_session None (wit_start + 3600000000) wit_bypass = Inr m'"
    using bypass_is_authorised [OF wit_bypass_reach] by blast
  have "sm_state m' \<noteq> BYPASS"
    using bypass_expires [OF wit_bypass_fields(2) _ e] total_seconds_whole [of 3600]
    by (simp add: wit_bypass_fields wit_config_def)
  with e show ?thesis by blast
qed

text \<open>A replayed keepalive buys nothing. Once a heartbeat with some producer time has been
  credited, then whatever happens next, no heartbeat produced at or before that time is ever credited
  again, at any clock reading, and the refusal leaves the monitor as it was.\<close>

theorem replayed_heartbeat_is_refused:
  assumes "(sm_step session)\<^sup>*\<^sup>* (t, m) (t', m')" "sm_heartbeat m = Some h" "sent \<le> h"
  shows "record_heartbeat now (Some sent) m' = (m', False)"
proof -
  obtain h' where "sm_heartbeat m' = Some h'" "h \<le> h'" using heartbeat_steps [OF assms(1)] assms(2) by auto
  with assms(3) show ?thesis by (auto simp: record_heartbeat_exact)
qed

theorem replayed_heartbeat_is_refused_witness:
  "record_heartbeat (wit_start + 61000000) (Some wit_start) ((new_monitor wit_config wit_start)\<lparr>sm_heartbeat := Some (wit_start + 60000000)\<rparr>)
    = ((new_monitor wit_config wit_start)\<lparr>sm_heartbeat := Some (wit_start + 60000000)\<rparr>, False)"
proof -
  let ?m = "(new_monitor wit_config wit_start)\<lparr>sm_heartbeat := Some wit_start\<rparr>"
  let ?m' = "(new_monitor wit_config wit_start)\<lparr>sm_heartbeat := Some (wit_start + 60000000)\<rparr>"
  have "\<not> fl_less (Fin 300) (total_seconds 0)" using total_seconds_whole [of 0] by simp
  then have "record_heartbeat (wit_start + 60000000) (Some (wit_start + 60000000)) ?m = (?m', True)"
    by (simp add: record_heartbeat_exact new_monitor_def wit_config_def)
  then have "(sm_step is_in_session)\<^sup>*\<^sup>* (wit_start, ?m) (wit_start + 60000000, ?m')"
    by (intro r_into_rtranclp sm_beat) simp_all
  from replayed_heartbeat_is_refused [OF this] show ?thesis by simp
qed

text \<open>No flapping on borderline lag: in session, while the staleness is between the resume
  threshold and the limit, an evaluation outside a bypass changes nothing.\<close>

theorem hysteresis_band_is_stable:
  assumes "session now" "sm_state m \<noteq> BYPASS"
    and "\<not> fl_less (sc_limit (sm_config m)) (staleness_seconds m now lastmsg)"
    and "\<not> fl_less (staleness_seconds m now lastmsg) (fl_sub (sc_limit (sm_config m)) (sc_hyst (sm_config m)))"
  shows "evaluate session lastmsg now m = Inr m"
  using assms by (simp add: evaluate_def evaluate_session_def Let_def)

theorem hysteresis_band_is_stable_witness:
  "evaluate is_in_session None (wit_start + 280000000) (new_monitor wit_config wit_start) = Inr (new_monitor wit_config wit_start)"
proof (rule hysteresis_band_is_stable)
  show "is_in_session (wit_start + 280000000)" unfolding wit_start_def by code_simp
qed (use total_seconds_whole [of 280] in
  \<open>simp_all add: staleness_seconds_def fresh_at_def new_monitor_def wit_config_def b64_small\<close>)

text \<open>The gap in the module's invariant: ending a bypass by hand sets the monitor running at once,
  however stale the queue is, and it stays open until the next evaluation.\<close>

lemma exit_bypass_reopens:
  "can_submit (exit_bypass ''operator_disabled'' wit_bypass)
   \<and> fl_less (sc_limit wit_config) (staleness_seconds (exit_bypass ''operator_disabled'' wit_bypass) (wit_start + 3000000000) None)"
proof -
  have h: "sm_heartbeat wit_bypass = None" "sm_started wit_bypass = wit_start"
    by (simp_all add: wit_bypass_def request_bypass_def new_monitor_def wit_config_def)
  show ?thesis
    using total_seconds_whole [of 3000]
    by (simp add: exit_bypass_def wit_bypass_fields can_submit_def staleness_seconds_def fresh_at_def h wit_config_def)
qed

end
