(* ===== verification/Price_Grid.thy ===== *)
theory Price_Grid
  imports Pipeline
begin

text \<open>
  The pure half of \<open>broker/oanda_adapter.py\<close>: pip sizes and slippage, the instrument's price grid
  and the directional snap onto it, reading a quote out of a pricing row, and the verdict on what
  the broker's recent transactions say about one client order id. A \<open>Decimal\<close> is a whole number of
  ticks with its precision; \<open>Decimal(str(x))\<close> of a float is its shortest decimal. The sign of a
  zero \<open>Decimal\<close> is not kept.
\<close>

section \<open>Pips\<close>

definition CLIENT_ID_PREFIX :: string where "CLIENT_ID_PREFIX = ''sb-''"
definition JPY_PIP :: pyfloat where "JPY_PIP = b64 (1 / 100)"
definition STD_PIP :: pyfloat where "STD_PIP = b64 (1 / 10000)"

definition pip_size :: "string \<Rightarrow> pyfloat" where
  "pip_size instrument = (if endswith (upper instrument) ''_JPY'' then JPY_PIP else STD_PIP)"

definition compute_slippage_pips :: "pyfloat \<Rightarrow> pyfloat \<Rightarrow> string \<Rightarrow> pyfloat res" where
  "compute_slippage_pips expected fill instrument =
     emap (fl_round_dec 2) (fl_div (fl_sub fill expected) (pip_size instrument))"

definition client_order_id :: "string \<Rightarrow> string" where
  "client_order_id key = CLIENT_ID_PREFIX @ key"

section \<open>The price grid\<close>

record InstrumentSpec =
  is_name :: string
  is_precision :: int
  is_pip_location :: int

definition spec_from_broker_row :: "pyval \<Rightarrow> InstrumentSpec res" where
  "spec_from_broker_row row =
     ebind (vindex row ''name'') (\<lambda>n.
     ebind (ebind (vindex row ''displayPrecision'') py_int) (\<lambda>p.
     ebind (ebind (vindex row ''pipLocation'') py_int) (\<lambda>l.
       Inr \<lparr>is_name = py_str n, is_precision = p, is_pip_location = l\<rparr>)))"

definition default_display_precision :: "string \<Rightarrow> int" where
  "default_display_precision instrument = (if endswith (upper instrument) ''_JPY'' then 3 else 5)"

datatype rounding = HalfUp | Floor | Ceiling

definition round_ticks :: "rounding \<Rightarrow> rat \<Rightarrow> int" where
  "round_ticks m x = (case m of
      HalfUp \<Rightarrow> (if 0 \<le> x then \<lfloor>x + 1/2\<rfloor> else - \<lfloor>1/2 - x\<rfloor>)
    | Floor \<Rightarrow> \<lfloor>x\<rfloor> | Ceiling \<Rightarrow> \<lceil>x\<rceil>)"

definition InvalidOperation :: pyexn where
  "InvalidOperation = OtherException ''decimal.InvalidOperation''"

text \<open>The rounding toward a reference: down from above it, up from below it, and to the nearest tick
  at it or without one. Comparing with a NaN reference raises.\<close>

definition rounding_toward :: "rat \<Rightarrow> pyfloat option \<Rightarrow> rounding res" where
  "rounding_toward v toward = (case toward of None \<Rightarrow> Inr HalfUp
    | Some (Fin r) \<Rightarrow> Inr (if dec_of_float r < v then Floor else if v < dec_of_float r then Ceiling else HalfUp)
    | Some PInf \<Rightarrow> Inr Ceiling
    | Some NInf \<Rightarrow> Inr Floor
    | Some NaN \<Rightarrow> Inl InvalidOperation)"

text \<open>Ticks and precision of \<open>quantize_price\<close>; \<open>Decimal.quantize\<close> refuses a result of more than the
  context's 28 digits.\<close>

definition quantize_price :: "pyfloat \<Rightarrow> string \<Rightarrow> int option \<Rightarrow> pyfloat option \<Rightarrow> (int \<times> nat) res" where
  "quantize_price price instrument precision toward =
     (let decimals = (case precision of Some p \<Rightarrow> p | None \<Rightarrow> default_display_precision instrument) in
      if decimals < 0 then Inl ValueError
      else case price of
        Fin x \<Rightarrow> (let v = dec_of_float x in
          ebind (rounding_toward v toward) (\<lambda>m.
            let n = round_ticks m (v * 10 ^ nat decimals) in
            if 10 ^ 28 \<le> \<bar>n\<bar> then Inl InvalidOperation else Inr (n, nat decimals)))
      | _ \<Rightarrow> Inl ValueError)"

definition dec_value :: "int \<times> nat \<Rightarrow> rat" where
  "dec_value q = of_int (fst q) / 10 ^ snd q"

definition dec_float :: "int \<times> nat \<Rightarrow> pyfloat" where
  "dec_float q = b64 (dec_value q)"

definition pad_zeros :: "nat \<Rightarrow> string \<Rightarrow> string" where
  "pad_zeros n s = replicate (n - length s) (CHR ''0'') @ s"

definition dec_format :: "int \<times> nat \<Rightarrow> string" where
  "dec_format q = (let n = \<bar>fst q\<bar>; d = snd q in
     (if fst q < 0 then ''-'' else []) @ nat_str (n div 10 ^ d)
       @ (if d = 0 then [] else ''.'' @ pad_zeros d (nat_str (n mod 10 ^ d))))"

definition format_price :: "pyfloat \<Rightarrow> string \<Rightarrow> int option \<Rightarrow> pyfloat option \<Rightarrow> string res" where
  "format_price price instrument precision toward = emap dec_format (quantize_price price instrument precision toward)"

section \<open>Transactions of an order\<close>

definition transaction_client_order_id :: "pyval \<Rightarrow> string option res" where
  "transaction_client_order_id txn =
     ebind (vget txn ''clientOrderID'') (\<lambda>raw.
       if truthy raw then Inr (Some (py_str raw))
       else ebind (vget txn ''clientExtensions'') (\<lambda>ext.
         ebind (vget (or_else ext (VDict [])) ''id'') (\<lambda>i.
           Inr (if truthy i then Some (py_str i) else None))))"

datatype verdict = PRIOR_FILLED pyval | PRIOR_UNFILLED | PRIOR_PENDING | PRIOR_ABSENT

datatype txn_kind = TFill | TTerminal | TOther

definition txn_kind_of :: "pyval \<Rightarrow> txn_kind res" where
  "txn_kind_of txn = ebind (vget txn ''type'') (\<lambda>t.
     let ty = upper (py_str (or_else t (VStr []))) in
     Inr (if ty = ''ORDER_FILL'' then TFill
       else if ty = ''ORDER_CANCEL'' \<or> endswith ty ''_REJECT'' then TTerminal else TOther))"

text \<open>The loop over the window, with the fill, order-seen and terminal-seen variables.\<close>

fun verdict_loop :: "string \<Rightarrow> pyval list \<Rightarrow> pyval option \<Rightarrow> bool \<Rightarrow> bool \<Rightarrow> verdict res" where
  "verdict_loop cid [] fill saw_order saw_terminal =
     Inr (case fill of Some f \<Rightarrow> PRIOR_FILLED f
        | None \<Rightarrow> if saw_terminal then PRIOR_UNFILLED else if saw_order then PRIOR_PENDING else PRIOR_ABSENT)"
| "verdict_loop cid (txn # txns) fill saw_order saw_terminal =
     ebind (transaction_client_order_id txn) (\<lambda>i.
       if i \<noteq> Some cid then verdict_loop cid txns fill saw_order saw_terminal
       else ebind (txn_kind_of txn) (\<lambda>k. case k of
           TFill \<Rightarrow> verdict_loop cid txns (Some txn) saw_order saw_terminal
         | TTerminal \<Rightarrow> verdict_loop cid txns fill saw_order True
         | TOther \<Rightarrow> verdict_loop cid txns fill True saw_terminal))"

definition prior_submission_verdict :: "pyval list \<Rightarrow> string \<Rightarrow> verdict res" where
  "prior_submission_verdict txns cid = verdict_loop cid txns None False False"

section \<open>Quotes\<close>

record ReferencePrice =
  rp_instrument :: string
  rp_bid :: pyfloat
  rp_ask :: pyfloat
  rp_time :: "instant option"

definition rp_mid :: "ReferencePrice \<Rightarrow> pyfloat res" where
  "rp_mid q = fl_div (fl_add (rp_bid q) (rp_ask q)) (Fin 2)"

definition rp_for_side :: "ReferencePrice \<Rightarrow> string \<Rightarrow> pyfloat" where
  "rp_for_side q side = (if upper side = ''BUY'' then rp_ask q else rp_bid q)"

definition rp_age_sec :: "ReferencePrice \<Rightarrow> instant \<Rightarrow> pyfloat option" where
  "rp_age_sec q now = map_option (\<lambda>t. total_seconds (now - t)) (rp_time q)"

text \<open>OANDA's RFC 3339 times: the fraction is cut to six digits before the ISO parse.\<close>

definition first_sign :: "string \<Rightarrow> nat" where
  "first_sign s = length (takeWhile (\<lambda>c. c \<noteq> CHR ''+'' \<and> c \<noteq> CHR ''-'') s)"

definition cut_fraction :: "string \<Rightarrow> string" where
  "cut_fraction text = (case find_char (CHR ''.'') text of None \<Rightarrow> text
    | Some i \<Rightarrow> (let head = take i text; tail = drop (Suc i) text; cut = first_sign tail;
          fraction = take 6 (take cut tail); offset = drop cut tail
        in head @ ''.'' @ (if fraction = [] then ''0'' else fraction) @ offset))"

definition parse_broker_time :: "pyval \<Rightarrow> instant option res" where
  "parse_broker_time raw = (if \<not> truthy raw then Inr None
     else case fromisoformat_utc (cut_fraction (replace_Z (strip (py_str raw)))) of
       Inr t \<Rightarrow> Inr (Some t)
     | Inl e \<Rightarrow> if e = ValueError then Inr None else Inl e)"

definition quote_side :: "pyval \<Rightarrow> string \<Rightarrow> pyfloat res" where
  "quote_side row k = ebind (vget row k) (\<lambda>levels.
     ebind (vfirst (or_else levels (VList [VDict []]))) (\<lambda>l. ebind (vindex l ''price'') py_float))"

definition isa_lookup_error :: "pyexn \<Rightarrow> bool" where
  "isa_lookup_error e \<longleftrightarrow> e = KeyError \<or> e = IndexError \<or> e = TypeError \<or> e = ValueError"

definition reference_price_from_broker_row :: "pyval \<Rightarrow> ReferencePrice option res" where
  "reference_price_from_broker_row row =
     (if \<not> truthy row then Inr None
      else ebind (vget_or row ''status'' (VStr ''tradeable'')) (\<lambda>st.
        if lower (py_str st) \<noteq> ''tradeable'' then Inr None
        else ebind (vget row ''tradeable'') (\<lambda>tr. if tr = VBool False then Inr None
        else (case ebind (quote_side row ''bids'') (\<lambda>b. emap (Pair b) (quote_side row ''asks'')) of
            Inl e \<Rightarrow> if isa_lookup_error e then Inr None else Inl e
          | Inr (bid, ask) \<Rightarrow>
              if \<not> (fl_less (Fin 0) bid \<and> fl_less (Fin 0) ask) then Inr None
              else ebind (vget_or row ''instrument'' (VStr [])) (\<lambda>ins.
                ebind (ebind (vget row ''time'') parse_broker_time) (\<lambda>t.
                  Inr (Some \<lparr>rp_instrument = py_str ins, rp_bid = bid, rp_ask = ask, rp_time = t\<rparr>)))))))"

end
