(* ===== verification/Oanda_Adapter.thy ===== *)
theory Oanda_Adapter
  imports Price_Grid
begin

text \<open>
  \<open>broker/oanda_adapter.py\<close>: environment resolution and the stateful \<open>OandaAdapter\<close>. The transport
  is a record of functions on an abstract broker state \<open>'b\<close> that may raise; the capabilities the
  adapter feature-detects with \<open>getattr\<close> are options. The adapter's own state is the cache of
  instrument specs, carried beside the broker state. \<open>FillResult\<close> is defined here because the
  adapter builds it.
\<close>

section \<open>Environment\<close>

record broker_environment =
  be_env :: string
  be_token :: string
  be_account :: string
  be_url :: string

definition resolve_environment :: "secrets \<Rightarrow> broker_environment res" where
  "resolve_environment sec =
     (let env = lower (sec_get_nonempty sec ''OANDA_ENV'' ''practice'') in
      if env = ''live'' then
        (case (sec_get sec ''OANDA_LIVE_API_KEY'', sec_get sec ''OANDA_LIVE_ACCOUNT_ID'') of
           (Some (c # token), Some (d # account)) \<Rightarrow>
             Inr \<lparr>be_env = ''live'', be_token = c # token, be_account = d # account,
               be_url = sec_get_or sec ''OANDA_LIVE_URL'' ''https://api-fxtrade.oanda.com''\<rparr>
         | _ \<Rightarrow> Inl LiveConfigError)
      else ebind (sec_require sec ''OANDA_PRACTICE_API_KEY'') (\<lambda>token.
           ebind (sec_require sec ''OANDA_PRACTICE_ACCOUNT_ID'') (\<lambda>account.
             Inr \<lparr>be_env = ''practice'', be_token = token, be_account = account,
               be_url = sec_get_or sec ''OANDA_PRACTICE_URL'' ''https://api-fxpractice.oanda.com''\<rparr>)))"

section \<open>Transport, adapter, results\<close>

record 'b transport =
  tr_create :: "pyval \<Rightarrow> ('b, pyval) act"
  tr_open_trades :: "('b, pyval) act"
  tr_trade :: "string \<Rightarrow> ('b, pyval) act"
  tr_modify :: "string \<Rightarrow> pyfloat \<Rightarrow> string \<Rightarrow> ('b, pyval) act"
  tr_close :: "string \<Rightarrow> ('b, pyval) act"
  tr_summary :: "('b, pyval) act"
  tr_pricing :: "(string list \<Rightarrow> ('b, pyval) act) option"
  tr_instruments :: "(string list \<Rightarrow> ('b, pyval) act) option"
  tr_transactions :: "(int \<Rightarrow> ('b, pyval) act) option"
  tr_sleep :: "pyfloat \<Rightarrow> 'b \<Rightarrow> 'b"

record adapter =
  ad_price_max_age :: pyfloat
  ad_slippage_tol :: pyfloat
  ad_retry_max :: int
  ad_backoff :: pyfloat

type_synonym spec_cache = "(string \<times> InstrumentSpec) list"
type_synonym 'b ad_state = "'b \<times> spec_cache"

record fill_result =
  fr_status :: string
  fr_units :: pyfloat
  fr_order_id :: "string option"
  fr_trade_id :: "string option"
  fr_requested :: "pyfloat option"
  fr_price :: "pyfloat option"
  fr_time :: pyval
  fr_slippage :: "pyfloat option"
  fr_sl :: "pyfloat option"
  fr_tp :: "pyfloat option"
  fr_reason :: pyval
  fr_model_set :: "string option"

text \<open>A transport call leaves the cache alone.\<close>

definition on_broker :: "('b, 'a) act \<Rightarrow> ('b ad_state, 'a) act" where
  "on_broker m s = (case m (fst s) of (b, r) \<Rightarrow> ((b, snd s), r))"

text \<open>Iterating a reply: a falsy one is replaced by the empty list first.\<close>

fun iter_or_empty :: "pyval \<Rightarrow> pyval list res" where
  "iter_or_empty (VList xs) = Inr xs"
| "iter_or_empty (VDict d) = Inr (map (VStr \<circ> fst) d)"
| "iter_or_empty (VStr s) = Inr (map (\<lambda>c. VStr [c]) s)"
| "iter_or_empty v = (if truthy v then Inl TypeError else Inr [])"

section \<open>Instrument specs\<close>

fun cache_specs :: "pyval list \<Rightarrow> spec_cache \<Rightarrow> spec_cache \<times> unit res" where
  "cache_specs [] c = (c, Inr ())"
| "cache_specs (row # rows) c = (case spec_from_broker_row row of
      Inl e \<Rightarrow> if e = KeyError \<or> isa_TypeOrValue e then cache_specs rows c else (c, Inl e)
    | Inr spec \<Rightarrow> cache_specs rows (AList.update (upper (is_name spec)) spec c))"

definition store_specs :: "pyval list \<Rightarrow> ('b ad_state, unit) act" where
  "store_specs rows s = (case cache_specs rows (snd s) of (c, r) \<Rightarrow> ((fst s, c), r))"

text \<open>A failed lookup degrades to \<open>None\<close> and is not cached.\<close>

definition instrument_spec :: "'b transport \<Rightarrow> string \<Rightarrow> ('b ad_state, InstrumentSpec option) act" where
  "instrument_spec tr instrument s = (let key = upper instrument in
     case map_of (snd s) key of Some spec \<Rightarrow> (s, Inr (Some spec))
     | None \<Rightarrow> (case tr_instruments tr of None \<Rightarrow> (s, Inr None)
       | Some fetch \<Rightarrow>
           sbind (scatch (\<lambda>_. True) (sbind (on_broker (fetch [key])) (\<lambda>v. sret (Some v))) (\<lambda>_. sret None)) (\<lambda>r.
             case r of None \<Rightarrow> sret None
             | Some v \<Rightarrow> sbind (slift (iter_or_empty v)) (\<lambda>rows.
                 sbind (store_specs rows) (\<lambda>_ s1. (s1, Inr (map_of (snd s1) key))))) s))"

definition display_precision :: "'b transport \<Rightarrow> string \<Rightarrow> ('b ad_state, int) act" where
  "display_precision tr instrument = sbind (instrument_spec tr instrument) (\<lambda>r.
     sret (case r of Some spec \<Rightarrow> is_precision spec | None \<Rightarrow> default_display_precision instrument))"

section \<open>Reference price\<close>

fun pick_quote :: "adapter \<Rightarrow> instant \<Rightarrow> string \<Rightarrow> string \<Rightarrow> pyval list \<Rightarrow> pyfloat option res" where
  "pick_quote ad now instrument side [] = Inr None"
| "pick_quote ad now instrument side (row # rows) =
     ebind (reference_price_from_broker_row row) (\<lambda>q. case q of
         None \<Rightarrow> pick_quote ad now instrument side rows
       | Some quote \<Rightarrow>
           if upper (rp_instrument quote) \<notin> {[], upper instrument} then pick_quote ad now instrument side rows
           else (case rp_age_sec quote now of
               Some age \<Rightarrow> if fl_less (ad_price_max_age ad) age then Inr None else Inr (Some (rp_for_side quote side))
             | None \<Rightarrow> Inr (Some (rp_for_side quote side))))"

definition reference_price :: "'b transport \<Rightarrow> adapter \<Rightarrow> instant \<Rightarrow> string \<Rightarrow> string \<Rightarrow> ('b ad_state, pyfloat option) act" where
  "reference_price tr ad now instrument side = (case tr_pricing tr of None \<Rightarrow> sret None
     | Some fetch \<Rightarrow>
         sbind (scatch (\<lambda>_. True) (sbind (on_broker (fetch [instrument])) (\<lambda>v. sret (Some v))) (\<lambda>_. sret None)) (\<lambda>r.
           case r of None \<Rightarrow> sret None
           | Some v \<Rightarrow> sbind (slift (iter_or_empty v)) (\<lambda>rows. slift (pick_quote ad now instrument side rows))))"

definition price_fn :: "'b transport \<Rightarrow> adapter \<Rightarrow> instant \<Rightarrow> approved_order \<Rightarrow> ('b ad_state, pyfloat option) act" where
  "price_fn tr ad now ord = reference_price tr ad now (ao_instrument ord) (ao_side ord)"

section \<open>Order payload\<close>

definition order_payload :: "constructed_order \<Rightarrow> int \<Rightarrow> int \<times> nat \<Rightarrow> int \<times> nat \<Rightarrow> pyval" where
  "order_payload c units sl tp = (let cid = client_order_id (co_key c) in
     VDict [(''order'', VDict [(''type'', VStr ''MARKET''), (''instrument'', VStr (co_instrument c)),
       (''units'', VStr (int_str units)), (''timeInForce'', VStr ''FOK''), (''positionFill'', VStr ''DEFAULT''),
       (''clientExtensions'', VDict [(''id'', VStr cid)]), (''tradeClientExtensions'', VDict [(''id'', VStr cid)]),
       (''stopLossOnFill'', VDict [(''price'', VStr (dec_format sl))]),
       (''takeProfitOnFill'', VDict [(''price'', VStr (dec_format tp))])])])"

definition payload_of :: "constructed_order \<Rightarrow> int \<Rightarrow> pyval res" where
  "payload_of c decimals =
     ebind (quantize_price (co_sl c) (co_instrument c) (Some decimals) (Some (co_entry c))) (\<lambda>sl.
     ebind (quantize_price (co_tp c) (co_instrument c) (Some decimals) (Some (co_entry c))) (\<lambda>tp.
     ebind (assert_protective_prices (if upper (co_side c) = ''BUY'' then 1 else -1) (co_entry c)
              (VFloat (dec_float sl)) (VFloat (dec_float tp))) (\<lambda>_.
     ebind (fl_to_int (co_units c)) (\<lambda>units. Inr (order_payload c units sl tp)))))"

definition build_payload :: "'b transport \<Rightarrow> constructed_order \<Rightarrow> ('b ad_state, pyval) act" where
  "build_payload tr c = sbind (display_precision tr (co_instrument c)) (\<lambda>decimals. slift (payload_of c decimals))"

section \<open>Results\<close>

definition ad_reject :: "constructed_order \<Rightarrow> pyfloat \<Rightarrow> string option \<Rightarrow> pyval \<Rightarrow> string \<Rightarrow> fill_result" where
  "ad_reject c expected msid reason status = \<lparr>fr_status = status, fr_units = Fin 0, fr_order_id = None,
     fr_trade_id = None, fr_requested = Some expected, fr_price = None, fr_time = VNone, fr_slippage = None,
     fr_sl = Some (co_sl c), fr_tp = Some (co_tp c), fr_reason = reason, fr_model_set = msid\<rparr>"

definition protective_price_of :: "pyval \<Rightarrow> pyfloat option res" where
  "protective_price_of v = (if \<not> truthy v then Inr None
     else ebind (vget v ''price'') (\<lambda>p. if truthy p then emap Some (py_float p) else Inr None))"

definition confirm_on_trade :: "'b transport \<Rightarrow> constructed_order \<Rightarrow> string \<Rightarrow> pyval \<Rightarrow>
    ('b, pyfloat option \<times> pyfloat option \<times> bool) act" where
  "confirm_on_trade tr c trade_id trade =
     (if \<not> truthy trade then sret (Some (co_sl c), Some (co_tp c), False)
      else sbind (slift (vget trade ''state'')) (\<lambda>st.
        if upper (py_str (or_else st (VStr ''OPEN''))) \<noteq> ''OPEN'' then sret (None, None, False)
        else sbind (slift (vget trade ''stopLossOrder'')) (\<lambda>slo. sbind (slift (vget trade ''takeProfitOrder'')) (\<lambda>tpo.
          sbind (slift (protective_price_of slo)) (\<lambda>sl. sbind (slift (protective_price_of tpo)) (\<lambda>tp.
            let tp_or = (case tp of None \<Rightarrow> Some (co_tp c) | Some x \<Rightarrow> Some x) in
            case sl of Some p \<Rightarrow> sret (Some p, tp_or, False)
            | None \<Rightarrow> scatch isa_Broker
                (sbind (tr_modify tr trade_id (co_sl c) (co_instrument c)) (\<lambda>_. sret (Some (co_sl c), tp_or, False)))
                (\<lambda>_. sret (None, tp, True))))))))"

definition confirm_stops :: "'b transport \<Rightarrow> constructed_order \<Rightarrow> string \<Rightarrow> pyval option \<Rightarrow>
    ('b, pyfloat option \<times> pyfloat option \<times> bool) act" where
  "confirm_stops tr c trade_id trade =
     (if trade_id = [] then sret (Some (co_sl c), Some (co_tp c), False)
      else case trade of Some t \<Rightarrow> confirm_on_trade tr c trade_id t
      | None \<Rightarrow> sbind (scatch isa_Broker (tr_trade tr trade_id) (\<lambda>_. sret VNone)) (confirm_on_trade tr c trade_id))"

definition slippage_reason :: "adapter \<Rightarrow> pyfloat \<Rightarrow> string" where
  "slippage_reason ad slip = (if fl_less (ad_slippage_tol ad) (fl_abs slip)
     then ''SLIPPAGE_EXCEEDED:'' @ float_str slip @ ''pips>'' @ float_str (ad_slippage_tol ad) else [])"

definition flag_reason :: "string \<Rightarrow> bool \<Rightarrow> pyval" where
  "flag_reason r unsafe = (let r' = (if unsafe then (if r = [] then [] else r @ ''; '') @ ''NO_STOP_UNSAFE'' else r)
     in if r' = [] then VNone else VStr r')"

text \<open>\<open>_finalize\<close> with a known fill price, which is how both callers use it.\<close>

definition finalize :: "'b transport \<Rightarrow> adapter \<Rightarrow> constructed_order \<Rightarrow> pyfloat \<Rightarrow> string option \<Rightarrow> string \<Rightarrow> pyfloat \<Rightarrow>
    string \<Rightarrow> string \<Rightarrow> pyfloat \<Rightarrow> pyval \<Rightarrow> pyval option \<Rightarrow> ('b, fill_result) act" where
  "finalize tr ad c expected msid status units order_id trade_id price time trade =
     sbind (slift (compute_slippage_pips expected price (co_instrument c))) (\<lambda>slip.
     sbind (confirm_stops tr c trade_id trade) (\<lambda>(sl, tp, unsafe).
       sret \<lparr>fr_status = status, fr_units = units, fr_order_id = Some order_id, fr_trade_id = Some trade_id,
         fr_requested = Some expected, fr_price = Some price, fr_time = time, fr_slippage = Some slip,
         fr_sl = sl, fr_tp = tp, fr_reason = flag_reason (slippage_reason ad slip) unsafe, fr_model_set = msid\<rparr>))"

definition unfilled_result :: "constructed_order \<Rightarrow> pyfloat \<Rightarrow> string option \<Rightarrow> pyval \<Rightarrow> fill_result res" where
  "unfilled_result c expected msid resp = ebind (vget resp ''orderCancelTransaction'') (\<lambda>ct.
     let cancel = or_else ct (VDict []) in
     ebind (vget_or cancel ''reason'' (VStr ''NOT_FILLED'')) (\<lambda>reason.
       Inr (ad_reject c expected msid reason (if truthy cancel then ''CANCELLED'' else ''REJECTED''))))"

definition build_fill_result :: "'b transport \<Rightarrow> adapter \<Rightarrow> constructed_order \<Rightarrow> pyval \<Rightarrow> pyfloat \<Rightarrow> string option \<Rightarrow>
    ('b, fill_result) act" where
  "build_fill_result tr ad c resp expected msid =
     sbind (slift (vget resp ''orderFillTransaction'')) (\<lambda>fill.
       if \<not> truthy fill then slift (unfilled_result c expected msid resp)
       else sbind (slift (ebind (vindex fill ''price'') py_float)) (\<lambda>price.
         sbind (slift (emap fl_abs (ebind (vget_or fill ''units'' (VFloat (co_units c))) py_float))) (\<lambda>units.
         sbind (slift (vget fill ''tradeOpened'')) (\<lambda>opened.
         sbind (slift (vget_or fill ''id'' (VStr []))) (\<lambda>fid.
         sbind (slift (vget_or (or_else opened (VDict [])) ''tradeID'' fid)) (\<lambda>tid.
         sbind (slift (vget_or fill ''orderID'' fid)) (\<lambda>oid.
         sbind (slift (vget fill ''time'')) (\<lambda>time.
           finalize tr ad c expected msid (if fl_less units (fl_abs (co_units c)) then ''PARTIAL'' else ''FILLED'')
             units (py_str oid) (py_str tid) price time None))))))))"

section \<open>Reconcile and submit\<close>

fun reconcile_loop :: "'b transport \<Rightarrow> adapter \<Rightarrow> string \<Rightarrow> constructed_order \<Rightarrow> pyfloat \<Rightarrow> string option \<Rightarrow> pyval list \<Rightarrow>
    ('b, fill_result option \<times> bool) act" where
  "reconcile_loop tr ad cid c expected msid [] = sret (None, True)"
| "reconcile_loop tr ad cid c expected msid (t # ts) =
     sbind (slift (ebind (vget t ''clientExtensions'') (\<lambda>x. vget (or_else x (VDict [])) ''id''))) (\<lambda>ext.
       if ext \<noteq> VStr cid then reconcile_loop tr ad cid c expected msid ts
       else sbind (slift (ebind (vget_or t ''price'' (VFloat expected)) py_float)) (\<lambda>price.
         sbind (slift (emap fl_abs (ebind (vget_or t ''currentUnits'' (VFloat (co_units c))) py_float))) (\<lambda>units.
         sbind (slift (vget_or t ''id'' (VStr []))) (\<lambda>i.
         sbind (slift (vget t ''openTime'')) (\<lambda>time.
         sbind (finalize tr ad c expected msid ''FILLED'' units (py_str i) (py_str i) price time (Some t)) (\<lambda>f.
           sret (Some f, True)))))))"

definition reconcile :: "'b transport \<Rightarrow> adapter \<Rightarrow> string \<Rightarrow> constructed_order \<Rightarrow> pyfloat \<Rightarrow> string option \<Rightarrow>
    ('b, fill_result option \<times> bool) act" where
  "reconcile tr ad cid c expected msid =
     sbind (scatch isa_Broker (sbind (tr_open_trades tr) (\<lambda>v. sret (Some v))) (\<lambda>_. sret None)) (\<lambda>r.
       case r of None \<Rightarrow> sret (None, False)
       | Some v \<Rightarrow> sbind (slift (case v of VList ts \<Rightarrow> Inr ts | VDict d \<Rightarrow> Inr (map (VStr \<circ> fst) d)
             | VStr cs \<Rightarrow> Inr (map (\<lambda>ch. VStr [ch]) cs) | _ \<Rightarrow> Inl TypeError)) (reconcile_loop tr ad cid c expected msid))"

definition RECONCILE_TRANSACTION_WINDOW :: int where "RECONCILE_TRANSACTION_WINDOW = 200"

text \<open>\<open>_prior_submission\<close>: the result that already exists, if any, and whether the broker could be
  asked at all.\<close>

definition prior_submission :: "'b transport \<Rightarrow> adapter \<Rightarrow> string \<Rightarrow> constructed_order \<Rightarrow> pyfloat \<Rightarrow> string option \<Rightarrow>
    ('b, fill_result option \<times> bool) act" where
  "prior_submission tr ad cid c expected msid = (case tr_transactions tr of
      None \<Rightarrow> reconcile tr ad cid c expected msid
    | Some fetch \<Rightarrow>
        sbind (scatch (\<lambda>_. True) (sbind (fetch RECONCILE_TRANSACTION_WINDOW) (\<lambda>v. sret (Some v))) (\<lambda>_. sret None)) (\<lambda>r.
          case r of None \<Rightarrow> sret (None, False)
          | Some v \<Rightarrow> sbind (slift (ebind (iter_or_empty v) (\<lambda>txns. prior_submission_verdict txns cid))) (\<lambda>verdict.
              case verdict of
                PRIOR_FILLED txn \<Rightarrow> sbind (build_fill_result tr ad c (VDict [(''orderFillTransaction'', txn)]) expected msid)
                  (\<lambda>f. sret (Some f, True))
              | PRIOR_PENDING \<Rightarrow> sret (None, False)
              | _ \<Rightarrow> sret (None, True))))"

text \<open>The attempts left and the number of the current one. With no attempt left the response is still
  \<open>None\<close> and the assertion after the loop fails.\<close>

fun submit_loop :: "'b transport \<Rightarrow> adapter \<Rightarrow> string \<Rightarrow> constructed_order \<Rightarrow> pyfloat \<Rightarrow> string option \<Rightarrow> pyval \<Rightarrow>
    nat \<Rightarrow> int \<Rightarrow> ('b, fill_result) act" where
  "submit_loop tr ad cid c expected msid payload 0 attempt = sraise AssertionError"
| "submit_loop tr ad cid c expected msid payload (Suc k) attempt = (\<lambda>b.
     case tr_create tr payload b of
       (b1, Inr resp) \<Rightarrow> build_fill_result tr ad c resp expected msid b1
     | (b1, Inl e) \<Rightarrow>
         if e = MarketClosedError then (b1, Inr (ad_reject c expected msid (VStr ''MARKET_CLOSED'') ''CANCELLED''))
         else if isa_TransientBroker e then
           sbind (prior_submission tr ad cid c expected msid) (\<lambda>(reconciled, verified).
             case reconciled of Some f \<Rightarrow> sret f
             | None \<Rightarrow> if \<not> verified then sraise ReconcileUnavailableError
                 else if ad_retry_max ad \<le> attempt then sraise e
                 else (\<lambda>b2. submit_loop tr ad cid c expected msid payload k (attempt + 1)
                         (tr_sleep tr (fl_mul (ad_backoff ad) (Fin (of_int attempt))) b2))) b1
         else (b1, Inl e))"

definition submit_verified :: "'b transport \<Rightarrow> adapter \<Rightarrow> constructed_order \<Rightarrow> pyfloat \<Rightarrow> string option \<Rightarrow> pyval \<Rightarrow>
    ('b, fill_result) act" where
  "submit_verified tr ad c expected msid payload = (let cid = client_order_id (co_key c) in
     sbind (prior_submission tr ad cid c expected msid) (\<lambda>(prior, verified).
       case prior of Some f \<Rightarrow> sret f
       | None \<Rightarrow> if \<not> verified then sraise ReconcileUnavailableError
           else submit_loop tr ad cid c expected msid payload (nat (ad_retry_max ad)) 1))"

definition submit :: "'b transport \<Rightarrow> adapter \<Rightarrow> constructed_order \<Rightarrow> pyfloat option \<Rightarrow> string option \<Rightarrow>
    ('b ad_state, fill_result) act" where
  "submit tr ad c expected_price msid =
     (let expected = (case expected_price of Some p \<Rightarrow> p | None \<Rightarrow> co_entry c) in
      sbind (build_payload tr c) (\<lambda>payload. on_broker (submit_verified tr ad c expected msid payload)))"

section \<open>Position helpers\<close>

definition modify_stop :: "'b transport \<Rightarrow> string \<Rightarrow> pyval \<Rightarrow> string \<Rightarrow> ('b, pyval) act" where
  "modify_stop tr trade_id price instrument =
     (if price = VNone then sraise InvalidOrderError
      else sbind (slift (py_float price)) (\<lambda>x.
        if \<not> fl_less (Fin 0) x then sraise InvalidOrderError else tr_modify tr trade_id x instrument))"

definition close_trade :: "'b transport \<Rightarrow> string \<Rightarrow> ('b, pyval) act" where
  "close_trade tr trade_id = tr_close tr trade_id"

definition get_account_summary :: "'b transport \<Rightarrow> ('b, pyval) act" where
  "get_account_summary tr = tr_summary tr"

end
