(* ===== verification/Pipeline_Laws.thy ===== *)
theory Pipeline_Laws
  imports Pipeline
begin

text \<open>
  What the slim pipeline guarantees: the shape of every constructed order, the gates in front of a
  submission, and that a filled order is never submitted twice.
\<close>

section \<open>Prices\<close>

lemma require_market_price_Inr: "require_market_price v = Inr p \<longleftrightarrow>
    v \<noteq> VNone \<and> py_float v = Inr p \<and> is_finite p \<and> fl_less (Fin 0) p"
  by (cases p) (auto simp: require_market_price_def fl_le_def split: sum.splits if_splits)

lemma require_market_price_Float: "require_market_price (VFloat x) = Inl e \<Longrightarrow> e = NoMarketPriceError"
  by (auto simp: require_market_price_def split: if_splits)

lemma positive_price_Float: "positive_price (VFloat x) = Inr y \<longleftrightarrow> y = x \<and> is_finite x \<and> fl_less (Fin 0) x"
  by (cases x) (auto simp: positive_price_def fl_le_def)

text \<open>The protective prices an order may carry for its direction and entry.\<close>

definition protective :: "int \<Rightarrow> pyfloat \<Rightarrow> pyfloat \<Rightarrow> pyfloat \<Rightarrow> bool" where
  "protective dir entry sl tp \<longleftrightarrow> is_finite sl \<and> is_finite tp \<and> fl_less (Fin 0) sl \<and> fl_less (Fin 0) tp
     \<and> (if dir = 1 then fl_less sl entry \<and> fl_less entry tp else fl_less entry sl \<and> fl_less tp entry)"

lemma assert_protective_prices_iff:
  assumes "is_finite entry"
  shows "assert_protective_prices dir entry (VFloat s) (VFloat t) = Inr (s', t') \<longleftrightarrow>
    s' = s \<and> t' = t \<and> protective dir entry s t"
  using assms
  by (cases s; cases t; cases entry)
     (auto simp: assert_protective_prices_def res_iffs positive_price_Float protective_def fl_le_def)

lemma atr_stops_legacy: "atr_stops dir entry atr a b = Inr st \<Longrightarrow> st = legacy_atr_risk_parameters dir entry atr a b"
  by (auto simp: atr_stops_def legacy_atr_risk_parameters_def Let_def split: if_splits)

definition requested_stops :: "approved_order \<Rightarrow> pyfloat \<Rightarrow> pyfloat \<times> pyfloat" where
  "requested_stops ord price = (case (rc_sl (ao_rc ord), rc_tp (ao_rc ord)) of
      (Some s, Some t) \<Rightarrow> (s, t)
    | _ \<Rightarrow> legacy_atr_risk_parameters (direction ord) price (rc_atr (ao_rc ord)) DEFAULT_ATR_MULTIPLIER_SL DEFAULT_ATR_MULTIPLIER_TP)"

lemma build_order_Inr:
  assumes "build_order ord v = Inr c"
  shows "py_float v = Inr (co_entry c)" "is_finite (co_entry c)" "fl_less (Fin 0) (co_entry c)"
    "(co_sl c, co_tp c) = requested_stops ord (co_entry c)"
    "protective (direction ord) (co_entry c) (co_sl c) (co_tp c)"
    "co_units c = ao_units ord" "co_key c = ao_key ord" "co_instrument c = ao_instrument ord"
    "co_side c = ao_side ord" "co_corr c = ao_corr ord" "co_atr c = rc_atr (ao_rc ord)"
proof -
  from assms obtain price st sl tp where p: "require_market_price v = Inr price"
    and st: "(case (rc_sl (ao_rc ord), rc_tp (ao_rc ord)) of (Some s, Some t) \<Rightarrow> Inr (s, t)
       | _ \<Rightarrow> atr_stops (direction ord) price (rc_atr (ao_rc ord)) DEFAULT_ATR_MULTIPLIER_SL DEFAULT_ATR_MULTIPLIER_TP) = Inr st"
    and a: "assert_protective_prices (direction ord) price (VFloat (fst st)) (VFloat (snd st)) = Inr (sl, tp)"
    and c: "c = \<lparr>co_key = ao_key ord, co_corr = ao_corr ord, co_instrument = ao_instrument ord,
         co_side = ao_side ord, co_units = ao_units ord, co_entry = price, co_sl = sl, co_tp = tp,
         co_atr = rc_atr (ao_rc ord), co_rr = DEFAULT_RR_RATIO\<rparr>"
    by (auto simp: build_order_def Let_def ebind_Inr_iff)
  have fin: "is_finite price" using p by (simp add: require_market_price_Inr)
  have st': "st = requested_stops ord price"
    using st by (auto simp: requested_stops_def dest: atr_stops_legacy split: option.splits)
  have prot: "sl = fst st \<and> tp = snd st \<and> protective (direction ord) price (fst st) (snd st)"
    using a assert_protective_prices_iff [OF fin] by auto
  show "py_float v = Inr (co_entry c)" "is_finite (co_entry c)" "fl_less (Fin 0) (co_entry c)"
    "(co_sl c, co_tp c) = requested_stops ord (co_entry c)"
    "protective (direction ord) (co_entry c) (co_sl c) (co_tp c)"
    "co_units c = ao_units ord" "co_key c = ao_key ord" "co_instrument c = ao_instrument ord"
    "co_side c = ao_side ord" "co_corr c = ao_corr ord" "co_atr c = rc_atr (ao_rc ord)"
    using p prot st' by (auto simp: c require_market_price_Inr)
qed


lemma build_order_cases:
  assumes "require_market_price v = Inr price"
  shows "build_order ord v =
    (if ((rc_sl (ao_rc ord) = None \<or> rc_tp (ao_rc ord) = None) \<and> fl_le (rc_atr (ao_rc ord)) (Fin 0))
        \<or> \<not> protective (direction ord) price (fst (requested_stops ord price)) (snd (requested_stops ord price))
     then Inl InvalidOrderError
     else Inr \<lparr>co_key = ao_key ord, co_corr = ao_corr ord, co_instrument = ao_instrument ord,
         co_side = ao_side ord, co_units = ao_units ord, co_entry = price,
         co_sl = fst (requested_stops ord price), co_tp = snd (requested_stops ord price),
         co_atr = rc_atr (ao_rc ord), co_rr = DEFAULT_RR_RATIO\<rparr>)"
proof -
  have fin: "is_finite price" using assms by (simp add: require_market_price_Inr)
  have err: "assert_protective_prices d price (VFloat s) (VFloat t) = Inl InvalidOrderError"
    if "\<not> protective d price s t" for d s t
  proof (cases "assert_protective_prices d price (VFloat s) (VFloat t)")
    case (Inl e)
    then show ?thesis
      by (auto simp: assert_protective_prices_def positive_price_def ebind_Inl_iff split: if_splits)
  next
    case (Inr p)
    with that show ?thesis using assert_protective_prices_iff [OF fin] by (cases p) auto
  qed
  have ok: "assert_protective_prices d price (VFloat s) (VFloat t) = Inr (s, t)" if "protective d price s t" for d s t
    using that assert_protective_prices_iff [OF fin] by simp
  have atr: "atr_stops d price a m n = (if fl_le a (Fin 0) then Inl InvalidOrderError
     else if (case legacy_atr_risk_parameters d price a m n of (s, t) \<Rightarrow> if d = 1 then fl_le price s \<or> fl_le t price
        else fl_le s price \<or> fl_le price t) then Inl InvalidOrderError else Inr (legacy_atr_risk_parameters d price a m n))"
    for d a m n
    by (auto simp: atr_stops_def legacy_atr_risk_parameters_def Let_def fl_le_def)
  show ?thesis
  proof (cases "rc_sl (ao_rc ord) = None \<or> rc_tp (ao_rc ord) = None")
    case False
    then obtain s t where st: "rc_sl (ao_rc ord) = Some s" "rc_tp (ao_rc ord) = Some t" by auto
    then show ?thesis
      using assms err ok by (simp add: build_order_def requested_stops_def)
  next
    case True
    then have r: "requested_stops ord price = legacy_atr_risk_parameters (direction ord) price (rc_atr (ao_rc ord))
        DEFAULT_ATR_MULTIPLIER_SL DEFAULT_ATR_MULTIPLIER_TP"
      by (auto simp: requested_stops_def split: option.splits)
    obtain s t where st: "legacy_atr_risk_parameters (direction ord) price (rc_atr (ao_rc ord))
        DEFAULT_ATR_MULTIPLIER_SL DEFAULT_ATR_MULTIPLIER_TP = (s, t)" by force
    have wrong: "\<not> protective (direction ord) price s t"
      if "if direction ord = 1 then fl_le price s \<or> fl_le t price else fl_le s price \<or> fl_le price t"
      using that fl_le_less_trans fl_less_irrefl unfolding protective_def by (metis (full_types))
    have eq: "build_order ord v = ebind (atr_stops (direction ord) price (rc_atr (ao_rc ord))
        DEFAULT_ATR_MULTIPLIER_SL DEFAULT_ATR_MULTIPLIER_TP) (\<lambda>(s, t).
     ebind (assert_protective_prices (direction ord) price (VFloat s) (VFloat t)) (\<lambda>(sl, tp).
       Inr \<lparr>co_key = ao_key ord, co_corr = ao_corr ord, co_instrument = ao_instrument ord,
         co_side = ao_side ord, co_units = ao_units ord, co_entry = price, co_sl = sl, co_tp = tp,
         co_atr = rc_atr (ao_rc ord), co_rr = DEFAULT_RR_RATIO\<rparr>))"
      using True assms by (auto simp: build_order_def Let_def split: option.splits)
    show ?thesis
    proof (cases "protective (direction ord) price s t")
      case p: True
      then show ?thesis unfolding eq atr r st using wrong ok [OF p] True by auto
    next
      case p: False
      then show ?thesis unfolding eq atr r st using True err [OF p] by auto
    qed
  qed
qed

lemma build_order_error: "build_order ord v = Inl e \<Longrightarrow> require_market_price v = Inl e \<or> e = InvalidOrderError"
proof (cases "require_market_price v")
  case (Inr p)
  assume "build_order ord v = Inl e"
  then show ?thesis unfolding build_order_cases [OF Inr] by (auto split: if_splits)
qed (simp add: build_order_def Let_def)


section \<open>The decision flow\<close>

text \<open>The gates in front of the submission, and what passing them all means.\<close>

definition admitted :: "'s processed_ops \<Rightarrow> pipeline \<Rightarrow> instant \<Rightarrow> approved_order \<Rightarrow> pyval \<Rightarrow> string list \<Rightarrow> 's \<Rightarrow>
    constructed_order \<Rightarrow> bool" where
  "admitted ops pl now ord entry open_list s c \<longleftrightarrow> pl_mode pl = EXECUTION_ONLY
     \<and> (\<forall>k \<in> set (guard_keys ord). \<not> pr_seen ops k s) \<and> is_in_session now \<and> build_order ord entry = Inr c
     \<and> int (length open_list) < pl_max_open pl \<and> ao_instrument ord \<notin> set open_list \<and> \<not> pl_shadow pl"

lemma exec_mode_exhaust [simp]: "m \<noteq> LEGACY \<longleftrightarrow> m = EXECUTION_ONLY"
  by (cases m) auto

definition submitted :: "'s processed_ops \<Rightarrow> ('w, 'f) hooks \<Rightarrow> approved_order \<Rightarrow> constructed_order \<Rightarrow> 's \<Rightarrow> 'w \<Rightarrow>
    ('s \<times> 'w) \<times> 'f outcome res \<Rightarrow> bool" where
  "submitted ops h ord c s w res \<longleftrightarrow> (\<exists>sub w1 fill w2 r. hk_submit h = Some sub \<and> sub c w = (w1, Inr fill)
     \<and> post_fill h c fill w1 = (w2, r)
     \<and> res = ((mark_all ops (guard_keys ord) s, w2),
          emap (\<lambda>u. \<lparr>out_decision = EXECUTED, out_order = Some c, out_fill = Some fill\<rparr>) r))"

text \<open>\<open>P\<close> is a fact about the world that validation and a failing submission keep.\<close>

definition quiet :: "('w \<Rightarrow> bool) \<Rightarrow> ('w, 'f) hooks \<Rightarrow> bool" where
  "quiet P h \<longleftrightarrow> (\<forall>v c w. hk_validate h = Some v \<and> P w \<longrightarrow> P (fst (v c w)))
     \<and> (\<forall>sub c w w' e. hk_submit h = Some sub \<and> P w \<and> sub c w = (w', Inl e) \<longrightarrow> P w')"

definition not_submitted :: "('w \<Rightarrow> bool) \<Rightarrow> 's \<Rightarrow> ('s \<times> 'w) \<times> 'f outcome res \<Rightarrow> bool" where
  "not_submitted P s res \<longleftrightarrow> fst (fst res) = s \<and> P (snd (fst res))
     \<and> (\<forall>oc. snd res = Inr oc \<longrightarrow> out_decision oc \<noteq> EXECUTED \<and> out_fill oc = None)"

lemma not_submitted_decided: "d \<noteq> EXECUTED \<Longrightarrow> P w \<Longrightarrow> not_submitted P s ((s, w), decided d oc)"
  by (simp add: not_submitted_def decided_def)

lemma not_submitted_error: "P w \<Longrightarrow> not_submitted P s ((s, w), Inl e)"
  by (simp add: not_submitted_def)

lemma submit_and_record_cases:
  assumes "quiet P h" "P w"
  shows "submitted ops h ord c s w (submit_and_record ops h ord c (s, w)) \<or>
   not_submitted P s (submit_and_record ops h ord c (s, w))"
proof (cases "hk_submit h")
  case None
  then show ?thesis using assms by (simp add: submit_and_record_def not_submitted_error)
next
  case (Some sub)
  obtain w1 r where sub: "sub c w = (w1, r)" by force
  show ?thesis
  proof (cases r)
    case (Inl e)
    with Some sub assms have "P w1" unfolding quiet_def by blast
    with Some sub Inl show ?thesis by (simp add: submit_and_record_def not_submitted_error)
  next
    case (Inr fill)
    obtain w2 r2 where "post_fill h c fill w1 = (w2, r2)" by force
    with Some sub Inr have "submitted ops h ord c s w (submit_and_record ops h ord c (s, w))"
      by (cases r2) (simp_all add: submit_and_record_def submitted_def)
    then show ?thesis ..
  qed
qed

text \<open>A run either leaves the store as it was and reports no execution, or passed every gate and
  submitted the order it built, with every guard key marked.\<close>

lemma process_cases:
  assumes "process ops pl h now ord entry open_list (s, w) = res" "quiet P h" "P w"
  shows "not_submitted P s res \<or> (\<exists>c w1. admitted ops pl now ord entry open_list s c
       \<and> (hk_validate h = None \<and> w1 = w \<or> (\<exists>v reason. hk_validate h = Some v \<and> v c w = (w1, Inr (True, reason))))
       \<and> submitted ops h ord c s w1 res)"
proof (cases "pl_mode pl = LEGACY \<or> list_ex (\<lambda>k. pr_seen ops k s) (guard_keys ord) \<or> \<not> is_in_session now")
  case True
  then have "res = ((s, w), decided DEFERRED_LEGACY None) \<or> res = ((s, w), decided SKIPPED_DUPLICATE None)
      \<or> res = ((s, w), decided REJECTED_OUT_OF_SESSION None)"
    using assms(1) by (auto simp: process_def split: if_splits)
  then show ?thesis using assms(3) by (auto simp: not_submitted_decided)
next
  case gates: False
  show ?thesis
  proof (cases "build_order ord entry")
    case (Inl e)
    then have "res = ((s, w), if isa_InvalidOrder e then decided REJECTED_INVALID None else Inl e)"
      using gates assms(1) by (auto simp: process_def)
    then show ?thesis using assms(3) by (auto simp: not_submitted_decided not_submitted_error)
  next
    case (Inr c)
    have av: "not_submitted P s (after_validation ops pl h ord open_list c (s, w1)) \<or>
       (admitted ops pl now ord entry open_list s c \<and> submitted ops h ord c s w1 (after_validation ops pl h ord open_list c (s, w1)))"
      if P1: "P w1" for w1
    proof (cases "guard_evaluate (pl_max_open pl) ord open_list \<and> \<not> pl_shadow pl")
      case True
      then have "admitted ops pl now ord entry open_list s c"
        using gates Inr by (auto simp: admitted_def guard_evaluate_def list_ex_iff split: if_splits)
      then show ?thesis
        using True submit_and_record_cases [OF assms(2) P1, of ops ord c s] by (auto simp: after_validation_def)
    next
      case False
      then show ?thesis using P1 by (auto simp: after_validation_def not_submitted_decided)
    qed
    show ?thesis
    proof (cases "hk_validate h")
      case None
      then have "res = after_validation ops pl h ord open_list c (s, w)"
        using gates Inr assms(1) by (auto simp: process_def)
      with av [of w] None assms(3) show ?thesis by auto
    next
      case (Some v)
      obtain w1 vr where v: "v c w = (w1, vr)" by force
      have P1: "P w1" using assms(2,3) Some v unfolding quiet_def by (metis fst_conv)
      show ?thesis
      proof (cases vr)
        case (Inl e)
        then have "res = ((s, w1), Inl e)" using gates \<open>build_order ord entry = Inr c\<close> Some v assms(1)
          by (auto simp: process_def)
        then show ?thesis using P1 by (simp add: not_submitted_error)
      next
        case (Inr p)
        then obtain ok reason where p: "vr = Inr (ok, reason)" by (cases p) auto
        have "res = (if \<not> ok then ((s, w1), decided REJECTED_VALIDATION (Some c))
            else after_validation ops pl h ord open_list c (s, w1))"
          using gates \<open>build_order ord entry = Inr c\<close> Some v p assms(1) by (auto simp: process_def)
        then show ?thesis using av [OF P1] P1 Some v p by (auto simp: not_submitted_decided)
      qed
    qed
  qed
qed

section \<open>Submission at most once\<close>

text \<open>A history of deliveries, each with the price, the clock and the open positions it saw, and
  the hooks made to record which approved orders the submission hook filled.\<close>

record request =
  rq_order :: approved_order
  rq_entry :: pyval
  rq_now :: instant
  rq_open :: "string list"

definition keep_log :: "('a \<Rightarrow> 'w \<Rightarrow> 'w \<times> 'r) \<Rightarrow> 'a \<Rightarrow> 'w \<times> 'l \<Rightarrow> ('w \<times> 'l) \<times> 'r" where
  "keep_log f a wl = (case f a (fst wl) of (w, r) \<Rightarrow> ((w, snd wl), r))"

definition log_fill :: "approved_order \<Rightarrow> (constructed_order \<Rightarrow> 'w \<Rightarrow> 'w \<times> 'f res) \<Rightarrow> constructed_order \<Rightarrow>
    'w \<times> approved_order list \<Rightarrow> ('w \<times> approved_order list) \<times> 'f res" where
  "log_fill ord f c wl = (case f c (fst wl) of
      (w, Inl e) \<Rightarrow> ((w, snd wl), Inl e) | (w, Inr x) \<Rightarrow> ((w, ord # snd wl), Inr x))"

definition logged :: "approved_order \<Rightarrow> ('w, 'f) hooks \<Rightarrow> ('w \<times> approved_order list, 'f) hooks" where
  "logged ord h = \<lparr>hk_validate = map_option keep_log (hk_validate h),
     hk_submit = map_option (log_fill ord) (hk_submit h),
     hk_persist = map_option (\<lambda>p c f. keep_log (\<lambda>_. p c f) ()) (hk_persist h),
     hk_emit = map_option (\<lambda>p c f. keep_log (\<lambda>_. p c f) ()) (hk_emit h)\<rparr>"

definition run_request :: "'s processed_ops \<Rightarrow> pipeline \<Rightarrow> ('w, 'f) hooks \<Rightarrow> request \<Rightarrow>
    's \<times> 'w \<times> approved_order list \<Rightarrow> 's \<times> 'w \<times> approved_order list" where
  "run_request ops pl h r sw = fst (process ops pl (logged (rq_order r) h) (rq_now r) (rq_order r) (rq_entry r) (rq_open r) sw)"

definition run_requests :: "'s processed_ops \<Rightarrow> pipeline \<Rightarrow> ('w, 'f) hooks \<Rightarrow> request list \<Rightarrow>
    's \<times> 'w \<times> approved_order list \<Rightarrow> 's \<times> 'w \<times> approved_order list" where
  "run_requests ops pl h rs sw = fold (run_request ops pl h) rs sw"

definition fills_of_key :: "string \<Rightarrow> approved_order list \<Rightarrow> approved_order list" where
  "fills_of_key k l = filter (\<lambda>ord. k \<in> set (guard_keys ord)) l"

lemma keep_log_snd: "keep_log f a (w, l) = (wl', r) \<Longrightarrow> snd wl' = l"
  by (auto simp: keep_log_def split: prod.splits)

lemma post_fill_logged: "post_fill (logged ord h) c x (w, l) = (wl', r) \<Longrightarrow> snd wl' = l"
  by (cases "hk_persist h"; cases "hk_emit h")
     (auto simp: post_fill_def logged_def keep_log_def split: prod.splits sum.splits)


lemma quiet_logged: "quiet (\<lambda>wl. snd wl = l) (logged ord h)"
  by (auto simp: quiet_def logged_def keep_log_def log_fill_def split: prod.splits sum.splits)

definition log_inv :: "'s processed_ops \<Rightarrow> 's \<times> 'w \<times> approved_order list \<Rightarrow> bool" where
  "log_inv ops sw \<longleftrightarrow> (\<forall>ord \<in> set (snd (snd sw)). \<forall>k \<in> set (guard_keys ord). pr_seen ops k (fst sw))
     \<and> (\<forall>k. length (fills_of_key k (snd (snd sw))) \<le> 1)"

lemma log_inv_Nil: "log_inv ops (s, w, [])"
  by (simp add: log_inv_def fills_of_key_def)

lemma fills_of_key_empty: "(\<forall>ord \<in> set l. k \<notin> set (guard_keys ord)) \<Longrightarrow> fills_of_key k l = []"
  by (simp add: fills_of_key_def filter_empty_conv)

lemma log_fill_Inr: "log_fill ord f c (w, l) = (wl', Inr x) \<Longrightarrow> snd wl' = ord # l"
  by (auto simp: log_fill_def split: prod.splits sum.splits)

lemma process_logged_cases:
  assumes "process ops pl (logged ord h) now ord entry open_list (s, w, l) = ((s', wl'), out)"
  shows "s' = s \<and> snd wl' = l
    \<or> (\<exists>c. admitted ops pl now ord entry open_list s c \<and> s' = mark_all ops (guard_keys ord) s \<and> snd wl' = ord # l)"
proof -
  from process_cases [OF assms quiet_logged [of l]] consider
      "s' = s" "snd wl' = l"
    | c w1 where "admitted ops pl now ord entry open_list s c" "snd w1 = l"
        "submitted ops (logged ord h) ord c s w1 ((s', wl'), out)"
    by (auto simp: not_submitted_def logged_def dest!: keep_log_snd)
  then show ?thesis
  proof cases
    case (2 c w1)
    then obtain f w2 fill r2 where f: "log_fill ord f c w1 = (w2, Inr fill)"
      "post_fill (logged ord h) c fill w2 = (wl', r2)" "s' = mark_all ops (guard_keys ord) s"
      by (auto simp: submitted_def logged_def)
    have "snd w2 = ord # l" using f(1) 2(2) by (cases w1) (auto dest: log_fill_Inr)
    then have "snd wl' = ord # l" using f(2) by (cases w2) (auto dest: post_fill_logged)
    with 2(1) f(3) show ?thesis by blast
  qed simp
qed

context processed_store
begin

lemma log_inv_fill:
  assumes "log_inv ops (s, w, l)" "\<forall>k \<in> set (guard_keys ord). \<not> pr_seen ops k s"
  shows "log_inv ops (mark_all ops (guard_keys ord) s, w', ord # l)"
proof -
  have "length (fills_of_key k (ord # l)) \<le> 1" for k
  proof (cases "k \<in> set (guard_keys ord)")
    case True
    with assms have "fills_of_key k l = []"
      by (intro fills_of_key_empty) (auto simp: log_inv_def)
    then show ?thesis by (simp add: fills_of_key_def)
  next
    case False
    then show ?thesis using assms(1) by (simp add: log_inv_def fills_of_key_def)
  qed
  then show ?thesis using assms(1) by (auto simp: log_inv_def seen_mark_all)
qed

lemma log_inv_request:
  assumes "log_inv ops sw" shows "log_inv ops (run_request ops pl h r sw)"
proof -
  obtain s w l where sw: "sw = (s, w, l)" by (cases sw) auto
  obtain s' wl' out where res: "process ops pl (logged (rq_order r) h) (rq_now r) (rq_order r) (rq_entry r) (rq_open r) (s, w, l)
      = ((s', wl'), out)"
    by (cases "process ops pl (logged (rq_order r) h) (rq_now r) (rq_order r) (rq_entry r) (rq_open r) (s, w, l)") auto
  then have run: "run_request ops pl h r sw = (s', wl')" by (simp add: run_request_def sw)
  from process_logged_cases [OF res] show ?thesis
  proof (elim disjE conjE exE)
    assume "s' = s" "snd wl' = l"
    then have "run_request ops pl h r sw = (s, fst wl', l)" by (simp add: run prod_eq_iff)
    then show ?thesis using assms by (simp add: sw log_inv_def)
  next
    fix c assume c: "admitted ops pl (rq_now r) (rq_order r) (rq_entry r) (rq_open r) s c"
      "s' = mark_all ops (guard_keys (rq_order r)) s" "snd wl' = rq_order r # l"
    have "\<forall>k \<in> set (guard_keys (rq_order r)). \<not> pr_seen ops k s" using c(1) by (simp add: admitted_def)
    then show ?thesis
      using log_inv_fill [of s w l] assms c(2,3) unfolding run by (cases wl') (simp add: sw)
  qed
qed

lemma log_inv_requests: "log_inv ops sw \<Longrightarrow> log_inv ops (run_requests ops pl h rs sw)"
  unfolding run_requests_def
proof (induction rs arbitrary: sw)
  case (Cons r rs)
  from Cons.IH [OF log_inv_request [OF Cons.prems]] show ?case by simp
qed simp

lemma at_most_one_fill: "length (fills_of_key k (snd (snd (run_requests ops pl h rs (s, w, []))))) \<le> 1"
  using log_inv_requests [OF log_inv_Nil, of pl h rs s w] unfolding log_inv_def by blast

text \<open>A submitted order is never submitted again, whatever the hooks do afterwards.\<close>

lemma marked_is_duplicate:
  assumes "pl_mode pl = EXECUTION_ONLY"
  shows "process ops pl h now ord entry open_list (mark_all ops (guard_keys ord) s, w)
    = ((mark_all ops (guard_keys ord) s, w), decided SKIPPED_DUPLICATE None)"
proof -
  have "pr_seen ops (ao_key ord) (mark_all ops (guard_keys ord) s)" by (simp add: seen_mark_all guard_keys_def)
  then show ?thesis using assms by (simp add: process_def guard_keys_def)
qed

end


section \<open>Properties\<close>

text \<open>C16: Every order the pipeline constructs is protected. Its entry is the given market price,
  finite and positive; its stop and target are finite, positive and strictly on the loss and the
  profit side of that entry for the order's direction; and its size, key and instrument are those
  System 3 approved.\<close>

theorem constructed_order_is_protected:
  assumes "build_order ord entry = Inr c"
  shows "py_float entry = Inr (co_entry c) \<and> is_finite (co_entry c) \<and> fl_less (Fin 0) (co_entry c)
    \<and> protective (direction ord) (co_entry c) (co_sl c) (co_tp c)
    \<and> co_units c = ao_units ord \<and> co_key c = ao_key ord \<and> co_instrument c = ao_instrument ord \<and> co_side c = ao_side ord"
  using build_order_Inr [OF assms] by simp

definition wit_order :: approved_order where
  "wit_order = \<lparr>ao_key = ''k1'', ao_corr = ''c1'', ao_instrument = ''USD_JPY'', ao_side = ''BUY'', ao_units = Fin 1000,
     ao_gran = ''H1'', ao_rc = \<lparr>rc_atr = Fin 2, rc_sl = None, rc_tp = None\<rparr>, ao_signal = VInt 7, ao_strategy = VNone,
     ao_decision_id = VNone, ao_created = VNone, ao_schema = ''1'', ao_message = VNone\<rparr>"

definition wit_constructed :: constructed_order where
  "wit_constructed = \<lparr>co_key = ''k1'', co_corr = ''c1'', co_instrument = ''USD_JPY'', co_side = ''BUY'', co_units = Fin 1000,
     co_entry = Fin 150, co_sl = Fin 148, co_tp = Fin 156, co_atr = Fin 2, co_rr = Fin 3\<rparr>"

lemmas wit_build_simps = build_order_def wit_order_def wit_constructed_def require_market_price_def atr_stops_def
  direction_def assert_protective_prices_def positive_price_def DEFAULT_ATR_MULTIPLIER_SL_def
  DEFAULT_ATR_MULTIPLIER_TP_def DEFAULT_RR_RATIO_def Let_def b64_small

lemma wit_build: "build_order wit_order (VFloat (Fin 150)) = Inr wit_constructed"
  by (simp add: wit_build_simps)

theorem constructed_order_is_protected_witness:
  "protective 1 (Fin 150) (Fin 148) (Fin 156) \<and> co_units wit_constructed = Fin 1000"
  using constructed_order_is_protected [OF wit_build] by (simp add: wit_constructed_def wit_order_def direction_def)

text \<open>C36: Given a usable market price, construction succeeds exactly when the requested stops
  (System 3's pair when it sent both, the ATR formula otherwise) are protective and, for the ATR
  formula, the ATR is not zero or negative; every other case is \<open>InvalidOrderError\<close>.\<close>

theorem construction_accepts_exactly:
  assumes "require_market_price entry = Inr price"
  shows "build_order ord entry =
    (if ((rc_sl (ao_rc ord) = None \<or> rc_tp (ao_rc ord) = None) \<and> fl_le (rc_atr (ao_rc ord)) (Fin 0))
        \<or> \<not> protective (direction ord) price (fst (requested_stops ord price)) (snd (requested_stops ord price))
     then Inl InvalidOrderError
     else Inr \<lparr>co_key = ao_key ord, co_corr = ao_corr ord, co_instrument = ao_instrument ord,
         co_side = ao_side ord, co_units = ao_units ord, co_entry = price,
         co_sl = fst (requested_stops ord price), co_tp = snd (requested_stops ord price),
         co_atr = rc_atr (ao_rc ord), co_rr = DEFAULT_RR_RATIO\<rparr>)"
  by (rule build_order_cases [OF assms])

theorem construction_accepts_exactly_witness:
  "build_order (wit_order\<lparr>ao_rc := \<lparr>rc_atr = Fin 2, rc_sl = Some (Fin 151), rc_tp = Some (Fin 156)\<rparr>\<rparr>) (VFloat (Fin 150))
     = Inl InvalidOrderError"
proof -
  have "require_market_price (VFloat (Fin 150)) = Inr (Fin 150)" by (simp add: require_market_price_def)
  from construction_accepts_exactly [OF this] show ?thesis
    by (simp add: wit_order_def requested_stops_def protective_def direction_def)
qed

text \<open>Dual run. Without System-3 suggestions the slim pipeline's stop and target are the ones
  the legacy formula gives for the same direction, price and ATR, bit for bit.\<close>

theorem stops_match_legacy:
  assumes "build_order ord entry = Inr c" "rc_sl (ao_rc ord) = None \<or> rc_tp (ao_rc ord) = None"
  shows "(co_sl c, co_tp c) = legacy_atr_risk_parameters (direction ord) (co_entry c) (co_atr c) (Fin 1) (Fin 3)"
  using build_order_Inr(4,11) [OF assms(1)] assms(2)
  by (auto simp: requested_stops_def DEFAULT_ATR_MULTIPLIER_SL_def DEFAULT_ATR_MULTIPLIER_TP_def split: option.splits)

theorem stops_match_legacy_witness:
  "(Fin 148, Fin 156) = legacy_atr_risk_parameters 1 (Fin 150) (Fin 2) (Fin 1) (Fin 3)"
  using stops_match_legacy [OF wit_build] by (simp add: wit_order_def wit_constructed_def direction_def)

definition week_us :: "instant \<Rightarrow> int" where
  "week_us t = (t + 3 * us_per_day) mod (7 * us_per_day)"

text \<open>The trading session is open except from Friday 20:00 UTC to Sunday 22:00 UTC, one
  contiguous closed window per week.\<close>

theorem session_is_one_window:
  "is_in_session t \<longleftrightarrow> \<not> (4 * us_per_day + 20 * us_per_hour \<le> week_us t \<and> week_us t < 6 * us_per_day + 22 * us_per_hour)"
proof -
  define a where "a = weekday t"
  define h where "h = hour_of t"
  define r where "r = t mod us_per_day mod us_per_hour"
  have "(t + 3 * us_per_day) mod (us_per_day * 7) = us_per_day * ((t + 3 * us_per_day) div us_per_day mod 7)
      + (t + 3 * us_per_day) mod us_per_day"
    by (rule zmod_zmult2_eq) simp
  moreover have "(t + 3 * us_per_day) div us_per_day = t div us_per_day + 3" "(t + 3 * us_per_day) mod us_per_day = t mod us_per_day"
    subgoal by (simp add: us_per_day_def)
    subgoal by simp
    done
  ultimately have "week_us t = us_per_day * a + t mod us_per_day"
    by (simp add: week_us_def a_def weekday_def mult.commute)
  moreover have "t mod us_per_day = us_per_hour * h + r"
    by (simp add: h_def hour_of_def r_def)
  ultimately have w: "week_us t = 86400000000 * a + 3600000000 * h + r"
    by (simp add: us_per_day_def us_per_hour_def)
  have r: "0 \<le> r" "r < 3600000000" by (simp_all add: r_def us_per_hour_def)
  have ah: "0 \<le> a" "a < 7" "0 \<le> h" "h < 24" using weekday_range hour_range by (simp_all add: a_def h_def)
  have "is_in_session t = (if a = 5 then False else if a = 6 then 22 \<le> h else if a = 4 then h < 20 else True)"
    by (simp add: is_in_session_def a_def h_def)
  moreover define m where "m = 3600000000 * h + r"
  moreover have "h < 20 \<longleftrightarrow> m < 72000000000" "22 \<le> h \<longleftrightarrow> 79200000000 \<le> m"
    unfolding m_def using r by linarith+
  moreover have "0 \<le> m" "m < 86400000000" unfolding m_def using r ah by linarith+
  moreover have "week_us t = 86400000000 * a + m" by (simp add: w m_def)
  moreover consider "a < 4" | "a = 4" | "a = 5" | "a = 6" using ah(2) by linarith
  ultimately show ?thesis
    unfolding us_per_day_def us_per_hour_def by cases (simp_all, linarith+)
qed

text \<open>C2: A run of the pipeline that reports \<open>EXECUTED\<close> passed every gate: not in legacy or shadow
  mode, no guard key processed before, inside the session, an order constructed from a real price,
  the validation hook's consent, fewer open positions than the cap and none in the instrument.\<close>

theorem executed_passed_all_gates:
  assumes "process ops pl h now ord entry open_list (s, w) = ((s', w'), Inr oc)" "out_decision oc = EXECUTED"
  shows "\<exists>c. admitted ops pl now ord entry open_list s c \<and> out_order oc = Some c
    \<and> (\<forall>v. hk_validate h = Some v \<longrightarrow> (\<exists>w1 reason. v c w = (w1, Inr (True, reason))))
    \<and> s' = mark_all ops (guard_keys ord) s"
proof -
  have "quiet (\<lambda>_. True) h" by (simp add: quiet_def)
  from process_cases [OF assms(1) this TrueI] assms(2) obtain c w1 where
    "admitted ops pl now ord entry open_list s c"
    "hk_validate h = None \<and> w1 = w \<or> (\<exists>v reason. hk_validate h = Some v \<and> v c w = (w1, Inr (True, reason)))"
    "submitted ops h ord c s w1 ((s', w'), Inr oc)"
    by (auto simp: not_submitted_def)
  then show ?thesis by (intro exI [of _ c]) (auto simp: submitted_def emap_Inr_iff dest!: sym [of "Inr oc"])
qed

definition wit_hooks :: "(nat, string) hooks" where
  "wit_hooks = \<lparr>hk_validate = None, hk_submit = Some (\<lambda>c w. (Suc w, Inr ''fill'')),
     hk_persist = Some (\<lambda>c f w. (w, Inl SqliteError)), hk_emit = None\<rparr>"

definition wit_pipeline :: pipeline where
  "wit_pipeline = \<lparr>pl_mode = EXECUTION_ONLY, pl_shadow = False, pl_max_open = 8\<rparr>"

text \<open>Wednesday 2026-07-01 12:00 UTC.\<close>

definition wit_now :: instant where
  "wit_now = 1782907200000000"


lemma wit_process: "process in_memory_ops wit_pipeline (wit_hooks\<lparr>hk_persist := None\<rparr>) wit_now wit_order (VFloat (Fin 150))
    [] ({}, 0) = ((insert ''signal:7'' {''k1''}, 1), Inr \<lparr>out_decision = EXECUTED, out_order = Some wit_constructed, out_fill = Some ''fill''\<rparr>)"
proof -
  have "is_in_session wit_now" unfolding wit_now_def by code_simp
  moreover have "guard_keys wit_order = [''k1'', ''signal:7'']" unfolding wit_order_def by code_simp
  moreover have "ao_instrument wit_order = ''USD_JPY''" by (simp add: wit_order_def)
  ultimately show ?thesis
    by (simp add: process_def wit_pipeline_def wit_hooks_def wit_build in_memory_ops_def after_validation_def
        guard_evaluate_def submit_and_record_def post_fill_def mark_all_def Let_def)
qed

theorem executed_passed_all_gates_witness:
  "\<exists>c. admitted in_memory_ops wit_pipeline wit_now wit_order (VFloat (Fin 150)) [] {} c"
  using executed_passed_all_gates [OF wit_process] by auto


text \<open>At the witness the fill succeeds and writing the trade record then raises.\<close>

lemma wit_process_error: "process in_memory_ops wit_pipeline (logged wit_order wit_hooks) wit_now wit_order (VFloat (Fin 150))
    [] ({}, 0, []) = ((insert ''signal:7'' {''k1''}, 1, [wit_order]), Inl SqliteError)"
proof -
  have "is_in_session wit_now" unfolding wit_now_def by code_simp
  moreover have "guard_keys wit_order = [''k1'', ''signal:7'']" unfolding wit_order_def by code_simp
  moreover have "ao_instrument wit_order = ''USD_JPY''" by (simp add: wit_order_def)
  ultimately show ?thesis
    by (simp add: process_def wit_pipeline_def wit_hooks_def wit_build in_memory_ops_def after_validation_def logged_def
        log_fill_def keep_log_def guard_evaluate_def submit_and_record_def post_fill_def mark_all_def Let_def)
qed


text \<open>Shadow mode never reaches the broker: with the flag set, the result and the world are the
  same whatever the submission, recording and relay hooks are, and no key is marked.\<close>

theorem shadow_never_submits:
  assumes "pl_shadow pl"
  shows "process ops pl h now ord entry open_list (s, w)
      = process ops pl (h\<lparr>hk_submit := sub, hk_persist := per, hk_emit := em\<rparr>) now ord entry open_list (s, w)
    \<and> fst (fst (process ops pl h now ord entry open_list (s, w))) = s"
  using assms
  by (auto simp: process_def after_validation_def split: sum.splits option.splits prod.splits)

theorem shadow_never_submits_witness:
  "fst (fst (process in_memory_ops (wit_pipeline\<lparr>pl_shadow := True\<rparr>) wit_hooks wit_now wit_order (VFloat (Fin 150)) [] ({}, 0))) = {}"
  by (rule conjunct2 [OF shadow_never_submits]) simp

end
