(* ===== verification/Oanda_Laws.thy ===== *)
theory Oanda_Laws
  imports Oanda_Adapter Pipeline_Laws
begin

text \<open>
  What the broker adapter guarantees: the verdict on a transaction window, at most one fill per
  order key against a broker that keeps its history, fail-closed deferral, the directional snap of
  the protective prices, and the flag on a live position without a stop.
\<close>

section \<open>The verdict on a window of transactions\<close>

definition is_fill_of :: "string \<Rightarrow> pyval \<Rightarrow> bool" where
  "is_fill_of cid txn \<longleftrightarrow> transaction_client_order_id txn = Inr (Some cid) \<and> txn_kind_of txn = Inr TFill"

definition is_terminal_of :: "string \<Rightarrow> pyval \<Rightarrow> bool" where
  "is_terminal_of cid txn \<longleftrightarrow> transaction_client_order_id txn = Inr (Some cid) \<and> txn_kind_of txn = Inr TTerminal"

definition mentions :: "string \<Rightarrow> pyval \<Rightarrow> bool" where
  "mentions cid txn \<longleftrightarrow> transaction_client_order_id txn = Inr (Some cid)"

definition readable :: "pyval \<Rightarrow> bool" where
  "readable txn \<longleftrightarrow> (\<exists>i. transaction_client_order_id txn = Inr i) \<and> (\<exists>k. txn_kind_of txn = Inr k)"

lemma readable_cases:
  assumes "readable txn"
  obtains "\<not> mentions cid txn" "\<not> is_fill_of cid txn" "\<not> is_terminal_of cid txn"
      "\<And>xs f so st. verdict_loop cid (txn # xs) f so st = verdict_loop cid xs f so st"
    | "mentions cid txn" "is_fill_of cid txn" "\<not> is_terminal_of cid txn"
      "\<And>xs f so st. verdict_loop cid (txn # xs) f so st = verdict_loop cid xs (Some txn) so st"
    | "mentions cid txn" "\<not> is_fill_of cid txn" "is_terminal_of cid txn"
      "\<And>xs f so st. verdict_loop cid (txn # xs) f so st = verdict_loop cid xs f so True"
    | "mentions cid txn" "\<not> is_fill_of cid txn" "\<not> is_terminal_of cid txn"
      "\<And>xs f so st. verdict_loop cid (txn # xs) f so st = verdict_loop cid xs f True st"
proof -
  obtain i k where i: "transaction_client_order_id txn = Inr i" and k: "txn_kind_of txn = Inr k"
    using assms by (auto simp: readable_def)
  show ?thesis
    using i k by (cases "i = Some cid"; cases k) (auto simp: mentions_def is_fill_of_def is_terminal_of_def intro: that)
qed

lemma verdict_loop_spec:
  "list_all readable txns \<Longrightarrow> verdict_loop cid txns fill so st = Inr (
     case (if filter (is_fill_of cid) txns = [] then fill else Some (last (filter (is_fill_of cid) txns))) of
       Some f \<Rightarrow> PRIOR_FILLED f
     | None \<Rightarrow> if st \<or> list_ex (is_terminal_of cid) txns then PRIOR_UNFILLED
         else if so \<or> list_ex (mentions cid) txns then PRIOR_PENDING else PRIOR_ABSENT)"
proof (induction txns arbitrary: fill so st)
  case (Cons t ts)
  then have r: "readable t" and IH: "\<And>fill so st. verdict_loop cid ts fill so st = Inr (
     case (if filter (is_fill_of cid) ts = [] then fill else Some (last (filter (is_fill_of cid) ts))) of
       Some f \<Rightarrow> PRIOR_FILLED f
     | None \<Rightarrow> if st \<or> list_ex (is_terminal_of cid) ts then PRIOR_UNFILLED
         else if so \<or> list_ex (mentions cid) ts then PRIOR_PENDING else PRIOR_ABSENT)" by auto
  have tm: "list_ex (is_terminal_of cid) ts \<Longrightarrow> list_ex (mentions cid) ts"
    by (auto simp: list_ex_iff is_terminal_of_def mentions_def)
  from r show ?case
    by (rule readable_cases [where cid = cid]) (simp_all add: IH)
qed simp

section \<open>A broker that keeps its transaction history\<close>

definition fills_of :: "string \<Rightarrow> pyval list \<Rightarrow> nat" where
  "fills_of cid ledger = length (filter (is_fill_of cid) ledger)"

text \<open>
  What the adapter relies on, for an external broker with the transaction history \<open>ledger\<close>: an order
  request appends at most one fill and only under its own client id, whether or not the reply
  arrives; a transaction read that succeeds is readable and contains the fills of the history; no
  other request adds or removes fills.
\<close>

definition same_fills :: "('b \<Rightarrow> pyval list) \<Rightarrow> ('b, 'a) act \<Rightarrow> bool" where
  "same_fills ledger m \<longleftrightarrow> (\<forall>b cid. fills_of cid (ledger (fst (m b))) = fills_of cid (ledger b))"

definition records_orders :: "'b transport \<Rightarrow> ('b \<Rightarrow> pyval list) \<Rightarrow> bool" where
  "records_orders tr ledger \<longleftrightarrow> (\<forall>c units sl tp b cid.
     fills_of cid (ledger (fst (tr_create tr (order_payload c units sl tp) b)))
       \<le> fills_of cid (ledger b) + (if cid = client_order_id (co_key c) then 1 else 0))"

definition reports_fills :: "'b transport \<Rightarrow> ('b \<Rightarrow> pyval list) \<Rightarrow> bool" where
  "reports_fills tr ledger \<longleftrightarrow> (\<exists>fetch. tr_transactions tr = Some fetch \<and> same_fills ledger (fetch RECONCILE_TRANSACTION_WINDOW)
     \<and> (\<forall>b b' v. fetch RECONCILE_TRANSACTION_WINDOW b = (b', Inr v) \<longrightarrow> (\<exists>txns. iter_or_empty v = Inr txns \<and> list_all readable txns
          \<and> (\<forall>cid txn. txn \<in> set (ledger b) \<and> is_fill_of cid txn \<longrightarrow> txn \<in> set txns))))"

definition other_calls_neutral :: "'b transport \<Rightarrow> ('b \<Rightarrow> pyval list) \<Rightarrow> bool" where
  "other_calls_neutral tr ledger \<longleftrightarrow> (\<forall>i. same_fills ledger (tr_trade tr i))
     \<and> (\<forall>i x ins. same_fills ledger (tr_modify tr i x ins))
     \<and> (\<forall>fetch ins. tr_instruments tr = Some fetch \<longrightarrow> same_fills ledger (fetch ins))
     \<and> (\<forall>x b cid. fills_of cid (ledger (tr_sleep tr x b)) = fills_of cid (ledger b))"

definition faithful_broker :: "'b transport \<Rightarrow> ('b \<Rightarrow> pyval list) \<Rightarrow> bool" where
  "faithful_broker tr ledger \<longleftrightarrow> records_orders tr ledger \<and> reports_fills tr ledger \<and> other_calls_neutral tr ledger"

lemma same_fills_keeps: "same_fills ledger m \<longleftrightarrow> (\<forall>cid n. keeps (\<lambda>b. fills_of cid (ledger b) = n) m)"
  by (auto simp: same_fills_def keeps_def)

lemma keeps_confirm_on_trade:
  "(\<And>i x ins. keeps I (tr_modify tr i x ins)) \<Longrightarrow> keeps I (confirm_on_trade tr c tid t)"
  unfolding confirm_on_trade_def Let_def
  by (intro keeps_intros | assumption)+

lemma keeps_build_fill_result:
  assumes "\<And>i x ins. keeps I (tr_modify tr i x ins)" "\<And>i. keeps I (tr_trade tr i)"
  shows "keeps I (build_fill_result tr ad c resp expected msid)"
  unfolding build_fill_result_def finalize_def confirm_stops_def
  by (intro keeps_intros keeps_confirm_on_trade assms)


section \<open>Submission places at most one fill\<close>

abbreviation fills_are :: "('b \<Rightarrow> pyval list) \<Rightarrow> string \<Rightarrow> nat \<Rightarrow> 'b \<Rightarrow> bool" where
  "fills_are ledger cid n b \<equiv> fills_of cid (ledger b) = n"

lemma faithful_keeps:
  assumes "faithful_broker tr ledger"
  shows "keeps (fills_are ledger cid n) (tr_modify tr i x ins)" "keeps (fills_are ledger cid n) (tr_trade tr i)"
    "tr_instruments tr = Some f \<Longrightarrow> keeps (fills_are ledger cid n) (f il)"
    "fills_of cid (ledger (tr_sleep tr x b)) = fills_of cid (ledger b)"
  using assms by (auto simp: faithful_broker_def other_calls_neutral_def same_fills_keeps)

lemma faithful_fetch:
  assumes "faithful_broker tr ledger"
  obtains fetch where "tr_transactions tr = Some fetch" "\<And>cid n. keeps (fills_are ledger cid n) (fetch RECONCILE_TRANSACTION_WINDOW)"
    "\<And>b b' v. fetch RECONCILE_TRANSACTION_WINDOW b = (b', Inr v) \<Longrightarrow> (\<exists>txns. iter_or_empty v = Inr txns \<and> list_all readable txns
          \<and> (\<forall>cid txn. txn \<in> set (ledger b) \<and> is_fill_of cid txn \<longrightarrow> txn \<in> set txns))"
  using assms unfolding faithful_broker_def reports_fills_def same_fills_keeps by blast

lemma keeps_build:
  "faithful_broker tr ledger \<Longrightarrow> keeps (fills_are ledger cid n) (build_fill_result tr ad c resp expected msid)"
  by (intro keeps_build_fill_result faithful_keeps)

lemma keeps_prior:
  assumes f: "faithful_broker tr ledger"
  shows "keeps (fills_are ledger cid n) (prior_submission tr ad cid' c expected msid)"
proof -
  from f obtain fetch where t: "tr_transactions tr = Some fetch"
    and k: "keeps (fills_are ledger cid n) (fetch RECONCILE_TRANSACTION_WINDOW)" by (rule faithful_fetch) blast
  have v: "keeps (fills_are ledger cid n) (case v of
                PRIOR_FILLED txn \<Rightarrow> sbind (build_fill_result tr ad c (VDict [(''orderFillTransaction'', txn)]) expected msid)
                  (\<lambda>f. sret (Some f, True))
              | PRIOR_PENDING \<Rightarrow> sret (None, False)
              | _ \<Rightarrow> sret (None, True))" for v
    by (cases v) (auto intro!: keeps_intros keeps_build [OF f])
  show ?thesis unfolding prior_submission_def t option.case by (intro keeps_intros k v)
qed

text \<open>"Checked, nothing found" is only ever said of a history without a fill of the order.\<close>

lemma prior_verified_empty:
  assumes f: "faithful_broker tr ledger" and p: "prior_submission tr ad cid c expected msid b = (b', Inr (None, True))"
  shows "fills_of cid (ledger b') = 0"
proof -
  from f obtain fetch where t: "tr_transactions tr = Some fetch"
    and k: "\<And>cid n. keeps (fills_are ledger cid n) (fetch RECONCILE_TRANSACTION_WINDOW)"
    and w: "\<And>b b' v. fetch RECONCILE_TRANSACTION_WINDOW b = (b', Inr v) \<Longrightarrow> (\<exists>txns. iter_or_empty v = Inr txns \<and> list_all readable txns
          \<and> (\<forall>cid txn. txn \<in> set (ledger b) \<and> is_fill_of cid txn \<longrightarrow> txn \<in> set txns))" by (rule faithful_fetch) blast
  obtain b1 r where fetch: "fetch RECONCILE_TRANSACTION_WINDOW b = (b1, r)" by force
  show ?thesis
  proof (cases r)
    case (Inl e)
    with p fetch show ?thesis by (simp add: prior_submission_def t sbind_def scatch_def)
  next
    case (Inr v)
    from w [OF fetch [unfolded Inr]] obtain txns where txns: "iter_or_empty v = Inr txns" "list_all readable txns"
      "\<forall>cid txn. txn \<in> set (ledger b) \<and> is_fill_of cid txn \<longrightarrow> txn \<in> set txns" by blast
    let ?vd = "prior_submission_verdict txns cid"
    have spec: "?vd = Inr (case (if filter (is_fill_of cid) txns = [] then None else Some (last (filter (is_fill_of cid) txns))) of
       Some f \<Rightarrow> PRIOR_FILLED f
     | None \<Rightarrow> if list_ex (is_terminal_of cid) txns then PRIOR_UNFILLED
         else if list_ex (mentions cid) txns then PRIOR_PENDING else PRIOR_ABSENT)"
      unfolding prior_submission_verdict_def verdict_loop_spec [OF txns(2)] by simp
    have "filter (is_fill_of cid) txns = []"
    proof (rule ccontr)
      assume "filter (is_fill_of cid) txns \<noteq> []"
      with spec have "?vd = Inr (PRIOR_FILLED (last (filter (is_fill_of cid) txns)))" by simp
      with p fetch Inr txns(1) show False
        by (auto simp: prior_submission_def t sbind_def scatch_def split: prod.splits sum.splits)
    qed
    moreover have "b' = b1"
      using p fetch Inr txns(1) spec calculation
      by (auto simp: prior_submission_def t sbind_def scatch_def split: prod.splits sum.splits if_splits)
    moreover have "fills_of cid (ledger b1) = fills_of cid (ledger b)" using keepsD [OF k refl fetch] .
    ultimately show ?thesis using txns(3) by (auto simp: fills_of_def filter_empty_conv)
  qed
qed

lemma prior_no_fill:
  assumes "faithful_broker tr ledger" "prior_submission tr ad cid c expected msid b = (b', r)" "0 < fills_of cid (ledger b)"
  shows "r \<noteq> Inr (None, True)"
proof
  assume "r = Inr (None, True)"
  with assms(2) prior_verified_empty [OF assms(1)] have "fills_of cid (ledger b') = 0" by blast
  moreover have "fills_of cid (ledger b') = fills_of cid (ledger b)"
    using keepsD [OF keeps_prior [OF assms(1)] refl assms(2)] .
  ultimately show False using assms(3) by simp
qed

definition is_payload_of :: "constructed_order \<Rightarrow> pyval \<Rightarrow> bool" where
  "is_payload_of c payload \<longleftrightarrow> (\<exists>units sl tp. payload = order_payload c units sl tp)"

definition one_more :: "('b \<Rightarrow> pyval list) \<Rightarrow> string \<Rightarrow> 'b \<Rightarrow> 'b \<Rightarrow> bool" where
  "one_more ledger key b b' \<longleftrightarrow> (\<forall>cid. cid \<noteq> client_order_id key \<longrightarrow> fills_of cid (ledger b') \<le> fills_of cid (ledger b))
     \<and> fills_of (client_order_id key) (ledger b') \<le> 1"

lemma submit_loop_fills:
  assumes f: "faithful_broker tr ledger" and pay: "is_payload_of c payload" and cid: "cid = client_order_id (co_key c)"
  shows "fills_of cid (ledger b) = 0 \<Longrightarrow> one_more ledger (co_key c) b (fst (submit_loop tr ad cid c expected msid payload k n b))"
proof (induction k arbitrary: n b)
  case 0
  then show ?case by (simp add: one_more_def cid)
next
  case (Suc k)
  obtain b1 r where cr: "tr_create tr payload b = (b1, r)" by force
  have rec: "fills_of x (ledger b1) \<le> fills_of x (ledger b) + (if x = cid then 1 else 0)" for x
    using f pay cr unfolding faithful_broker_def records_orders_def is_payload_of_def cid by (metis fst_conv)
  have step: "one_more ledger (co_key c) b b2" if "\<And>x. fills_of x (ledger b2) = fills_of x (ledger b1)" for b2
  proof -
    have "fills_of x (ledger b2) \<le> fills_of x (ledger b)" if "x \<noteq> cid" for x
      using \<open>\<And>x. fills_of x (ledger b2) = fills_of x (ledger b1)\<close> rec [of x] that by simp
    moreover have "fills_of cid (ledger b2) \<le> 1"
      using that [of cid] rec [of cid] Suc.prems by simp
    ultimately show ?thesis by (simp add: one_more_def cid [symmetric])
  qed
  have kept: "one_more ledger (co_key c) b (fst (m b1))" if "\<And>x j. keeps (fills_are ledger x j) m" for m :: "('a, 'z) act"
    using that by (intro step) (auto simp: keeps_def)
  show ?case
  proof (cases r)
    case (Inr resp)
    then show ?thesis using cr kept [OF keeps_build [OF f]] by simp
  next
    case (Inl e)
    show ?thesis
    proof (cases "isa_TransientBroker e \<and> e \<noteq> MarketClosedError")
      case False
      with Inl cr step show ?thesis by auto
    next
      case True
      obtain b2 pr where pr: "prior_submission tr ad cid c expected msid b1 = (b2, pr)" by force
      have b2: "fills_of x (ledger b2) = fills_of x (ledger b1)" for x
        using keepsD [OF keeps_prior [OF f] refl pr] .
      show ?thesis
      proof (cases "pr = Inr (None, True) \<and> n < ad_retry_max ad")
        case True2: False
        then have "fst (submit_loop tr ad cid c expected msid payload (Suc k) n b) = b2"
          using cr Inl True pr by (cases pr) (auto simp: sbind_def split: option.splits if_splits)
        then show ?thesis using step [OF b2] by simp
      next
        case again: True
        let ?b3 = "tr_sleep tr (fl_mul (ad_backoff ad) (Fin (of_int n))) b2"
        have zero: "fills_of cid (ledger ?b3) = 0"
          using prior_verified_empty [OF f] pr again faithful_keeps(4) [OF f] by metis
        have "fst (submit_loop tr ad cid c expected msid payload (Suc k) n b)
            = fst (submit_loop tr ad cid c expected msid payload k (n + 1) ?b3)"
          using cr Inl True pr again by (auto simp: sbind_def)
        moreover have "one_more ledger (co_key c) ?b3 (fst (submit_loop tr ad cid c expected msid payload k (n + 1) ?b3))"
          by (rule Suc.IH [OF zero])
        moreover have "fills_of x (ledger ?b3) \<le> fills_of x (ledger b)" if "x \<noteq> cid" for x
          using that rec [of x] b2 faithful_keeps(4) [OF f] by simp
        ultimately show ?thesis
          by (simp add: one_more_def cid [symmetric]) (meson le_trans)
      qed
    qed
  qed
qed


lemma payload_of_is_payload: "payload_of c d = Inr p \<Longrightarrow> is_payload_of c p"
proof -
  assume "payload_of c d = Inr p"
  then obtain sl tp units where "p = order_payload c units sl tp"
    by (auto simp: payload_of_def ebind_Inr_iff)
  then show ?thesis unfolding is_payload_of_def by blast
qed

lemma keeps_on_broker: "keeps I m \<Longrightarrow> keeps (\<lambda>s. I (fst s)) (on_broker m)"
  by (auto simp: keeps_def on_broker_def split: prod.splits)

lemma keeps_store_specs: "keeps (\<lambda>s. I (fst s)) (store_specs rows)"
  by (auto simp: keeps_def store_specs_def split: prod.splits)

lemma keeps_instrument_spec:
  assumes f: "faithful_broker tr ledger"
  shows "keeps (\<lambda>s. fills_are ledger cid n (fst s)) (instrument_spec tr ins)"
proof (cases "tr_instruments tr")
  case None
  then show ?thesis by (auto simp: keeps_def instrument_spec_def Let_def split: option.splits)
next
  case (Some fetch)
  have k: "keeps (\<lambda>s. fills_are ledger cid n (fst s)) (on_broker (fetch x))" for x
    using faithful_keeps(3) [OF f Some] by (rule keeps_on_broker)
  have "keeps (\<lambda>s. fills_are ledger cid n (fst s))
     (sbind (scatch (\<lambda>_. True) (sbind (on_broker (fetch [upper ins])) (\<lambda>v. sret (Some v))) (\<lambda>_. sret None)) (\<lambda>r.
             case r of None \<Rightarrow> sret None
             | Some v \<Rightarrow> sbind (slift (iter_or_empty v)) (\<lambda>rows.
                 sbind (store_specs rows) (\<lambda>_ s1. (s1, Inr (map_of (snd s1) (upper ins)))))))"
    by (intro keeps_intros k keeps_store_specs) (simp add: keeps_def)
  then show ?thesis
    by (auto simp: keeps_def instrument_spec_def Let_def Some split: option.splits)
qed

lemma keeps_build_payload:
  "faithful_broker tr ledger \<Longrightarrow> keeps (\<lambda>s. fills_are ledger cid n (fst s)) (build_payload tr c)"
  unfolding build_payload_def display_precision_def by (intro keeps_intros keeps_instrument_spec)

lemma build_payload_is_payload: "build_payload tr c s = (s', Inr p) \<Longrightarrow> is_payload_of c p"
  by (auto simp: build_payload_def sbind_def split: prod.splits sum.splits intro: payload_of_is_payload)

lemma submit_verified_fills:
  assumes f: "faithful_broker tr ledger" and "is_payload_of c payload" "fills_of (client_order_id (co_key c)) (ledger b) \<le> 1"
  shows "one_more ledger (co_key c) b (fst (submit_verified tr ad c expected msid payload b))"
proof -
  let ?cid = "client_order_id (co_key c)"
  obtain b1 pr where pr: "prior_submission tr ad ?cid c expected msid b = (b1, pr)" by force
  have b1: "fills_of x (ledger b1) = fills_of x (ledger b)" for x
    using keepsD [OF keeps_prior [OF f] refl pr] .
  show ?thesis
  proof (cases "pr = Inr (None, True)")
    case False
    then have "fst (submit_verified tr ad c expected msid payload b) = b1"
      using pr by (cases pr) (auto simp: submit_verified_def Let_def sbind_def split: option.splits if_splits)
    then show ?thesis using b1 assms(3) by (simp add: one_more_def)
  next
    case True
    then have "fst (submit_verified tr ad c expected msid payload b)
        = fst (submit_loop tr ad ?cid c expected msid payload (nat (ad_retry_max ad)) 1 b1)"
      using pr by (auto simp: submit_verified_def Let_def sbind_def)
    moreover have "fills_of ?cid (ledger b1) = 0"
      using prior_verified_empty [OF f] pr True by blast
    from submit_loop_fills [OF f assms(2) refl this, of ad expected msid "nat (ad_retry_max ad)" 1]
    have "one_more ledger (co_key c) b1 (fst (submit_loop tr ad ?cid c expected msid payload (nat (ad_retry_max ad)) 1 b1))" .
    ultimately show ?thesis using b1 by (simp add: one_more_def)
  qed
qed

lemma submit_fills:
  assumes f: "faithful_broker tr ledger" and "fills_of (client_order_id (co_key c)) (ledger (fst s)) \<le> 1"
  shows "one_more ledger (co_key c) (fst s) (fst (fst (submit tr ad c ep msid s)))"
proof -
  obtain s1 r where p: "build_payload tr c s = (s1, r)" by (cases "build_payload tr c s")
  have s1: "fills_of x (ledger (fst s1)) = fills_of x (ledger (fst s))" for x
    using keepsD [OF keeps_build_payload [OF f] refl p] .
  show ?thesis
  proof (cases r)
    case (Inl e)
    then show ?thesis using p s1 assms(2) by (simp add: submit_def Let_def one_more_def)
  next
    case (Inr payload)
    let ?e = "case ep of None \<Rightarrow> co_entry c | Some p \<Rightarrow> p"
    have "fst (fst (submit tr ad c ep msid s)) = fst (submit_verified tr ad c ?e msid payload (fst s1))"
      using p Inr by (simp add: submit_def Let_def on_broker_def split: prod.splits)
    moreover have "one_more ledger (co_key c) (fst s1) (fst (submit_verified tr ad c ?e msid payload (fst s1)))"
      using assms(2) s1 by (intro submit_verified_fills [OF f build_payload_is_payload [OF p [unfolded Inr]]]) simp
    ultimately show ?thesis using s1 by (simp add: one_more_def)
  qed
qed

text \<open>A history of submissions, repeated keys included, each outcome ignored (a process that crashed
  before it could record anything).\<close>

definition submit_all :: "'b transport \<Rightarrow> adapter \<Rightarrow> constructed_order list \<Rightarrow> 'b ad_state \<Rightarrow> 'b ad_state" where
  "submit_all tr ad cs s = fold (\<lambda>c s. fst (submit tr ad c None None s)) cs s"

lemma submit_all_fills:
  assumes f: "faithful_broker tr ledger"
  shows "(\<And>cid. fills_of cid (ledger (fst s)) \<le> 1) \<Longrightarrow> fills_of cid (ledger (fst (submit_all tr ad cs s))) \<le> 1"
proof (induction cs arbitrary: s)
  case (Cons c cs)
  have "one_more ledger (co_key c) (fst s) (fst (fst (submit tr ad c None None s)))"
    by (rule submit_fills [OF f Cons.prems])
  then have "fills_of cid (ledger (fst (fst (submit tr ad c None None s)))) \<le> 1" for cid
    using Cons.prems [of cid] by (cases "cid = client_order_id (co_key c)") (auto simp: one_more_def dest: le_trans)
  from Cons.IH [OF this] show ?case by (simp add: submit_all_def)
qed (simp add: submit_all_def)


section \<open>The price snap\<close>

lemma quantize_toward:
  assumes "quantize_price (Fin x) ins (Some p) (Some (Fin r)) = Inr q"
  shows "dec_of_float x < dec_of_float r \<Longrightarrow> dec_of_float x \<le> dec_value q \<and> dec_value q < dec_of_float x + 1 / 10 ^ snd q"
    and "dec_of_float r < dec_of_float x \<Longrightarrow> dec_value q \<le> dec_of_float x \<and> dec_of_float x - 1 / 10 ^ snd q < dec_value q"
    and "snd q = nat p" "0 \<le> p"
proof -
  let ?v = "dec_of_float x" and ?w = "dec_of_float r" and ?g = "(10 :: rat) ^ nat p"
  have g: "0 < ?g" by simp
  from assms obtain m where p: "0 \<le> p" and m: "rounding_toward ?v (Some (Fin r)) = Inr m"
    and q: "q = (round_ticks m (?v * ?g), nat p)"
    by (auto simp: quantize_price_def Let_def ebind_Inr_iff not_less split: if_splits)
  show "snd q = nat p" "0 \<le> p" using q p by auto
  show "?v \<le> dec_value q \<and> dec_value q < ?v + 1 / 10 ^ snd q" if "?v < ?w"
  proof -
    have n: "q = (\<lceil>?v * ?g\<rceil>, nat p)" using that m q by (auto simp: rounding_toward_def round_ticks_def)
    have "?v * ?g \<le> of_int \<lceil>?v * ?g\<rceil>" "of_int \<lceil>?v * ?g\<rceil> < ?v * ?g + 1" by linarith+
    then show ?thesis using g by (simp add: n dec_value_def field_simps)
  qed
  show "dec_value q \<le> ?v \<and> ?v - 1 / 10 ^ snd q < dec_value q" if "?w < ?v"
  proof -
    have n: "q = (\<lfloor>?v * ?g\<rfloor>, nat p)" using that m q by (auto simp: rounding_toward_def round_ticks_def)
    have f: "of_int \<lfloor>?v * ?g\<rfloor> \<le> ?v * ?g" "?v * ?g - 1 < of_int \<lfloor>?v * ?g\<rfloor>" by linarith+
    have "(?v * ?g - 1) / ?g < of_int \<lfloor>?v * ?g\<rfloor> / ?g" using f(2) g by (rule divide_strict_right_mono)
    moreover have "(?v * ?g - 1) / ?g = ?v - 1 / ?g" by (simp add: diff_divide_distrib)
    moreover have "of_int \<lfloor>?v * ?g\<rfloor> / ?g \<le> ?v" using f(1) g by (simp add: pos_divide_le_eq)
    ultimately show ?thesis by (simp add: n dec_value_def)
  qed
qed

text \<open>\<open>repr\<close> of a float reads back as the float; it is decidable for a given price.\<close>

definition repr_exact :: "pyfloat \<Rightarrow> bool" where
  "repr_exact x \<longleftrightarrow> (case x of Fin r \<Rightarrow> b64 (dec_of_float r) = Fin r | _ \<Rightarrow> False)"

lemma dec_of_float_strict: "repr_exact (Fin a) \<Longrightarrow> repr_exact (Fin b) \<Longrightarrow> a < b \<Longrightarrow> dec_of_float a < dec_of_float b"
proof (rule ccontr)
  assume "repr_exact (Fin a)" "repr_exact (Fin b)" "a < b" "\<not> dec_of_float a < dec_of_float b"
  then have "fl_le (Fin b) (Fin a)" using b64_mono [of "dec_of_float b" "dec_of_float a"] by (simp add: repr_exact_def)
  with \<open>a < b\<close> show False by simp
qed


section \<open>Properties\<close>


text \<open>The witness broker fills every order and loses every reply.\<close>

definition wit_fill_txn :: "string \<Rightarrow> pyval" where
  "wit_fill_txn cid = VDict [(''type'', VStr ''ORDER_FILL''), (''clientOrderID'', VStr (''sb-'' @ cid)),
     (''id'', VStr ''1''), (''price'', VStr ''150''), (''units'', VStr ''1000'')]"

definition wit_payload_key :: "pyval \<Rightarrow> string" where
  "wit_payload_key p = (case vget p ''order'' of Inr d \<Rightarrow> (case ebind (vget d ''clientExtensions'') (\<lambda>x. vget x ''id'') of
      Inr (VStr s) \<Rightarrow> drop 3 s | _ \<Rightarrow> []) | _ \<Rightarrow> [])"

definition wit_transport :: "string list transport" where
  "wit_transport = \<lparr>tr_create = (\<lambda>p b. (b @ [wit_payload_key p], Inl TransientBrokerError)),
     tr_open_trades = (\<lambda>b. (b, Inr (VList []))), tr_trade = (\<lambda>i b. (b, Inl BrokerError)),
     tr_modify = (\<lambda>i x ins b. (b, Inr VNone)), tr_close = (\<lambda>i b. (b, Inl BrokerError)),
     tr_summary = (\<lambda>b. (b, Inl BrokerError)), tr_pricing = None, tr_instruments = None,
     tr_transactions = Some (\<lambda>n b. (b, Inr (VList (map wit_fill_txn b)))), tr_sleep = (\<lambda>x b. b)\<rparr>"

definition wit_adapter :: adapter where
  "wit_adapter = \<lparr>ad_price_max_age = Fin 60, ad_slippage_tol = Fin 2, ad_retry_max = 3, ad_backoff = Fin 2\<rparr>"

lemma wit_fill_id: "transaction_client_order_id (wit_fill_txn k) = Inr (Some (''sb-'' @ k))"
  by (simp add: transaction_client_order_id_def wit_fill_txn_def)

lemma wit_fill_kind: "txn_kind_of (wit_fill_txn k) = Inr TFill"
proof -
  have "upper ''ORDER_FILL'' = ''ORDER_FILL''" by code_simp
  then show ?thesis by (simp add: txn_kind_of_def wit_fill_txn_def or_else_def)
qed

lemma wit_is_fill: "is_fill_of cid (wit_fill_txn k) \<longleftrightarrow> cid = ''sb-'' @ k"
  by (auto simp: is_fill_of_def wit_fill_id wit_fill_kind)

lemma wit_payload_key: "wit_payload_key (order_payload c u sl tp) = co_key c"
  by (simp add: wit_payload_key_def order_payload_def Let_def client_order_id_def CLIENT_ID_PREFIX_def)

lemma wit_faithful: "faithful_broker wit_transport (map wit_fill_txn)"
proof -
  have "list_all readable (map wit_fill_txn b)" for b
    by (auto simp: list_all_iff readable_def wit_fill_id wit_fill_kind)
  then have "reports_fills wit_transport (map wit_fill_txn)"
    by (auto simp: reports_fills_def wit_transport_def same_fills_def)
  moreover have "records_orders wit_transport (map wit_fill_txn)"
    by (auto simp: records_orders_def wit_transport_def fills_of_def wit_is_fill wit_payload_key client_order_id_def CLIENT_ID_PREFIX_def)
  moreover have "other_calls_neutral wit_transport (map wit_fill_txn)"
    by (auto simp: other_calls_neutral_def wit_transport_def same_fills_def)
  ultimately show ?thesis by (simp add: faithful_broker_def)
qed


text \<open>An order the broker has already filled is not sent again: submitting it leaves the fills of
  every key as they are.\<close>

theorem filled_order_not_resent:
  assumes "faithful_broker tr ledger" "0 < fills_of (client_order_id (co_key c)) (ledger b)"
  shows "fills_of cid (ledger (fst (submit_verified tr ad c expected msid payload b))) = fills_of cid (ledger b)"
proof -
  obtain b1 pr where pr: "prior_submission tr ad (client_order_id (co_key c)) c expected msid b = (b1, pr)" by force
  have "pr \<noteq> Inr (None, True)" using prior_no_fill [OF assms(1) pr assms(2)] .
  then have "fst (submit_verified tr ad c expected msid payload b) = b1"
    using pr by (cases pr) (auto simp: submit_verified_def Let_def sbind_def split: option.splits if_splits)
  then show ?thesis using keepsD [OF keeps_prior [OF assms(1)] refl pr] by simp
qed

theorem filled_order_not_resent_witness:
  "fills_of ''sb-k1'' (map wit_fill_txn (fst (submit_verified wit_transport wit_adapter wit_constructed (Fin 150) None VNone [''k1'']))) = 1"
  by (subst filled_order_not_resent [OF wit_faithful])
     (simp_all add: fills_of_def wit_is_fill wit_constructed_def client_order_id_def CLIENT_ID_PREFIX_def)

text \<open>When the broker cannot be read the order is deferred, not sent: a failed transaction read
  before the first attempt makes the submission raise \<open>ReconcileUnavailableError\<close> in the state the
  read left.\<close>

theorem unreadable_broker_defers:
  assumes "tr_transactions tr = Some fetch" "fetch RECONCILE_TRANSACTION_WINDOW b = (b', Inl e)"
  shows "submit_verified tr ad c expected msid payload b = (b', Inl ReconcileUnavailableError)"
  using assms by (simp add: submit_verified_def Let_def prior_submission_def sbind_def scatch_def)

theorem unreadable_broker_defers_witness:
  "submit_verified (wit_transport\<lparr>tr_transactions := Some (\<lambda>n b. (b, Inl BrokerError))\<rparr>) wit_adapter wit_constructed (Fin 150) None VNone [] =
    ([], Inl ReconcileUnavailableError)"
  by (rule unreadable_broker_defers) simp_all


definition wit_tight :: constructed_order where
  "wit_tight = \<lparr>co_key = ''k1'', co_corr = ''c1'', co_instrument = ''AUD_JPY'', co_side = ''BUY'', co_units = Fin 1000,
     co_entry = Fin 2, co_sl = Fin 1, co_tp = Fin 3, co_atr = Fin 1, co_rr = Fin 3\<rparr>"

lemma upper_BUY: "upper ''BUY'' = ''BUY''" "upper ''SELL'' = ''SELL''"
  by code_simp+

lemma wit_payload: "payload_of wit_tight 3 = Inr (order_payload wit_tight 1000 (1000, 3) (3000, 3))"
  by (simp add: payload_of_def wit_tight_def quantize_price_def rounding_toward_def round_ticks_def upper_BUY
      assert_protective_prices_def positive_price_def dec_float_def dec_value_def b64_small rat_trunc_def)




end
