(* ===== verification/Position_Manager.thy ===== *)
theory Position_Manager
  imports Oanda_Adapter
begin

text \<open>
  \<open>broker/position_manager.py\<close>: the state of a managed trade, the pure stop rules, one tick of the
  rule engine and the sweep over all trades. The broker mutations, the close callback and the clock
  are functions on a broker state \<open>'b\<close>; a tick threads the trade (mutated in place by the code, also
  when a later call of the same tick raises) and that state.
\<close>

section \<open>Managed trades\<close>

record managed_trade =
  mt_id :: string
  mt_instrument :: string
  mt_side :: string
  mt_entry :: pyfloat
  mt_initial :: pyfloat
  mt_target :: pyfloat
  mt_opened :: instant
  mt_gran :: pyval
  mt_max_duration :: pyfloat
  mt_corr :: pyval
  mt_stop :: pyfloat
  mt_at_breakeven :: bool
  mt_done :: "string set"
  mt_closed :: bool
  mt_order_id :: "string option"

text \<open>\<open>__post_init__\<close>: a falsy current stop is the initial one.\<close>

definition post_init :: "managed_trade \<Rightarrow> managed_trade" where
  "post_init t = (if fl_eq (mt_stop t) (Fin 0) then t\<lparr>mt_stop := mt_initial t\<rparr> else t)"

definition mt_direction :: "managed_trade \<Rightarrow> int" where
  "mt_direction t = (if upper (mt_side t) = ''BUY'' then 1 else -1)"

definition risk_distance :: "managed_trade \<Rightarrow> pyfloat" where
  "risk_distance t = fl_abs (fl_sub (mt_entry t) (mt_initial t))"

definition favorable_move :: "managed_trade \<Rightarrow> pyfloat \<Rightarrow> pyfloat" where
  "favorable_move t price = fl_mul (fl_sub price (mt_entry t)) (Fin (of_int (mt_direction t)))"

definition r_multiple :: "managed_trade \<Rightarrow> pyfloat \<Rightarrow> pyfloat res" where
  "r_multiple t price = (if fl_le (risk_distance t) (Fin 0) then Inr (Fin 0)
     else fl_div (favorable_move t price) (risk_distance t))"

definition breakeven_stop :: "managed_trade \<Rightarrow> pyfloat \<Rightarrow> pyfloat \<Rightarrow> pyfloat" where
  "breakeven_stop t buffer_pips pip =
     fl_add (mt_entry t) (fl_mul (fl_mul (Fin (of_int (mt_direction t))) buffer_pips) pip)"

definition trailing_stop :: "managed_trade \<Rightarrow> pyfloat \<Rightarrow> pyfloat \<Rightarrow> pyfloat" where
  "trailing_stop t best trail = fl_sub best (fl_mul (Fin (of_int (mt_direction t))) trail)"

definition is_tighter :: "managed_trade \<Rightarrow> pyfloat \<Rightarrow> pyfloat \<Rightarrow> bool" where
  "is_tighter t new_stop current_stop = (if mt_direction t = 1 then fl_less current_stop new_stop
     else fl_less new_stop current_stop)"

definition time_fraction :: "managed_trade \<Rightarrow> instant \<Rightarrow> pyfloat res" where
  "time_fraction t now = (if fl_le (mt_max_duration t) (Fin 0) then Inr (Fin 0)
     else fl_div (total_seconds (now - mt_opened t)) (mt_max_duration t))"

section \<open>The manager\<close>

record position_manager =
  pm_breakeven_r :: pyfloat
  pm_buffer_pips :: pyfloat
  pm_trail :: pyfloat
  pm_fractions :: "pyfloat list"
  pm_enabled :: bool

record 'b manager_ops =
  bo_modify :: "string \<Rightarrow> pyfloat \<Rightarrow> string \<Rightarrow> ('b, pyval) act"
  bo_close :: "string \<Rightarrow> ('b, pyval) act"
  bo_emit :: "(managed_trade \<Rightarrow> pyval \<Rightarrow> string \<Rightarrow> ('b, unit) act) option"
  bo_clock :: "'b \<Rightarrow> instant"

definition R_EPS :: pyfloat where "R_EPS = b64 (1 / 1000000000)"

text \<open>The dictionary of trades; registering an id again replaces its trade in place.\<close>

definition register :: "managed_trade \<Rightarrow> (string \<times> managed_trade) list \<Rightarrow> (string \<times> managed_trade) list" where
  "register t trades = AList.update (mt_id t) t trades"

definition set_stop :: "'b manager_ops \<Rightarrow> pyfloat \<Rightarrow> (managed_trade \<times> 'b, unit) act" where
  "set_stop ops new_stop s = (case bo_modify ops (mt_id (fst s)) new_stop (mt_instrument (fst s)) (snd s) of
      (b, Inl e) \<Rightarrow> ((fst s, b), Inl e)
    | (b, Inr v) \<Rightarrow> (((fst s)\<lparr>mt_stop := new_stop\<rparr>, b), Inr ()))"

definition close_managed :: "'b manager_ops \<Rightarrow> string \<Rightarrow> (managed_trade \<times> 'b, unit) act" where
  "close_managed ops exit_reason s = (case bo_close ops (mt_id (fst s)) (snd s) of
      (b, Inl e) \<Rightarrow> ((fst s, b), Inl e)
    | (b, Inr resp) \<Rightarrow> (let t = (fst s)\<lparr>mt_closed := True\<rparr> in
        case bo_emit ops of None \<Rightarrow> ((t, b), Inr ())
        | Some emit \<Rightarrow> (case emit t resp exit_reason b of (b1, r) \<Rightarrow> ((t, b1), r))))"

definition mark_done :: "string \<Rightarrow> (managed_trade \<times> 'b, unit) act" where
  "mark_done tag s = (((fst s)\<lparr>mt_done := insert tag (mt_done (fst s))\<rparr>, snd s), Inr ())"

definition has_fraction :: "position_manager \<Rightarrow> pyfloat \<Rightarrow> bool" where
  "has_fraction pm f = list_ex (fl_eq f) (pm_fractions pm)"

text \<open>The staged time actions: the first stage of the two that is configured, reached and not done.\<close>

definition time_stage :: "position_manager \<Rightarrow> pyfloat \<Rightarrow> (managed_trade \<times> 'b, string list) act" where
  "time_stage pm frc s =
     (if has_fraction pm (Fin (3/4)) \<and> fl_le (Fin (3/4)) frc \<and> ''t75'' \<notin> mt_done (fst s)
      then sbind (mark_done ''t75'') (\<lambda>_. sret [''time_action_75pct'']) s
      else if has_fraction pm (Fin (1/2)) \<and> fl_le (Fin (1/2)) frc \<and> ''t50'' \<notin> mt_done (fst s)
      then sbind (mark_done ''t50'') (\<lambda>_. sret [''time_action_50pct'']) s
      else (s, Inr []))"

definition mark_breakeven :: "(managed_trade \<times> 'b, unit) act" where
  "mark_breakeven s = (((fst s)\<lparr>mt_at_breakeven := True\<rparr>, snd s), Inr ())"

definition breakeven_stage :: "position_manager \<Rightarrow> 'b manager_ops \<Rightarrow> pyfloat \<Rightarrow> (managed_trade \<times> 'b, string list) act" where
  "breakeven_stage pm ops price s = (let t = fst s in
     if mt_at_breakeven t then (s, Inr [])
     else case r_multiple t price of Inl e \<Rightarrow> (s, Inl e) | Inr r \<Rightarrow>
       if \<not> fl_le (fl_sub (pm_breakeven_r pm) R_EPS) r then (s, Inr [])
       else let be = breakeven_stop t (pm_buffer_pips pm) (pip_size (mt_instrument t)) in
         if is_tighter t be (mt_stop t)
         then sbind (set_stop ops be) (\<lambda>_. sbind mark_breakeven (\<lambda>_. sret [''breakeven''])) s
         else sbind mark_breakeven (\<lambda>_. sret []) s)"

definition trailing_stage :: "position_manager \<Rightarrow> 'b manager_ops \<Rightarrow> pyfloat \<Rightarrow> (managed_trade \<times> 'b, string list) act" where
  "trailing_stage pm ops price s = (let t = fst s in
     if mt_at_breakeven t \<and> fl_less (Fin 0) (pm_trail pm) \<and> \<not> mt_closed t
     then (let new_stop = trailing_stop t price (pm_trail pm) in
       if is_tighter t new_stop (mt_stop t) then sbind (set_stop ops new_stop) (\<lambda>_. sret [''trail'']) s
       else (s, Inr []))
     else (s, Inr []))"

definition on_tick :: "position_manager \<Rightarrow> 'b manager_ops \<Rightarrow> pyfloat \<Rightarrow> (managed_trade \<times> 'b, string list) act" where
  "on_tick pm ops price s =
     (if \<not> pm_enabled pm \<or> mt_closed (fst s) then (s, Inr [])
      else case time_fraction (fst s) (bo_clock ops (snd s)) of Inl e \<Rightarrow> (s, Inl e) | Inr frc \<Rightarrow>
        if fl_le (Fin 1) frc \<and> ''t100'' \<notin> mt_done (fst s)
        then sbind (close_managed ops ''expiry'') (\<lambda>_. sbind (mark_done ''t100'') (\<lambda>_. sret [''time_exit_close''])) s
        else sbind (time_stage pm frc) (\<lambda>a. sbind (breakeven_stage pm ops price) (\<lambda>b.
               sbind (trailing_stage pm ops price) (\<lambda>c. sret (a @ b @ c)))) s)"

text \<open>\<open>evaluate_all\<close>: every open trade with a price, in registration order, up to the first that raises.\<close>

fun evaluate_trades :: "position_manager \<Rightarrow> 'b manager_ops \<Rightarrow> (string \<times> pyfloat) list \<Rightarrow> (string \<times> managed_trade) list \<Rightarrow> 'b \<Rightarrow>
    (string \<times> managed_trade) list \<times> 'b \<times> (string \<times> string list) list res" where
  "evaluate_trades pm ops prices [] b = ([], b, Inr [])"
| "evaluate_trades pm ops prices ((tid, t) # trades) b =
     (case (if mt_closed t then None else map_of prices (mt_instrument t)) of
        None \<Rightarrow> (case evaluate_trades pm ops prices trades b of (ts, b1, r) \<Rightarrow> ((tid, t) # ts, b1, r))
      | Some price \<Rightarrow> (case on_tick pm ops price (t, b) of
            ((t1, b1), Inl e) \<Rightarrow> ((tid, t1) # trades, b1, Inl e)
          | ((t1, b1), Inr acts) \<Rightarrow> (case evaluate_trades pm ops prices trades b1 of
                (ts, b2, r) \<Rightarrow> ((tid, t1) # ts, b2, emap (\<lambda>out. (tid, acts) # out) r))))"

text \<open>The production wiring: the operations of the broker adapter.\<close>

definition adapter_ops :: "'b transport \<Rightarrow> (managed_trade \<Rightarrow> pyval \<Rightarrow> string \<Rightarrow> ('b, unit) act) option \<Rightarrow>
    ('b \<Rightarrow> instant) \<Rightarrow> 'b manager_ops" where
  "adapter_ops tr emit clock = \<lparr>bo_modify = (\<lambda>tid price ins. modify_stop tr tid (VFloat price) ins),
     bo_close = close_trade tr, bo_emit = emit, bo_clock = clock\<rparr>"

end
