(* ===== verification/Fill_Producer.thy ===== *)
theory Fill_Producer
  imports Oanda_Adapter Queue_Laws
begin

text \<open>
  \<open>execution/fill_producer.py\<close> and the envelope builder of \<open>common/queue_backend.py\<close>: fill
  confirmations and control events, published through a durable outbox. The outbox is any message
  store; the downstream queue is a publish function on a world \<open>'w\<close> that may raise. The clock is read
  once per queue operation: \<open>ck n\<close> is the reading of operation \<open>n\<close>, and the counter is threaded.
\<close>

section \<open>Messages\<close>

definition VALID_REALIZED_STATUS :: "string set" where
  "VALID_REALIZED_STATUS = {''FILLED'', ''PARTIAL'', ''REJECTED'', ''CANCELLED'', ''EXPIRED''}"

definition OUTBOX_MAX_ATTEMPTS :: int where
  "OUTBOX_MAX_ATTEMPTS = 1000000000"

definition build_outbox :: "string \<Rightarrow> backend" where
  "build_outbox owner = new_backend owner OUTBOX_MAX_ATTEMPTS (Fin 300)"

text \<open>The generated message id and the creation time are arguments.\<close>

definition make_envelope :: "string \<Rightarrow> string \<Rightarrow> pyval \<Rightarrow> string \<Rightarrow> string \<Rightarrow> string option \<Rightarrow> string option \<Rightarrow> pyval" where
  "make_envelope msg_id ts payload key corr granularity event_type = VDict (
     [(''schema_version'', VStr ''1''), (''message_id'', VStr msg_id), (''idempotency_key'', VStr key),
      (''correlation_id'', VStr corr), (''created_at'', VStr ts), (''payload'', payload)]
     @ (case granularity of None \<Rightarrow> [] | Some g \<Rightarrow> [(''granularity'', VStr g)])
     @ (case event_type of None \<Rightarrow> [] | Some e \<Rightarrow> [(''event_type'', VStr e)]))"

definition opt_str :: "string option \<Rightarrow> pyval" where
  "opt_str v = (case v of None \<Rightarrow> VNone | Some s \<Rightarrow> VStr s)"

definition opt_float :: "pyfloat option \<Rightarrow> pyval" where
  "opt_float v = (case v of None \<Rightarrow> VNone | Some x \<Rightarrow> VFloat x)"

definition fill_payload :: "approved_order \<Rightarrow> fill_result \<Rightarrow> pyval" where
  "fill_payload ord f = VDict [(''ams_decision_id'', ao_decision_id ord), (''instrument'', VStr (ao_instrument ord)),
     (''side'', VStr (ao_side ord)), (''requested_units'', VFloat (ao_units ord)), (''filled_units'', VFloat (fr_units f)),
     (''realized_status'', VStr (fr_status f)), (''broker_order_id'', opt_str (fr_order_id f)),
     (''broker_trade_id'', opt_str (fr_trade_id f)), (''requested_price'', opt_float (fr_requested f)),
     (''fill_price'', opt_float (fr_price f)), (''fill_time'', fr_time f), (''slippage_pips'', opt_float (fr_slippage f)),
     (''stop_loss_price'', opt_float (fr_sl f)), (''take_profit_price'', opt_float (fr_tp f)),
     (''reject_reason'', fr_reason f), (''model_set_id'', opt_str (fr_model_set f))]"

definition build_message :: "string \<Rightarrow> string \<Rightarrow> approved_order \<Rightarrow> fill_result \<Rightarrow> pyval res" where
  "build_message msg_id ts ord f =
     (if fr_status f \<notin> VALID_REALIZED_STATUS then Inl ValueError
      else Inr (make_envelope msg_id ts (fill_payload ord f) (ao_key ord) (ao_corr ord) (Some (ao_gran ord))
        (Some ''fill_confirmation'')))"

definition control_message :: "string \<Rightarrow> string \<Rightarrow> string \<Rightarrow> pydict \<Rightarrow> string \<Rightarrow> pyval" where
  "control_message msg_id ts event_type payload corr =
     make_envelope msg_id ts (VDict payload)
       (''control:'' @ event_type @ '':'' @ py_str (dget_or payload ''reason'' (VStr []))) corr None (Some event_type)"

section \<open>The outbox loop\<close>

text \<open>The downstream queue, the outbox operations and the clock of a producer.\<close>

record ('s, 'w) producer =
  fp_publish :: "string \<Rightarrow> pyval \<Rightarrow> ('w, unit) act"
  fp_inbound :: string
  fp_outbox :: "'s store_ops"
  fp_topic :: string
  fp_clock :: "nat \<Rightarrow> qclock"

text \<open>Counter, outbox and world.\<close>

type_synonym ('s, 'w) fp_state = "nat \<times> 's \<times> 'w"

text \<open>One message of a batch. The handler of a failed publish reads the correlation id with
  \<open>m.body.get\<close>, which itself raises on a body that is not an object.\<close>

definition deliver_one :: "('s, 'w) producer \<Rightarrow> qmsg \<Rightarrow> (('s, 'w) fp_state, bool) act" where
  "deliver_one p m st = (case st of (n, s, w) \<Rightarrow>
     (case fp_publish p (fp_inbound p) (m_body m) w of
        (w', Inr u) \<Rightarrow> ((n, so_ack (fp_outbox p) m s, w'), Inr True)
      | (w', Inl e) \<Rightarrow> (case vget (m_body m) ''correlation_id'' of
            Inl e' \<Rightarrow> ((n, s, w'), Inl e')
          | Inr c \<Rightarrow> ((Suc n, so_nack (fp_outbox p) (fp_clock p n) m (Fin 0) s, w'), Inr False))))"

fun deliver_batch :: "('s, 'w) producer \<Rightarrow> qmsg list \<Rightarrow> (('s, 'w) fp_state, nat) act" where
  "deliver_batch p [] = sret 0"
| "deliver_batch p (m # ms) = sbind (deliver_one p m) (\<lambda>ok.
     sbind (deliver_batch p ms) (\<lambda>k. sret (if ok then Suc k else k)))"

text \<open>The \<open>while True\<close> loop with fuel; running out of it is \<open>None\<close>. The result counts deliveries.\<close>

fun flush_loop :: "('s, 'w) producer \<Rightarrow> nat \<Rightarrow> nat \<Rightarrow> ('s, 'w) fp_state \<Rightarrow> (('s, 'w) fp_state \<times> nat res) option" where
  "flush_loop p 0 delivered st = None"
| "flush_loop p (Suc fuel) delivered st = (case st of (n, s, w) \<Rightarrow>
     (case so_pull (fp_outbox p) (fp_clock p n) (fp_topic p) 10 s of
        (s', Inl e) \<Rightarrow> Some ((Suc n, s', w), Inl e)
      | (s', Inr batch) \<Rightarrow>
          if batch = [] then Some ((Suc n, s', w), Inr delivered)
          else (case deliver_batch p batch (Suc n, s', w) of
              (st', Inl e) \<Rightarrow> Some (st', Inl e)
            | (st', Inr k) \<Rightarrow>
                if k = 0 then Some (st', Inr delivered)
                else flush_loop p fuel (delivered + k) st')))"

definition flush :: "('s, 'w) producer \<Rightarrow> nat \<Rightarrow> ('s, 'w) fp_state \<Rightarrow> (('s, 'w) fp_state \<times> nat res) option" where
  "flush p fuel st = flush_loop p fuel 0 st"

text \<open>Persist, then publish.\<close>

definition outbox_put :: "('s, 'w) producer \<Rightarrow> pyval \<Rightarrow> ('s, 'w) fp_state \<Rightarrow> ('s, 'w) fp_state" where
  "outbox_put p msg st = (case st of (n, s, w) \<Rightarrow> (n, so_publish (fp_outbox p) (fp_topic p) msg s, w))"

definition persist_then_flush :: "('s, 'w) producer \<Rightarrow> nat \<Rightarrow> pyval \<Rightarrow> ('s, 'w) fp_state \<Rightarrow>
    (('s, 'w) fp_state \<times> pyval res) option" where
  "persist_then_flush p fuel msg st = map_option (\<lambda>(st', r). (st', emap (\<lambda>_. msg) r)) (flush p fuel (outbox_put p msg st))"

definition publish_fill :: "('s, 'w) producer \<Rightarrow> nat \<Rightarrow> string \<Rightarrow> string \<Rightarrow> approved_order \<Rightarrow> fill_result \<Rightarrow> ('s, 'w) fp_state \<Rightarrow>
    (('s, 'w) fp_state \<times> pyval res) option" where
  "publish_fill p fuel msg_id ts ord f st = (case build_message msg_id ts ord f of
      Inl e \<Rightarrow> Some (st, Inl e)
    | Inr msg \<Rightarrow> persist_then_flush p fuel msg st)"

definition emit_control :: "('s, 'w) producer \<Rightarrow> nat \<Rightarrow> string \<Rightarrow> string \<Rightarrow> string \<Rightarrow> pydict \<Rightarrow> string \<Rightarrow> ('s, 'w) fp_state \<Rightarrow>
    (('s, 'w) fp_state \<times> pyval res) option" where
  "emit_control p fuel msg_id ts event_type payload corr st =
     persist_then_flush p fuel (control_message msg_id ts event_type payload corr) st"

end
