(* ===== verification/Close_Facts.thy ===== *)
theory Close_Facts
  imports Position_Manager Fill_Producer
begin

text \<open>
  The first half of \<open>execution/close_tracker.py\<close>: building a managed trade from a fill or from the
  broker's open trade, recovering its identity from the durable fill outbox, normalising what the
  broker says about a close (both response shapes and the transaction stream), the bounded scan of
  that stream, and the flat close event. The wall clock is an argument where it is read.
\<close>

definition VALID_EXIT_REASONS :: "string set" where
  "VALID_EXIT_REASONS = {''tp'', ''sl'', ''manual'', ''flatten'', ''expiry'', ''other''}"

definition close_time_of :: "instant \<Rightarrow> pyval \<Rightarrow> instant res" where
  "close_time_of now value = (if \<not> truthy value then Inr now
     else case parse_ts_str (py_str value) of
       Inr t \<Rightarrow> Inr t
     | Inl e \<Rightarrow> if e = ValueError then Inr now else Inl e)"

text \<open>\<open>float(x or 0.0)\<close>, for an optional float and for a JSON value.\<close>

definition or_zero :: "pyfloat option \<Rightarrow> pyfloat" where
  "or_zero x = (case x of None \<Rightarrow> Fin 0 | Some v \<Rightarrow> if v = Fin 0 then Fin 0 else v)"

definition float_or_zero :: "pyval \<Rightarrow> pyfloat res" where
  "float_or_zero v = (if truthy v then py_float v else Inr (Fin 0))"

definition optional_price :: "pyval \<Rightarrow> pyfloat option res" where
  "optional_price v = (if truthy v then emap Some (py_float v) else Inr None)"

definition optional_units :: "pyval \<Rightarrow> pyfloat option res" where
  "optional_units v = (if truthy v then emap (Some \<circ> fl_abs) (py_float v) else Inr None)"

section \<open>Managed trades\<close>

definition build_managed_trade :: "instant \<Rightarrow> string \<Rightarrow> string \<Rightarrow> string \<Rightarrow> pyfloat \<Rightarrow> pyfloat option \<Rightarrow> pyfloat option \<Rightarrow>
    pyval \<Rightarrow> pyval \<Rightarrow> pyval \<Rightarrow> string option \<Rightarrow> managed_trade res" where
  "build_managed_trade now tid instrument side price sl tp open_time gran corr order_id =
     emap (\<lambda>t. post_init \<lparr>mt_id = tid, mt_instrument = instrument, mt_side = upper side, mt_entry = price,
         mt_initial = or_zero sl, mt_target = or_zero tp, mt_opened = t, mt_gran = or_else gran (VStr ''H1''),
         mt_max_duration = Fin 0, mt_corr = or_else corr (VStr []), mt_stop = Fin 0, mt_at_breakeven = False,
         mt_done = {}, mt_closed = False, mt_order_id = order_id\<rparr>)
       (close_time_of now open_time)"

definition first_price :: "pyfloat option \<Rightarrow> pyfloat option \<Rightarrow> pyfloat option" where
  "first_price a b = (case a of Some x \<Rightarrow> Some x | None \<Rightarrow> b)"

definition managed_trade_from_fill :: "instant \<Rightarrow> approved_order \<Rightarrow> constructed_order option \<Rightarrow> fill_result \<Rightarrow> managed_trade option res" where
  "managed_trade_from_fill now ord c fill =
     (if fr_status fill \<noteq> ''FILLED'' \<and> fr_status fill \<noteq> ''PARTIAL'' then Inr None
      else case fr_trade_id fill of
        None \<Rightarrow> Inr None
      | Some tid \<Rightarrow> if tid = [] then Inr None else
          emap Some (build_managed_trade now tid (ao_instrument ord) (ao_side ord)
            (case fr_price fill of Some p \<Rightarrow> p | None \<Rightarrow> (case c of Some x \<Rightarrow> co_entry x | None \<Rightarrow> Fin 0))
            (first_price (fr_sl fill) (map_option co_sl c)) (first_price (fr_tp fill) (map_option co_tp c))
            (fr_time fill) (VStr (ao_gran ord)) (VStr (ao_corr ord)) (Some (ao_key ord))))"

text \<open>The outbox scan, newest row first. A row that is not JSON is skipped; a JSON row that is not an
  object raises. \<open>None\<close> is a file that does not exist or cannot be read.\<close>

fun find_in_rows :: "string \<Rightarrow> qrow list \<Rightarrow> pyval option res" where
  "find_in_rows key [] = Inr None"
| "find_in_rows key (r # rs) = (case q_body r of
      RawBody s \<Rightarrow> find_in_rows key rs
    | JsonBody v \<Rightarrow> ebind (vget v ''event_type'') (\<lambda>et.
        if et \<noteq> VStr ''fill_confirmation'' then find_in_rows key rs
        else ebind (vget v ''idempotency_key'') (\<lambda>k.
          if k = VStr key then Inr (Some v) else find_in_rows key rs)))"

definition find_fill_envelope :: "qdb option \<Rightarrow> string \<Rightarrow> pyval option res" where
  "find_fill_envelope outbox key = (case outbox of None \<Rightarrow> Inr None
    | Some db \<Rightarrow> find_in_rows key (rev (filter (\<lambda>r. q_topic r = ''fill_outbox'') (qd_rows db))))"

definition order_price :: "pyval \<Rightarrow> pyfloat option res" where
  "order_price dep = ebind (vget (or_else dep (VDict [])) ''price'') optional_price"

text \<open>The order id behind the \<open>sb-\<close> prefix of the client id; a client id that is not a string has no
  \<open>startswith\<close>.\<close>

definition order_id_of_client :: "pyval \<Rightarrow> string option res" where
  "order_id_of_client v = (case or_else v (VStr []) of
      VStr s \<Rightarrow> Inr (if startswith s CLIENT_ID_PREFIX then Some (drop (length CLIENT_ID_PREFIX) s) else None)
    | _ \<Rightarrow> Inl AttributeError)"

definition managed_trade_from_broker_trade :: "instant \<Rightarrow> pyval \<Rightarrow> qdb option \<Rightarrow> managed_trade option res" where
  "managed_trade_from_broker_trade now trade outbox =
     ebind (vget trade ''id'') (\<lambda>tid. if \<not> truthy tid then Inr None else
     ebind (ebind (vget trade ''clientExtensions'') (\<lambda>x. vget (or_else x (VDict [])) ''id'')) (\<lambda>cid.
     ebind (order_id_of_client cid) (\<lambda>oid.
     ebind (case oid of None \<Rightarrow> Inr None | Some k \<Rightarrow> if k = [] then Inr None else find_fill_envelope outbox k) (\<lambda>env.
     let envelope = (case env of None \<Rightarrow> VDict [] | Some v \<Rightarrow> v) in
     ebind (ebind (vget trade ''initialUnits'') (\<lambda>a. ebind (vget trade ''currentUnits'') (\<lambda>b. float_or_zero (or_else a b)))) (\<lambda>units.
     ebind (vget_or trade ''instrument'' (VStr [])) (\<lambda>ins.
     ebind (ebind (vget trade ''price'') float_or_zero) (\<lambda>price.
     ebind (ebind (vget trade ''stopLossOrder'') order_price) (\<lambda>sl.
     ebind (ebind (vget trade ''takeProfitOrder'') order_price) (\<lambda>tp.
     ebind (vget trade ''openTime'') (\<lambda>time.
     ebind (vget envelope ''granularity'') (\<lambda>gran.
     ebind (vget envelope ''correlation_id'') (\<lambda>corr.
       emap Some (build_managed_trade now (py_str tid) (py_str ins) (if fl_less units (Fin 0) then ''SELL'' else ''BUY'')
         price sl tp time gran corr oid)))))))))))))"

section \<open>Close facts\<close>

record close_facts =
  cf_txn :: string
  cf_pnl :: pyfloat
  cf_price :: "pyfloat option"
  cf_time :: pyval
  cf_units :: "pyfloat option"
  cf_slip :: "pyfloat option"

definition facts_from_close_response :: "pyval \<Rightarrow> close_facts option res" where
  "facts_from_close_response resp =
     ebind (vget (or_else resp (VDict [])) ''orderFillTransaction'') (\<lambda>ft. let txn = or_else ft (VDict []) in
     ebind (vget txn ''id'') (\<lambda>tid. if \<not> truthy tid then Inr None else
     ebind (ebind (vget txn ''tradesClosed'') (\<lambda>x. vfirst (or_else x (VList [VDict []])))) (\<lambda>closed.
     ebind (ebind (vget txn ''pl'') (\<lambda>d. vget_or closed ''realizedPL'' d)) (\<lambda>realized.
     ebind (ebind (vget txn ''units'') (\<lambda>d. vget_or closed ''units'' d)) (\<lambda>units.
     ebind (float_or_zero realized) (\<lambda>pnl.
     ebind (ebind (vget txn ''price'') optional_price) (\<lambda>price.
     ebind (vget txn ''time'') (\<lambda>time.
     ebind (optional_units units) (\<lambda>n.
       Inr (Some \<lparr>cf_txn = py_str tid, cf_pnl = pnl, cf_price = price, cf_time = time, cf_units = n, cf_slip = None\<rparr>))))))))))"

text \<open>The price of the first dependent order that filled.\<close>

fun expected_exit :: "pyval \<Rightarrow> string list \<Rightarrow> pyfloat option res" where
  "expected_exit trade [] = Inr None"
| "expected_exit trade (k # ks) =
     ebind (vget trade k) (\<lambda>x. let dep = or_else x (VDict []) in
     ebind (vget dep ''state'') (\<lambda>st.
       if st \<noteq> VStr ''FILLED'' then expected_exit trade ks
       else ebind (vget dep ''price'') (\<lambda>p. if truthy p then emap Some (py_float p) else expected_exit trade ks)))"

definition slippage_from :: "pyfloat option \<Rightarrow> pyfloat \<Rightarrow> string \<Rightarrow> pyfloat option res" where
  "slippage_from expected close_price instrument = (case expected of None \<Rightarrow> Inr None
    | Some x \<Rightarrow> if fl_le x (Fin 0) \<or> instrument = [] then Inr None else emap Some (compute_slippage_pips x close_price instrument))"

definition exit_slippage_pips :: "pyval \<Rightarrow> pyfloat option \<Rightarrow> pyfloat option res" where
  "exit_slippage_pips trade close_price = (case close_price of None \<Rightarrow> Inr None
    | Some cp \<Rightarrow> ecatch isa_TypeOrValue
        (ebind (expected_exit trade [''stopLossOrder'', ''takeProfitOrder'']) (\<lambda>expected.
         ebind (vget trade ''instrument'') (\<lambda>i. slippage_from expected cp (py_str (or_else i (VStr [])))))) None)"

definition vlast :: "pyval \<Rightarrow> pyval res" where
  "vlast v = (case v of VList xs \<Rightarrow> if xs = [] then Inl IndexError else Inr (last xs)
    | VStr s \<Rightarrow> if s = [] then Inl IndexError else Inr (VStr [last s])
    | VDict d \<Rightarrow> Inl KeyError | _ \<Rightarrow> Inl TypeError)"

definition facts_from_trade_details :: "pyval \<Rightarrow> close_facts option res" where
  "facts_from_trade_details trade =
     ebind (vget trade ''closingTransactionIDs'') (\<lambda>ids. if \<not> truthy ids then Inr None else
     ebind (vget trade ''initialUnits'') (\<lambda>units.
     ebind (ebind (vget trade ''averageClosePrice'') optional_price) (\<lambda>price.
     ebind (vlast ids) (\<lambda>tid.
     ebind (ebind (vget trade ''realizedPL'') float_or_zero) (\<lambda>pnl.
     ebind (vget trade ''closeTime'') (\<lambda>time.
     ebind (optional_units units) (\<lambda>n.
     ebind (exit_slippage_pips trade price) (\<lambda>slip.
       Inr (Some \<lparr>cf_txn = py_str tid, cf_pnl = pnl, cf_price = price, cf_time = time, cf_units = n, cf_slip = slip\<rparr>)))))))))"

definition dependent_filled :: "pyval \<Rightarrow> string \<Rightarrow> bool res" where
  "dependent_filled trade k = ebind (vget trade k) (\<lambda>x. emap (\<lambda>st. st = VStr ''FILLED'') (vget (or_else x (VDict [])) ''state''))"

definition exit_reason_from_trade_details :: "pyval \<Rightarrow> string res" where
  "exit_reason_from_trade_details trade =
     ebind (dependent_filled trade ''stopLossOrder'') (\<lambda>sl. if sl then Inr ''sl'' else
     ebind (dependent_filled trade ''takeProfitOrder'') (\<lambda>tp. Inr (if tp then ''tp'' else ''other'')))"

end
