(* ===== verification/Close_Tracker.thy ===== *)
theory Close_Tracker
  imports Close_Facts
begin

text \<open>
  The second half of \<open>execution/close_tracker.py\<close>: the bounded, paged scan of the broker's transaction
  stream, the close facts it yields, the flat close event, \<open>CloseEmitter\<close> and \<open>CloseSweeper\<close>.

  The broker is the adapter's transport with the two ways of reading a range of transactions beside
  it. The emitter is a \<open>producer\<close> of the fill theories on its own outbox topic, with a ledger of
  emitted trade ids; the state of a sweep is the sweeper's own fields, the emitter's and the broker's.
  Draining the outbox has fuel; \<open>None\<close> is running out of it.
\<close>

section \<open>Reading transactions\<close>

definition TXN_PAGE_SIZE :: int where "TXN_PAGE_SIZE = 500"
definition TXN_MAX_SCAN :: nat where "TXN_MAX_SCAN = 5000"

definition TXN_REASON_TO_EXIT :: "(string \<times> string) list" where
  "TXN_REASON_TO_EXIT = [(''STOP_LOSS_ORDER'', ''sl''), (''TRAILING_STOP_LOSS_ORDER'', ''sl''),
     (''GUARANTEED_STOP_LOSS_ORDER'', ''sl''), (''TAKE_PROFIT_ORDER'', ''tp''), (''MARKET_ORDER_TRADE_CLOSE'', ''manual''),
     (''MARKET_ORDER'', ''manual''), (''CLIENT_ORDER'', ''manual''), (''MARKET_ORDER_POSITION_CLOSEOUT'', ''flatten''),
     (''MARKET_ORDER_MARGIN_CLOSEOUT'', ''flatten''), (''MARGIN_CLOSEOUT'', ''flatten'')]"

definition DEPENDENT_FILL_REASONS :: "string set" where
  "DEPENDENT_FILL_REASONS = {''STOP_LOSS_ORDER'', ''TRAILING_STOP_LOSS_ORDER'', ''GUARANTEED_STOP_LOSS_ORDER'', ''TAKE_PROFIT_ORDER''}"

definition txn_reason :: "pyval \<Rightarrow> string res" where
  "txn_reason txn = emap (\<lambda>v. upper (py_str (or_else v (VStr [])))) (vget txn ''reason'')"

definition exit_reason_from_transaction :: "pyval \<Rightarrow> string res" where
  "exit_reason_from_transaction txn =
     emap (\<lambda>r. case map_of TXN_REASON_TO_EXIT r of Some x \<Rightarrow> x | None \<Rightarrow> ''other'') (txn_reason txn)"

text \<open>\<open>src_range\<close> is the transport's \<open>get_transactions_idrange\<close> when it has one, \<open>src_request\<close> the raw
  request with the two ids as text.\<close>

record 'b close_source =
  src_transport :: "'b transport"
  src_range :: "(int \<Rightarrow> int \<Rightarrow> ('b, pyval) act) option"
  src_request :: "string \<Rightarrow> string \<Rightarrow> ('b, pyval) act"

definition fetch_transaction_range :: "'b close_source \<Rightarrow> int \<Rightarrow> int \<Rightarrow> ('b, pyval list) act" where
  "fetch_transaction_range src from_id to_id = (case src_range src of
      Some getter \<Rightarrow> sbind (getter from_id to_id) (\<lambda>v. slift (iter_or_empty v))
    | None \<Rightarrow> sbind (src_request src (int_str from_id) (int_str to_id)) (\<lambda>resp.
        slift (ebind (vget (or_else resp (VDict [])) ''transactions'') iter_or_empty)))"

definition last_transaction_id :: "'b close_source \<Rightarrow> ('b, int option) act" where
  "last_transaction_id src = scatch (\<lambda>_. True)
     (sbind (tr_summary (src_transport src)) (\<lambda>v. slift (ebind (vget (or_else v (VDict [])) ''lastTransactionID'')
        (\<lambda>raw. if raw = VNone then Inr None else emap Some (py_int raw)))))
     (\<lambda>_. sret None)"

text \<open>The consumer of the stream: every transaction is indexed by id, and the last entry of a fill
  that closes the trade is kept.\<close>

record scan =
  scan_index :: pydict
  scan_found :: "(pyval \<times> pyval) option"

fun match_closed :: "string \<Rightarrow> pyval \<Rightarrow> pyval list \<Rightarrow> scan \<Rightarrow> scan res" where
  "match_closed tid txn [] s = Inr s"
| "match_closed tid txn (c # cs) s = ebind (vget c ''tradeID'') (\<lambda>v.
     match_closed tid txn cs (if py_str v = tid then s\<lparr>scan_found := Some (txn, c)\<rparr> else s))"

definition scan_step :: "string \<Rightarrow> pyval \<Rightarrow> scan \<Rightarrow> scan res" where
  "scan_step tid txn s =
     ebind (vget txn ''id'') (\<lambda>i. let s1 = s\<lparr>scan_index := AList.update (py_str i) txn (scan_index s)\<rparr> in
     ebind (vget txn ''type'') (\<lambda>ty. if ty \<noteq> VStr ''ORDER_FILL'' then Inr s1
       else ebind (ebind (vget txn ''tradesClosed'') iter_or_empty) (\<lambda>cs. match_closed tid txn cs s1)))"

fun scan_page :: "string \<Rightarrow> pyval list \<Rightarrow> scan \<Rightarrow> scan res" where
  "scan_page tid [] s = Inr s"
| "scan_page tid (t # ts) s = ebind (scan_step tid t s) (scan_page tid ts)"

text \<open>The highest id of a page, at least the end of the range that was asked for.\<close>

fun highest_id :: "int \<Rightarrow> pyval list \<Rightarrow> int res" where
  "highest_id h [] = Inr h"
| "highest_id h (t # ts) = ebind (vget t ''id'') (\<lambda>i. case py_int i of
      Inr n \<Rightarrow> highest_id (max h n) ts
    | Inl e \<Rightarrow> if isa_TypeOrValue e then highest_id h ts else Inl e)"

definition page_end :: "int \<Rightarrow> int \<Rightarrow> int" where
  "page_end lo to_id = min (lo + TXN_PAGE_SIZE - 1) to_id"

definition take_page :: "string \<Rightarrow> int \<Rightarrow> pyval list \<Rightarrow> scan \<Rightarrow> (scan \<times> int) res" where
  "take_page tid hi batch s = ebind (scan_page tid batch s) (\<lambda>s1. emap (Pair s1) (highest_id hi batch))"

lemma highest_id_ge: "highest_id h ts = Inr n \<Longrightarrow> h \<le> n"
proof (induction ts arbitrary: h)
  case (Cons t ts)
  then obtain i where i: "vget t ''id'' = Inr i" by (auto simp: ebind_Inr_iff)
  show ?case
  proof (cases "py_int i")
    case (Inl e)
    with Cons i show ?thesis by (auto split: if_splits)
  next
    case (Inr k)
    with Cons.prems i have "highest_id (max h k) ts = Inr n" by simp
    then have "max h k \<le> n" by (rule Cons.IH)
    then show ?thesis by simp
  qed
qed simp

lemma take_page_ge: "take_page tid hi batch s = Inr (s1, h) \<Longrightarrow> hi \<le> h"
  by (auto simp: take_page_def ebind_Inr_iff emap_Inr_iff dest: highest_id_ge)

text \<open>\<open>iter_transactions\<close> with the loop of its one consumer as its body: the generator yields a page
  before it reads the ids of that page, and the consumer never stops early.\<close>

function iter_transactions :: "'b close_source \<Rightarrow> string \<Rightarrow> int \<Rightarrow> int \<Rightarrow> nat \<Rightarrow> scan \<Rightarrow> ('b, scan) act" where
  "iter_transactions src tid to_id lo scanned s b =
     (if lo \<le> to_id \<and> scanned < TXN_MAX_SCAN
      then case fetch_transaction_range src lo (page_end lo to_id) b of
          (b1, Inl e) \<Rightarrow> (b1, Inl e)
        | (b1, Inr batch) \<Rightarrow>
            if batch = [] then (b1, Inr s)
            else (case take_page tid (page_end lo to_id) batch s of
                Inl e \<Rightarrow> (b1, Inl e)
              | Inr (s1, h) \<Rightarrow> iter_transactions src tid to_id (h + 1) (scanned + length batch) s1 b1)
      else (b, Inr s))"
  by pat_completeness auto
termination
  by (relation "measure (\<lambda>(src, tid, to_id, lo, scanned, s, b). nat (to_id + 1 - lo))")
    (auto dest!: take_page_ge simp: page_end_def TXN_PAGE_SIZE_def)

declare iter_transactions.simps [simp del]

definition find_close_transaction :: "'b close_source \<Rightarrow> string \<Rightarrow> int option \<Rightarrow> ('b, (pyval \<times> pyval \<times> pydict) option) act" where
  "find_close_transaction src trade_id to_id = (case int_of_str trade_id of
      Inl e \<Rightarrow> if isa_TypeOrValue e then sret None else sraise e
    | Inr from_id \<Rightarrow>
        sbind (case to_id of Some n \<Rightarrow> sret (Some n) | None \<Rightarrow> last_transaction_id src) (\<lambda>last_id.
          case last_id of None \<Rightarrow> sret None
          | Some n \<Rightarrow> if n < from_id then sret None
              else sbind (iter_transactions src trade_id n from_id 0 \<lparr>scan_index = [], scan_found = None\<rparr>)
                (\<lambda>s. sret (map_option (\<lambda>(txn, c). (txn, c, scan_index s)) (scan_found s)))))"

section \<open>Facts of a closing transaction\<close>

definition exit_slippage_from_transaction :: "pyval \<Rightarrow> pyfloat option \<Rightarrow> string \<Rightarrow> pydict \<Rightarrow> pyfloat option res" where
  "exit_slippage_from_transaction txn close_price instrument index = (case close_price of
      None \<Rightarrow> Inr None
    | Some cp \<Rightarrow> if instrument = [] then Inr None
        else ebind (txn_reason txn) (\<lambda>reason. if reason \<notin> DEPENDENT_FILL_REASONS then Inr None
        else ebind (vget txn ''orderID'') (\<lambda>v. let order_txn = or_else (dget index (py_str (or_else v (VStr [])))) (VDict []) in
          ecatch isa_TypeOrValue (ebind (ebind (vget order_txn ''price'') optional_price)
            (\<lambda>expected. slippage_from expected cp instrument)) None)))"

definition facts_from_transaction :: "pyval \<Rightarrow> pyval \<Rightarrow> string option \<Rightarrow> pydict \<Rightarrow> close_facts option res" where
  "facts_from_transaction txn ent instrument index =
     ebind (vget txn ''id'') (\<lambda>tid. if \<not> truthy tid then Inr None else
     ebind (ebind (vget txn ''pl'') (\<lambda>d. vget_or ent ''realizedPL'' d)) (\<lambda>realized.
     ebind (ebind (vget txn ''units'') (\<lambda>d. vget_or ent ''units'' d)) (\<lambda>units.
     ebind (vget ent ''price'') (\<lambda>p. ebind (vget txn ''price'') (\<lambda>q.
     ebind (optional_price (or_else p q)) (\<lambda>price.
     ebind (vget txn ''instrument'') (\<lambda>i.
     let ins = (case instrument of Some (c # cs) \<Rightarrow> c # cs | _ \<Rightarrow> py_str (or_else i (VStr []))) in
     ebind (float_or_zero realized) (\<lambda>pnl.
     ebind (vget txn ''time'') (\<lambda>time.
     ebind (optional_units units) (\<lambda>n.
     ebind (exit_slippage_from_transaction txn price ins index) (\<lambda>slip.
       Inr (Some \<lparr>cf_txn = py_str tid, cf_pnl = pnl, cf_price = price, cf_time = time, cf_units = n, cf_slip = slip\<rparr>))))))))))))"

text \<open>Only the scan is inside the \<open>try\<close>.\<close>

definition resolve_close_from_transactions :: "'b close_source \<Rightarrow> string \<Rightarrow> string option \<Rightarrow> ('b, (close_facts \<times> string) option) act" where
  "resolve_close_from_transactions src trade_id instrument =
     sbind (scatch (\<lambda>_. True) (find_close_transaction src trade_id None) (\<lambda>_. sret None)) (\<lambda>located.
       case located of None \<Rightarrow> sret None
       | Some (txn, ent, index) \<Rightarrow> slift (ebind (facts_from_transaction txn ent instrument index) (\<lambda>facts.
           case facts of None \<Rightarrow> Inr None
           | Some f \<Rightarrow> emap (\<lambda>r. Some (f, r)) (exit_reason_from_transaction txn))))"

section \<open>The close event\<close>

definition is_upper :: "char \<Rightarrow> bool" where
  "is_upper c \<longleftrightarrow> 65 \<le> chr_code c \<and> chr_code c \<le> 90"

text \<open>The pattern \<open>^[A-Z]{3}_[A-Z]{3}$\<close>; the dollar also matches before a final newline.\<close>

definition is_pair :: "string \<Rightarrow> bool" where
  "is_pair s \<longleftrightarrow> (length s = 7 \<or> length s = 8 \<and> chr_code (s ! 7) = 10)
     \<and> list_all is_upper (take 3 s) \<and> s ! 3 = CHR ''_'' \<and> list_all is_upper (take 3 (drop 4 s))"

definition unknown_id :: "managed_trade \<Rightarrow> string" where
  "unknown_id t = ''s2-unknown:'' @ mt_id t"

definition units_field :: "managed_trade \<Rightarrow> close_facts \<Rightarrow> pydict res" where
  "units_field t f = (case cf_units f of None \<Rightarrow> Inr []
    | Some u \<Rightarrow> if u = Fin 0 then Inr [] else emap (\<lambda>n. [(''units'', VInt (n * mt_direction t))]) (fl_round u))"

definition build_close_event :: "managed_trade \<Rightarrow> close_facts \<Rightarrow> string \<Rightarrow> string option \<Rightarrow> string \<Rightarrow> pyval res" where
  "build_close_event t f exit_reason event_time now = emap (\<lambda>units. VDict (
     [(''schema_version'', VStr ''1''), (''broker_order_id'', VStr (cf_txn f)),
      (''order_request_id'', or_else (opt_str (mt_order_id t)) (VStr (unknown_id t))), (''status'', VStr ''closed''),
      (''signal_id'', or_else (mt_corr t) (VStr (unknown_id t))),
      (''direction'', VStr (if mt_direction t = 1 then ''long'' else ''short'')),
      (''event_time'', or_else (opt_str event_time) (VStr now)), (''realized_pnl'', VFloat (cf_pnl f)),
      (''exit_reason'', VStr (if exit_reason \<in> VALID_EXIT_REASONS then exit_reason else ''other''))]
     @ (if is_pair (mt_instrument t) then [(''pair'', VStr (mt_instrument t))] else [])
     @ units
     @ (case cf_price f of None \<Rightarrow> [] | Some p \<Rightarrow> if fl_less (Fin 0) p then [(''fill_price'', VFloat p)] else [])
     @ (if truthy (cf_time f) then [(''fill_time'', cf_time f)] else [])
     @ (case cf_slip f of None \<Rightarrow> [] | Some x \<Rightarrow> [(''slippage_pips'', VFloat x)])))
   (units_field t f)"

section \<open>Emission\<close>

text \<open>\<open>CloseEmitter.flush\<close>: an exception counts as nothing delivered.\<close>

definition emitter_flush :: "('s, 'w) producer \<Rightarrow> nat \<Rightarrow> ('s, 'w) fp_state \<Rightarrow> (('s, 'w) fp_state \<times> nat) option" where
  "emitter_flush p fuel st = map_option (\<lambda>(st', r). (st', case r of Inr k \<Rightarrow> k | Inl e \<Rightarrow> 0)) (flush p fuel st)"

text \<open>The producer's state and the ledger of emitted trade ids.\<close>

type_synonym ('s, 'w, 'l) em_state = "('s, 'w) fp_state \<times> 'l"

definition emit :: "'l processed_ops \<Rightarrow> ('s, 'w) producer \<Rightarrow> nat \<Rightarrow> managed_trade \<Rightarrow> close_facts \<Rightarrow> string \<Rightarrow>
    ('s, 'w, 'l) em_state \<Rightarrow> (('s, 'w, 'l) em_state \<times> bool) option" where
  "emit ops p fuel t f exit_reason em = (case em of ((n, s, w), l) \<Rightarrow>
     if pr_seen ops (mt_id t) l then Some (em, True)
     else case build_close_event t f exit_reason None (iso_now (fp_clock p n)) of
         Inl e \<Rightarrow> Some (((Suc n, s, w), l), False)
       | Inr event \<Rightarrow>
           (let l1 = pr_mark ops (mt_id t) l in
            map_option (\<lambda>(st, k). ((st, l1), True)) (emitter_flush p fuel (outbox_put p event (Suc n, s, w)))))"

definition emit_broker_close :: "'l processed_ops \<Rightarrow> ('s, 'w) producer \<Rightarrow> nat \<Rightarrow> managed_trade \<Rightarrow> pyval \<Rightarrow> string \<Rightarrow>
    ('s, 'w, 'l) em_state \<Rightarrow> (('s, 'w, 'l) em_state \<times> bool) option" where
  "emit_broker_close ops p fuel t resp exit_reason em = (case facts_from_close_response resp of
      Inl e \<Rightarrow> Some (em, False)
    | Inr None \<Rightarrow> Some (em, False)
    | Inr (Some f) \<Rightarrow> emit ops p fuel t f exit_reason em)"

section \<open>The sweep\<close>

record 'b sweeper =
  sv_source :: "'b close_source"
  sv_interval :: pyfloat
  sv_fallback_interval :: pyfloat

record ('s, 'w, 'l, 'b) sweep_state =
  ss_last :: "instant option"
  ss_fallback :: "(string \<times> instant) list"
  ss_em :: "('s, 'w, 'l) em_state"
  ss_broker :: 'b

text \<open>\<open>Some t\<close> with less than the interval since \<open>t\<close>.\<close>

definition too_soon :: "pyfloat \<Rightarrow> instant \<Rightarrow> instant option \<Rightarrow> bool" where
  "too_soon interval now since = (case since of None \<Rightarrow> False
    | Some t \<Rightarrow> fl_less (total_seconds (now - t)) interval)"

definition fallback_due :: "'b sweeper \<Rightarrow> string \<Rightarrow> instant \<Rightarrow> ('s, 'w, 'l, 'b) sweep_state \<Rightarrow> ('s, 'w, 'l, 'b) sweep_state \<times> bool" where
  "fallback_due sv tid now st = (if too_soon (sv_fallback_interval sv) now (map_of (ss_fallback st) tid) then (st, False)
     else (st\<lparr>ss_fallback := AList.update tid now (ss_fallback st)\<rparr>, True))"

text \<open>A transport call inside the sweep.\<close>

definition at_broker :: "('b, 'a) act \<Rightarrow> (('s, 'w, 'l, 'b) sweep_state, 'a) act" where
  "at_broker m st = (case m (ss_broker st) of (b, r) \<Rightarrow> (st\<lparr>ss_broker := b\<rparr>, r))"

text \<open>What \<open>get_trade\<close> answers: nothing usable, still open, or resolved. A failed call is nothing.\<close>

datatype lookup = Unusable | Still_open | Resolved close_facts string

definition trade_lookup :: "pyval \<Rightarrow> lookup res" where
  "trade_lookup details = (if \<not> truthy details then Inr Unusable
     else ebind (vget details ''state'') (\<lambda>state. if state \<noteq> VStr ''CLOSED'' then Inr Still_open
     else ebind (facts_from_trade_details details) (\<lambda>facts. case facts of None \<Rightarrow> Inr Unusable
       | Some f \<Rightarrow> emap (Resolved f) (exit_reason_from_trade_details details))))"

definition fallback_lookup :: "'b sweeper \<Rightarrow> instant \<Rightarrow> managed_trade \<Rightarrow>
    (('s, 'w, 'l, 'b) sweep_state, (close_facts \<times> string) option) act" where
  "fallback_lookup sv now t st = (case fallback_due sv (mt_id t) now st of
      (st1, due) \<Rightarrow> if \<not> due then (st1, Inr None)
        else at_broker (resolve_close_from_transactions (sv_source sv) (mt_id t) (Some (mt_instrument t))) st1)"

text \<open>The close of a vanished trade and whether it came from the transaction stream.\<close>

definition resolve_close :: "'b sweeper \<Rightarrow> instant \<Rightarrow> managed_trade \<Rightarrow>
    (('s, 'w, 'l, 'b) sweep_state, ((close_facts \<times> string) \<times> bool) option) act" where
  "resolve_close sv now t =
     sbind (scatch (\<lambda>_. True) (at_broker (tr_trade (src_transport (sv_source sv)) (mt_id t))) (\<lambda>_. sret VNone)) (\<lambda>details.
     sbind (slift (trade_lookup details)) (\<lambda>lk. case lk of
         Still_open \<Rightarrow> sret None
       | Resolved f r \<Rightarrow> sret (Some ((f, r), False))
       | Unusable \<Rightarrow> sbind (fallback_lookup sv now t) (\<lambda>r. sret (map_option (\<lambda>x. (x, True)) r))))"

text \<open>One candidate: the trade, the state, and whether it was emitted and found in the stream.\<close>

definition sweep_trade :: "'l processed_ops \<Rightarrow> ('s, 'w) producer \<Rightarrow> nat \<Rightarrow> 'b sweeper \<Rightarrow> instant \<Rightarrow> managed_trade \<Rightarrow>
    ('s, 'w, 'l, 'b) sweep_state \<Rightarrow> ((managed_trade \<times> ('s, 'w, 'l, 'b) sweep_state) \<times> (bool \<times> bool) res) option" where
  "sweep_trade ops p fuel sv now t st = (case resolve_close sv now t st of
      (st1, Inl e) \<Rightarrow> Some ((t, st1), Inl e)
    | (st1, Inr None) \<Rightarrow> Some ((t, st1), Inr (False, False))
    | (st1, Inr (Some ((f, r), via))) \<Rightarrow>
        map_option (\<lambda>(em, ok). ((if ok then t\<lparr>mt_closed := True\<rparr> else t, st1\<lparr>ss_em := em\<rparr>), Inr (ok, via)))
          (emit ops p fuel t f r (ss_em st1)))"

fun sweep_trades :: "'l processed_ops \<Rightarrow> ('s, 'w) producer \<Rightarrow> nat \<Rightarrow> 'b sweeper \<Rightarrow> instant \<Rightarrow> string list \<Rightarrow>
    (string \<times> managed_trade) list \<Rightarrow> ('s, 'w, 'l, 'b) sweep_state \<Rightarrow>
    (((string \<times> managed_trade) list \<times> ('s, 'w, 'l, 'b) sweep_state) \<times> (int \<times> int) res) option" where
  "sweep_trades ops p fuel sv now open_ids [] st = Some (([], st), Inr (0, 0))"
| "sweep_trades ops p fuel sv now open_ids ((k, t) # ts) st =
     (case (if mt_closed t \<or> mt_id t \<in> set open_ids then Some ((t, st), Inr (False, False))
            else sweep_trade ops p fuel sv now t st) of
        None \<Rightarrow> None
      | Some ((t1, st1), Inl e) \<Rightarrow> Some (((k, t1) # ts, st1), Inl e)
      | Some ((t1, st1), Inr (ok, via)) \<Rightarrow>
          map_option (\<lambda>((ts1, st2), r). (((k, t1) # ts1, st2),
              emap (\<lambda>(a, b). (a + of_bool ok, b + of_bool via)) r))
            (sweep_trades ops p fuel sv now open_ids ts st1))"

definition read_open_ids :: "'b sweeper \<Rightarrow> ('b, string list) act" where
  "read_open_ids sv = sbind (tr_open_trades (src_transport (sv_source sv))) (\<lambda>v.
     slift (ebind (py_iter v) (emapM (\<lambda>t. emap py_str (vget t ''id'')))))"

definition sweep_counts :: "nat \<Rightarrow> int \<times> int \<Rightarrow> (string \<times> int) list" where
  "sweep_counts candidates c = [(''candidates'', int candidates), (''closed'', fst c)]
     @ (if snd c = 0 then [] else [(''via_transactions'', snd c)])"

definition sweep :: "'l processed_ops \<Rightarrow> ('s, 'w) producer \<Rightarrow> nat \<Rightarrow> 'b sweeper \<Rightarrow> instant \<Rightarrow>
    (string \<times> managed_trade) list \<Rightarrow> ('s, 'w, 'l, 'b) sweep_state \<Rightarrow>
    (((string \<times> managed_trade) list \<times> ('s, 'w, 'l, 'b) sweep_state) \<times> (string \<times> int) list res) option" where
  "sweep ops p fuel sv now trades st =
     (if too_soon (sv_interval sv) now (ss_last st) then Some ((trades, st), Inr [])
      else case emitter_flush p fuel (fst (ss_em st)) of
          None \<Rightarrow> None
        | Some (fp, k) \<Rightarrow>
            (let st1 = st\<lparr>ss_last := Some now, ss_em := (fp, snd (ss_em st))\<rparr>;
                 candidates = filter (\<lambda>x. \<not> mt_closed (snd x)) trades in
             if candidates = [] then Some ((trades, st1), Inr [(''candidates'', 0)])
             else case at_broker (read_open_ids sv) st1 of
                 (st2, Inl e) \<Rightarrow> Some ((trades, st2), Inr [(''sweep_error'', 1)])
               | (st2, Inr open_ids) \<Rightarrow> map_option (\<lambda>(s, r). (s, emap (sweep_counts (length candidates)) r))
                   (sweep_trades ops p fuel sv now open_ids trades st2)))"

end
