(* ===== verification/Oanda_Transport.thy ===== *)
theory Oanda_Transport
  imports Oanda_Laws Close_Tracker
begin

text \<open>
  \<open>broker/oanda_transport.py\<close>: the REST transport behind the adapter. One request of the broker's
  API is a value; the client that sends it is a parameter \<open>raw\<close>, which answers with a JSON document,
  with the SDK's \<open>V20Error\<close> (its code and message) or with another exception. Everything the
  transport does with requests and answers is here: the error taxonomy, the market-closed
  rejection inside an answer, the price format of a stop change and the bounded history window.
\<close>

section \<open>Requests and errors\<close>

datatype api_request =
    OrderCreate pyval
  | OpenTrades
  | TradeDetails string
  | TradeCRCDO string pyval
  | PricingInfo string
  | AccountInstruments "string option"
  | TransactionIDRange string string
  | AccountSummary
  | TradeClose string pyval

datatype api_error = V20Error int string | RawError pyexn

type_synonym 'b api = "api_request \<Rightarrow> 'b \<Rightarrow> 'b \<times> (api_error + pyval)"

definition MARKET_CLOSED_TOKENS :: "string list" where
  "MARKET_CLOSED_TOKENS = [''MARKET_HALTED'', ''MARKET_CLOSED'', ''TRADING_HALTED'']"

definition MAX_TRANSACTION_ID_RANGE :: int where "MAX_TRANSACTION_ID_RANGE = 1000"

fun contains :: "string \<Rightarrow> string \<Rightarrow> bool" where
  "contains tok [] = (tok = [])"
| "contains tok (c # cs) = (startswith (c # cs) tok \<or> contains tok cs)"

definition classify :: "api_error \<Rightarrow> pyexn" where
  "classify err = (case err of
      V20Error code msg \<Rightarrow>
        if list_ex (\<lambda>tok. contains tok (upper msg)) MARKET_CLOSED_TOKENS then MarketClosedError
        else if code = 429 \<or> (500 \<le> code \<and> code < 600) then TransientBrokerError
        else OtherException ''V20Error''
    | RawError e \<Rightarrow> e)"

definition request :: "'b api \<Rightarrow> api_request \<Rightarrow> ('b, pyval) act" where
  "request raw req b = (case raw req b of (b1, Inr v) \<Rightarrow> (b1, Inr v) | (b1, Inl err) \<Rightarrow> (b1, Inl (classify err)))"

text \<open>A field of the answer, with its default.\<close>

definition request_field :: "'b api \<Rightarrow> api_request \<Rightarrow> string \<Rightarrow> pyval \<Rightarrow> ('b, pyval) act" where
  "request_field raw req key d = sbind (request raw req) (\<lambda>resp. slift (vget_or resp key d))"

section \<open>The transport protocol\<close>

definition create_order :: "'b api \<Rightarrow> pyval \<Rightarrow> ('b, pyval) act" where
  "create_order raw payload = sbind (request raw (OrderCreate payload)) (\<lambda>resp.
     slift (ebind (vget resp ''orderCancelTransaction'') (\<lambda>cancel. ebind (vget (or_else cancel (VDict [])) ''reason'') (\<lambda>reason.
       if reason \<in> VStr ` set MARKET_CLOSED_TOKENS then Inl MarketClosedError else Inr resp))))"

definition get_open_trades :: "'b api \<Rightarrow> ('b, pyval) act" where
  "get_open_trades raw = request_field raw OpenTrades ''trades'' (VList [])"

definition get_trade :: "'b api \<Rightarrow> string \<Rightarrow> ('b, pyval) act" where
  "get_trade raw trade_id = request_field raw (TradeDetails trade_id) ''trade'' VNone"

text \<open>The lookup of the instrument swallows every exception of the request, not of reading its answer.\<close>

definition instrument_of :: "'b api \<Rightarrow> string \<Rightarrow> ('b, pyval) act" where
  "instrument_of raw trade_id = sbind (scatch (\<lambda>_. True) (sbind (get_trade raw trade_id) (\<lambda>t. sret (Some (or_else t (VDict [])))))
       (\<lambda>_. sret None)) (\<lambda>t. case t of None \<Rightarrow> sret VNone | Some trade \<Rightarrow> slift (vget trade ''instrument''))"

definition modify_trade_stop :: "'b api \<Rightarrow> string \<Rightarrow> pyfloat \<Rightarrow> string \<Rightarrow> ('b, pyval) act" where
  "modify_trade_stop raw trade_id stop_price instrument =
     sbind (if instrument \<noteq> [] then sret (VStr instrument) else instrument_of raw trade_id) (\<lambda>ins.
     sbind (slift (case or_else ins (VStr []) of VStr s \<Rightarrow> format_price stop_price s None None | _ \<Rightarrow> Inl AttributeError)) (\<lambda>price.
       request raw (TradeCRCDO trade_id (VDict [(''stopLoss'', VDict [(''price'', VStr price), (''timeInForce'', VStr ''GTC'')])]))))"

definition get_pricing :: "'b api \<Rightarrow> string list \<Rightarrow> ('b, pyval) act" where
  "get_pricing raw instruments = request_field raw (PricingInfo (join '','' instruments)) ''prices'' (VList [])"

definition get_account_instruments :: "'b api \<Rightarrow> string list \<Rightarrow> ('b, pyval) act" where
  "get_account_instruments raw instruments = request_field raw
     (AccountInstruments (if instruments = [] then None else Some (join '','' instruments))) ''instruments'' (VList [])"

definition get_transactions_idrange :: "'b api \<Rightarrow> int \<Rightarrow> int \<Rightarrow> ('b, pyval) act" where
  "get_transactions_idrange raw from_id to_id =
     request_field raw (TransactionIDRange (int_str from_id) (int_str to_id)) ''transactions'' (VList [])"

text \<open>The head of the history, at either level of the account summary.\<close>

definition head_of :: "pyval \<Rightarrow> int res" where
  "head_of resp = ebind (vget resp ''lastTransactionID'') (\<lambda>top.
     ebind (if truthy top then Inr top else
         ebind (vget resp ''account'') (\<lambda>account. vget (or_else account (VDict [])) ''lastTransactionID'')) (\<lambda>raw.
       case py_int raw of Inl e \<Rightarrow> Inl (if isa_TypeOrValue e then TransientBrokerError else e) | Inr n \<Rightarrow> Inr n))"

definition last_transaction_head :: "'b api \<Rightarrow> ('b, int) act" where
  "last_transaction_head raw = sbind (request raw AccountSummary) (\<lambda>resp. slift (head_of resp))"

definition history_window :: "int \<Rightarrow> int" where
  "history_window n = max 1 (min n MAX_TRANSACTION_ID_RANGE)"

definition get_recent_transactions :: "'b api \<Rightarrow> int \<Rightarrow> ('b, pyval) act" where
  "get_recent_transactions raw n = sbind (last_transaction_head raw) (\<lambda>head.
     get_transactions_idrange raw (max 1 (head - history_window n + 1)) head)"

definition rest_close_trade :: "'b api \<Rightarrow> string \<Rightarrow> ('b, pyval) act" where
  "rest_close_trade raw trade_id = request raw (TradeClose trade_id (VDict [(''units'', VStr ''ALL'')]))"

definition rest_account_summary :: "'b api \<Rightarrow> ('b, pyval) act" where
  "rest_account_summary raw = request_field raw AccountSummary ''account'' (VDict [])"

text \<open>The transport the adapter is given in production, and the close tracker's view of it.\<close>

definition rest_transport :: "'b api \<Rightarrow> (pyfloat \<Rightarrow> 'b \<Rightarrow> 'b) \<Rightarrow> 'b transport" where
  "rest_transport raw sleep = \<lparr>tr_create = create_order raw, tr_open_trades = get_open_trades raw, tr_trade = get_trade raw,
     tr_modify = modify_trade_stop raw, tr_close = rest_close_trade raw, tr_summary = rest_account_summary raw,
     tr_pricing = Some (get_pricing raw), tr_instruments = Some (get_account_instruments raw),
     tr_transactions = Some (get_recent_transactions raw), tr_sleep = sleep\<rparr>"

definition rest_source :: "'b api \<Rightarrow> (pyfloat \<Rightarrow> 'b \<Rightarrow> 'b) \<Rightarrow> 'b close_source" where
  "rest_source raw sleep = \<lparr>src_transport = rest_transport raw sleep, src_range = Some (get_transactions_idrange raw),
     src_request = (\<lambda>f t. request raw (TransactionIDRange f t))\<rparr>"

section \<open>Laws\<close>

lemma classify_cases:
  "classify (V20Error code msg) \<in> {MarketClosedError, TransientBrokerError, OtherException ''V20Error''}"
  by (simp add: classify_def)

text \<open>The error taxonomy of the transport. A request the SDK fails with code and message raises the
  market-closed error exactly when the upper-cased message names one of the three market states, the
  transient error exactly when it does not and the code is 429 or 5xx, and the SDK's own error
  otherwise; other exceptions and answers pass through, and nothing is sent twice.\<close>

theorem transport_errors_are_classified:
  assumes "raw req b = (b1, Inl (V20Error code msg))"
  shows "\<exists>e. request raw req b = (b1, Inl e)
    \<and> (e = MarketClosedError \<longleftrightarrow> (\<exists>tok pre post. tok \<in> set MARKET_CLOSED_TOKENS \<and> upper msg = pre @ tok @ post))
    \<and> (e = TransientBrokerError \<longleftrightarrow> e \<noteq> MarketClosedError \<and> (code = 429 \<or> code div 100 = 5))
    \<and> (isa_Broker e \<longleftrightarrow> e = MarketClosedError \<or> e = TransientBrokerError)"
proof -
  have prefix: "startswith s tok \<longleftrightarrow> (\<exists>post. s = tok @ post)" for s tok :: string
    unfolding startswith_def by (metis append_eq_conv_conj append_take_drop_id)
  have contains: "contains tok s \<longleftrightarrow> (\<exists>pre post. s = pre @ tok @ post)" for tok s
  proof (induction s)
    case (Cons c cs)
    have "(\<exists>pre post. c # cs = pre @ tok @ post) \<longleftrightarrow> (\<exists>post. c # cs = tok @ post) \<or> (\<exists>pre post. cs = pre @ tok @ post)"
      by (metis append_Cons append_Nil list.exhaust list.inject)
    with Cons.IH show ?case by (simp add: prefix)
  qed auto
  have "(\<exists>tok pre post. tok \<in> set MARKET_CLOSED_TOKENS \<and> upper msg = pre @ tok @ post)
      \<longleftrightarrow> list_ex (\<lambda>tok. contains tok (upper msg)) MARKET_CLOSED_TOKENS"
    by (auto simp: list_ex_iff contains)
  moreover have "code div 100 = 5 \<longleftrightarrow> 500 \<le> code \<and> code < 600" by presburger
  moreover have "request raw req b = (b1, Inl (classify (V20Error code msg)))" by (simp add: request_def assms)
  ultimately show ?thesis by (auto simp: classify_def isa_Broker_def isa_TransientBroker_def)
qed

theorem transport_errors_are_classified_witness:
  "request (\<lambda>req w. (w, Inl (V20Error 503 ''gateway''))) OpenTrades () = ((), Inl TransientBrokerError)"
proof -
  let ?raw = "\<lambda>(req :: api_request) (w :: unit). (w, Inl (V20Error 503 ''gateway'') :: api_error + pyval)"
  have "classify (V20Error 503 ''gateway'') = TransientBrokerError" by code_simp
  moreover have "request ?raw OpenTrades () = ((), Inl (classify (V20Error 503 ''gateway'')))" by (simp add: request_def)
  moreover have "\<exists>e. request ?raw OpenTrades () = ((), Inl e)"
    using transport_errors_are_classified [where raw = ?raw and b = "()" and req = OpenTrades, OF refl] by blast
  ultimately show ?thesis by simp
qed

text \<open>The history read is one bounded page ending at the head. When the account summary answers with
  a head transaction, the reader issues exactly one more request, for a page of at most 1000 ids
  that starts at 1 or later, ends at the head and holds the last \<open>n\<close> ids when there are that many;
  when it does not answer, or carries no usable head, the reader raises and requests nothing else,
  so a failed lookup is never an empty history.\<close>

theorem history_read_is_bounded:
  assumes "request raw AccountSummary b = (b1, r)"
  shows "(case ebind r head_of of
      Inl e \<Rightarrow> get_recent_transactions raw n b = (b1, Inl e)
    | Inr head \<Rightarrow> \<exists>from_id. get_recent_transactions raw n b = get_transactions_idrange raw from_id head b1
        \<and> 1 \<le> from_id \<and> head - from_id < 1000 \<and> (1 \<le> n \<and> n \<le> 1000 \<and> n \<le> head \<longrightarrow> head - from_id + 1 = n))"
proof (cases "ebind r head_of")
  case (Inl e)
  then show ?thesis using assms
    by (cases r) (simp_all add: get_recent_transactions_def last_transaction_head_def sbind_def)
next
  case (Inr head)
  then have "last_transaction_head raw b = (b1, Inr head)" using assms
    by (cases r) (simp_all add: last_transaction_head_def sbind_def)
  then have "get_recent_transactions raw n b = get_transactions_idrange raw (max 1 (head - history_window n + 1)) head b1"
    by (simp add: get_recent_transactions_def)
  moreover have "1 \<le> history_window n" "history_window n \<le> 1000" "1 \<le> n \<and> n \<le> 1000 \<longrightarrow> history_window n = n"
    by (auto simp: history_window_def MAX_TRANSACTION_ID_RANGE_def)
  ultimately show ?thesis using Inr by (auto intro!: exI [of _ "max 1 (head - history_window n + 1)"])
qed

definition wit_api :: "unit api" where
  "wit_api req w = (w, Inr (VDict [(''lastTransactionID'', VInt 5000)]))"

theorem history_read_is_bounded_witness:
  "get_recent_transactions wit_api 200 () = get_transactions_idrange wit_api 4801 5000 ()"
proof -
  have r: "request wit_api AccountSummary () = ((), Inr (VDict [(''lastTransactionID'', VInt 5000)]))"
    by (simp add: request_def wit_api_def)
  have h: "ebind (Inr (VDict [(''lastTransactionID'', VInt 5000)])) head_of = Inr 5000" by (simp add: head_of_def)
  obtain from_id where "get_recent_transactions wit_api 200 () = get_transactions_idrange wit_api from_id 5000 ()" "5000 - from_id + 1 = 200"
    using history_read_is_bounded [OF r, of 200] unfolding h by auto
  then show ?thesis by (simp add: algebra_simps)
qed

text \<open>An unreadable account defers the order. Over the real transport, when the account summary that
  bounds the history cannot be read or carries no transaction head, submitting raises the
  reconcile-unavailable error after that single request: no order is created.\<close>

theorem unreadable_account_defers:
  assumes "request raw AccountSummary b = (b1, r)" "ebind r head_of = Inl e"
  shows "submit_verified (rest_transport raw sleep) ad c expected msid payload b = (b1, Inl ReconcileUnavailableError)"
proof -
  have "get_recent_transactions raw RECONCILE_TRANSACTION_WINDOW b = (b1, Inl e)"
    using assms by (cases r) (simp_all add: get_recent_transactions_def last_transaction_head_def sbind_def)
  then have "prior_submission (rest_transport raw sleep) ad cid c expected msid b = (b1, Inr (None, False))" for cid
    by (simp add: prior_submission_def rest_transport_def sbind_def scatch_def)
  then show ?thesis by (simp add: submit_verified_def Let_def)
qed

theorem unreadable_account_defers_witness:
  "submit_verified (rest_transport (\<lambda>req w. (w, Inl (RawError OSError))) (\<lambda>t w. w))
     \<lparr>ad_price_max_age = Fin 10, ad_slippage_tol = Fin 1, ad_retry_max = 3, ad_backoff = Fin 1\<rparr> wit_constructed (Fin 1) None VNone ()
   = ((), Inl ReconcileUnavailableError)"
proof -
  let ?raw = "\<lambda>(req :: api_request) (w :: unit). (w, Inl (RawError OSError) :: api_error + pyval)"
  have "request ?raw AccountSummary () = ((), Inl OSError)" by (simp add: request_def classify_def)
  from unreadable_account_defers [OF this] show ?thesis by simp
qed

end
