(* ===== verification/Fill_Laws.thy ===== *)
theory Fill_Laws
  imports Fill_Producer Pipeline_Laws
begin

text \<open>
  What the outbox guarantees, proved against the contract \<open>message_store\<close> and instantiated on the
  durable local backend: flushing conserves messages and terminates, and a published fill is
  delivered or still held.
\<close>

section \<open>Conservation\<close>

text \<open>The downstream queue, made to record what it accepted.\<close>

definition log_publish :: "(string \<Rightarrow> pyval \<Rightarrow> ('w, unit) act) \<Rightarrow> string \<Rightarrow> pyval \<Rightarrow> ('w \<times> pyval list, unit) act" where
  "log_publish pub t v wl = (case pub t v (fst wl) of
      (w, Inr u) \<Rightarrow> ((w, snd wl @ [v]), Inr u) | (w, Inl e) \<Rightarrow> ((w, snd wl), Inl e))"

definition logging :: "('s, 'w) producer \<Rightarrow> ('s, 'w \<times> pyval list) producer" where
  "logging p = \<lparr>fp_publish = log_publish (fp_publish p), fp_inbound = fp_inbound p, fp_outbox = fp_outbox p,
     fp_topic = fp_topic p, fp_clock = fp_clock p\<rparr>"

text \<open>Everything accepted downstream or still in the outbox.\<close>

definition accounted :: "(string \<Rightarrow> 's \<Rightarrow> qbody multiset) \<Rightarrow> string \<Rightarrow> ('s, 'w \<times> pyval list) fp_state \<Rightarrow> qbody multiset" where
  "accounted kept t st = (case st of (n, s, w, l) \<Rightarrow> mset (map JsonBody l) + kept t s)"

lemma log_publish_cases:
  obtains w' u where "log_publish pub t v (w, l) = ((w', l @ [v]), Inr u)"
    | w' e where "log_publish pub t v (w, l) = ((w', l), Inl e)"
proof -
  obtain w' r where "pub t v w = (w', r)" by force
  then show ?thesis using that by (cases r) (auto simp: log_publish_def)
qed

lemma logging_fields [simp]:
  "fp_outbox (logging p) = fp_outbox p" "fp_topic (logging p) = fp_topic p"
  "fp_publish (logging p) = log_publish (fp_publish p)" "fp_inbound (logging p) = fp_inbound p" "fp_clock (logging p) = fp_clock p"
  by (simp_all add: logging_def)

context message_store
begin

text \<open>What disposing of one message, and then of a batch, does: nothing is lost, a delivery shrinks
  the outbox by one, and the rest of the batch stays on lease.\<close>

lemma deliver_one_spec:
  assumes "fp_outbox p = ops" "fp_topic p = t" "inv s" "holds t s m"
    and d: "deliver_one (logging p) m (n, s, w, l) = ((n', s', w', l'), r)"
  shows "inv s'" "accounted kept t (n', s', w', l') = accounted kept t (n, s, w, l)"
    "\<And>m'. holds t s m' \<Longrightarrow> m_ack m' \<noteq> m_ack m \<Longrightarrow> holds t s' m'"
    "r = Inr True \<Longrightarrow> size (kept t s) = Suc (size (kept t s'))" "r \<noteq> Inr True \<Longrightarrow> kept t s' = kept t s"
    "r = Inl e \<Longrightarrow> vget (m_body m) ''correlation_id'' = Inl e"
proof -
  have ka: "kept t s = add_mset (JsonBody (m_body m)) (kept t (so_ack ops m s))"
    using kept_ack assms(3,4) .
  have sz: "size (kept t s) = Suc (size (kept t (so_ack ops m s)))" using ka by (metis size_add_mset)
  consider u w1 where "log_publish (fp_publish p) (fp_inbound p) (m_body m) (w, l) = ((w1, l @ [m_body m]), Inr u)"
    | e w1 where "log_publish (fp_publish p) (fp_inbound p) (m_body m) (w, l) = ((w1, l), Inl e)"
    by (rule log_publish_cases [of "fp_publish p" "fp_inbound p" "m_body m" w l]) blast+
  then have "(s' = so_ack ops m s \<and> l' = l @ [m_body m] \<and> r = Inr True) \<or>
     (l' = l \<and> ((\<exists>c. s' = so_nack ops c m (Fin 0) s \<and> r = Inr False)
        \<or> (\<exists>e. s' = s \<and> r = Inl e \<and> vget (m_body m) ''correlation_id'' = Inl e)))"
  proof cases
    case 1
    with d assms(1) show ?thesis by (simp add: deliver_one_def)
  next
    case 2
    with d assms(1) show ?thesis
      by (cases "vget (m_body m) ''correlation_id''") (auto simp: deliver_one_def)
  qed
  then show "inv s'" "accounted kept t (n', s', w', l') = accounted kept t (n, s, w, l)"
    "\<And>m'. holds t s m' \<Longrightarrow> m_ack m' \<noteq> m_ack m \<Longrightarrow> holds t s' m'"
    "r = Inr True \<Longrightarrow> size (kept t s) = Suc (size (kept t s'))" "r \<noteq> Inr True \<Longrightarrow> kept t s' = kept t s"
    "r = Inl e \<Longrightarrow> vget (m_body m) ''correlation_id'' = Inl e"
    using assms(3,4) sz ka by (auto simp: accounted_def inv_ack inv_nack kept_nack holds_ack holds_nack)
qed

lemma deliver_batch_spec:
  assumes "fp_outbox p = ops" "fp_topic p = t"
  shows "inv s \<Longrightarrow> \<forall>m \<in> set ms. holds t s m \<Longrightarrow> distinct (map m_ack ms) \<Longrightarrow>
    deliver_batch (logging p) ms (n, s, w, l) = ((n', s', w', l'), r) \<Longrightarrow>
    inv s' \<and> accounted kept t (n', s', w', l') = accounted kept t (n, s, w, l)
      \<and> (\<forall>k. r = Inr k \<longrightarrow> size (kept t s) = size (kept t s') + k)
      \<and> (\<forall>e. r = Inl e \<longrightarrow> (\<exists>m \<in> set ms. vget (m_body m) ''correlation_id'' = Inl e))"
proof (induction ms arbitrary: n s w l n' s' w' l' r)
  case (Cons m ms)
  obtain n1 s1 w1 l1 r1 where d: "deliver_one (logging p) m (n, s, w, l) = ((n1, s1, w1, l1), r1)"
    by (cases "deliver_one (logging p) m (n, s, w, l)") auto
  have hm: "holds t s m" using Cons.prems(2) by simp
  note one = deliver_one_spec [OF assms Cons.prems(1) hm d]
  show ?case
  proof (cases r1)
    case (Inl e)
    then have "(n', s', w', l') = (n1, s1, w1, l1)" "r = Inl e" using Cons.prems(4) d by auto
    then show ?thesis using one Inl by auto
  next
    case (Inr ok)
    have rest: "\<forall>x \<in> set ms. holds t s1 x"
    proof
      fix x assume x: "x \<in> set ms"
      then have "m_ack x \<noteq> m_ack m" using Cons.prems(3) by (metis distinct.simps(2) image_eqI list.set_map list.simps(9))
      with x Cons.prems(2) show "holds t s1 x" by (intro one(3)) auto
    qed
    have dist: "distinct (map m_ack ms)" using Cons.prems(3) by simp
    obtain st2 r2 where b: "deliver_batch (logging p) ms (n1, s1, w1, l1) = (st2, r2)"
      by (cases "deliver_batch (logging p) ms (n1, s1, w1, l1)")
    obtain n2 s2 w2 l2 where st2: "st2 = (n2, s2, w2, l2)" by (cases st2) auto
    from Cons.IH [OF one(1) rest dist b [unfolded st2]]
    have IH: "inv s2" "accounted kept t (n2, s2, w2, l2) = accounted kept t (n1, s1, w1, l1)"
      "\<And>k. r2 = Inr k \<Longrightarrow> size (kept t s1) = size (kept t s2) + k"
      "\<And>e. r2 = Inl e \<Longrightarrow> \<exists>m \<in> set ms. vget (m_body m) ''correlation_id'' = Inl e" by auto
    have "(n', s', w', l') = (n2, s2, w2, l2)"
        "r = (case r2 of Inl e \<Rightarrow> Inl e | Inr k \<Rightarrow> Inr (if ok then Suc k else k))"
      using Cons.prems(4) d Inr b st2 by (cases r2; auto)+
    moreover have "size (kept t s) = size (kept t s1) + (if ok then 1 else 0)"
      using one(4,5) Inr by (cases ok) simp_all
    ultimately show ?thesis
      using IH one(2) by (cases r2) auto
  qed
qed simp

lemma held_kept: "inv s \<Longrightarrow> holds t s m \<Longrightarrow> kept t s \<noteq> {#}"
  using kept_ack by (metis empty_not_add_mset)

lemma flush_loop_spec:
  assumes "fp_outbox p = ops" "fp_topic p = t"
  shows "inv s \<Longrightarrow> size (kept t s) < fuel \<Longrightarrow>
    \<exists>n' s' w' l' r. flush_loop (logging p) fuel k (n, s, w, l) = Some ((n', s', w', l'), r)
      \<and> inv s' \<and> accounted kept t (n', s', w', l') = accounted kept t (n, s, w, l)
      \<and> (\<forall>j. r = Inr j \<longrightarrow> size (kept t s) + k = size (kept t s') + j)"
proof (induction fuel arbitrary: k n s w l)
  case (Suc fuel)
  obtain s1 rb where pull: "so_pull ops (fp_clock p n) t 10 s = (s1, rb)" by force
  have inv1: "inv s1" using inv_pull [OF Suc.prems(1), of "fp_clock p n" t 10] pull by simp
  have kept1: "kept t s1 = kept t s" using kept_pull [OF Suc.prems(1), of t "fp_clock p n" 10] pull by simp
  show ?case
  proof (cases rb)
    case (Inl e)
    then show ?thesis using pull inv1 kept1 assms by (simp add: accounted_def)
  next
    case (Inr batch)
    note held = pull_holds [OF Suc.prems(1) pull [unfolded Inr]] and dist = pull_distinct [OF Suc.prems(1) pull [unfolded Inr]]
    show ?thesis
    proof (cases "batch = []")
      case True
      then show ?thesis using pull Inr inv1 kept1 assms by (simp add: accounted_def)
    next
      case False
      obtain st2 r2 where b: "deliver_batch (logging p) batch (Suc n, s1, w, l) = (st2, r2)"
        by (cases "deliver_batch (logging p) batch (Suc n, s1, w, l)")
      obtain n2 s2 w2 l2 where st2: "st2 = (n2, s2, w2, l2)" by (cases st2) auto
      have bs: "inv s2" "accounted kept t (n2, s2, w2, l2) = accounted kept t (Suc n, s1, w, l)"
        "\<And>j. r2 = Inr j \<Longrightarrow> size (kept t s1) = size (kept t s2) + j"
        using deliver_batch_spec [OF assms inv1 _ dist b [unfolded st2]] held by auto
      have acc: "accounted kept t (n2, s2, w2, l2) = accounted kept t (n, s, w, l)"
        using bs(2) kept1 by (simp add: accounted_def)
      show ?thesis
      proof (cases "\<exists>j. r2 = Inr (Suc j)")
        case True
        then obtain j where j: "r2 = Inr (Suc j)" by blast
        have "size (kept t s2) < fuel" using bs(3) [OF j] kept1 Suc.prems(2) by simp
        from Suc.IH [OF bs(1) this, of "k + Suc j" n2 w2 l2] obtain n' s' w' l' r where
          "flush_loop (logging p) fuel (k + Suc j) (n2, s2, w2, l2) = Some ((n', s', w', l'), r)" "inv s'"
          "accounted kept t (n', s', w', l') = accounted kept t (n2, s2, w2, l2)"
          "\<forall>i. r = Inr i \<longrightarrow> size (kept t s2) + (k + Suc j) = size (kept t s') + i" by blast
        moreover have "flush_loop (logging p) (Suc fuel) k (n, s, w, l) = flush_loop (logging p) fuel (k + Suc j) (n2, s2, w2, l2)"
          using pull Inr False b st2 j assms by simp
        ultimately show ?thesis using acc bs(3) [OF j] kept1 by auto
      next
        case no: False
        then have "flush_loop (logging p) (Suc fuel) k (n, s, w, l) =
            Some ((n2, s2, w2, l2), case r2 of Inl e \<Rightarrow> Inl e | Inr _ \<Rightarrow> Inr k)"
          using pull Inr False b st2 assms by (cases r2) (auto simp: gr0_conv_Suc)
        moreover have "size (kept t s) = size (kept t s2)" if "r2 = Inr i" for i
          using that no bs(3) kept1 by (cases i) auto
        ultimately show ?thesis using acc bs(1) by (cases r2) auto
      qed
    qed
  qed
qed simp

end


section \<open>Properties\<close>

text \<open>The outbox loses and invents nothing, and the loop around it ends. With one unit of fuel
  per retained message and one more, a flush of the durable outbox returns; what the downstream
  queue accepted during it together with what the outbox still holds is exactly what was there
  before, and the reported count is the number of messages that left, whatever fails in between.\<close>

theorem flush_conserves:
  assumes "fp_outbox p = local_ops" "qdb_wf (snd s)" "size (retained (fp_topic p) (snd s)) < fuel"
  shows "\<exists>n' s' w' l' r. flush (logging p) fuel (n, s, w, l) = Some ((n', s', w', l'), r)
    \<and> mset (map JsonBody l') + retained (fp_topic p) (snd s') = mset (map JsonBody l) + retained (fp_topic p) (snd s)
    \<and> (\<forall>j. r = Inr j \<longrightarrow> size (retained (fp_topic p) (snd s)) = size (retained (fp_topic p) (snd s')) + j)"
  using local_store.flush_loop_spec [OF assms(1) refl assms(2,3), of 0 n w l]
  by (auto simp: flush_def accounted_def)

definition wit_producer :: "(backend \<times> qdb, unit) producer" where
  "wit_producer = \<lparr>fp_publish = (\<lambda>t v w. (w, Inl OSError)), fp_inbound = ''ams-inbound'', fp_outbox = local_ops,
     fp_topic = ''fill_outbox'', fp_clock = (\<lambda>n. \<lparr>db_now = Fin (of_nat n), py_now = Fin (of_nat n), iso_now = ''now''\<rparr>)\<rparr>"

theorem flush_conserves_witness:
  "\<exists>n' s' w' l' r. flush (logging wit_producer) 2 (0, (build_outbox ''p0'', publish ''fill_outbox'' (VDict []) empty_qdb), (), [])
      = Some ((n', s', w', l'), r)
    \<and> mset (map JsonBody l') + retained ''fill_outbox'' (snd s') = {#JsonBody (VDict [])#}"
proof -
  have r: "retained ''fill_outbox'' (publish ''fill_outbox'' (VDict []) empty_qdb) = {#JsonBody (VDict [])#}"
    by (simp add: retained_publish) (simp add: retained_def empty_qdb_def)
  have f: "fp_outbox wit_producer = local_ops" "fp_topic wit_producer = ''fill_outbox''" by (simp_all add: wit_producer_def)
  have "\<exists>n' s' w' l' r. flush (logging wit_producer) 2 (0, (build_outbox ''p0'', publish ''fill_outbox'' (VDict []) empty_qdb), (), [])
      = Some ((n', s', w', l'), r)
    \<and> mset (map JsonBody l') + retained (fp_topic wit_producer) (snd s')
      = mset (map JsonBody []) + retained (fp_topic wit_producer) (snd (build_outbox ''p0'', publish ''fill_outbox'' (VDict []) empty_qdb))
    \<and> (\<forall>j. r = Inr j \<longrightarrow> size (retained (fp_topic wit_producer) (snd (build_outbox ''p0'', publish ''fill_outbox'' (VDict []) empty_qdb)))
        = size (retained (fp_topic wit_producer) (snd s')) + j)"
    by (rule flush_conserves [OF f(1)]) (simp_all add: f r qdb_wf_intros)
  then show ?thesis unfolding f(2) snd_conv r by auto
qed

text \<open>C14: Persist, then publish: publishing a fill with a valid status always returns, and afterwards
  its confirmation, identified by the order's key and correlation id, is either accepted downstream
  or still in the durable outbox, beside everything that was there before.\<close>

theorem published_fill_is_never_lost:
  assumes "fp_outbox p = local_ops" "qdb_wf (snd s)" "fr_status f \<in> VALID_REALIZED_STATUS"
    and "size (retained (fp_topic p) (snd s)) + 1 < fuel"
  shows "\<exists>msg n' s' w' l' r. publish_fill (logging p) fuel msg_id ts ord f (n, s, w, l) = Some ((n', s', w', l'), r)
    \<and> vget msg ''idempotency_key'' = Inr (VStr (ao_key ord)) \<and> vget msg ''correlation_id'' = Inr (VStr (ao_corr ord))
    \<and> vget msg ''payload'' = Inr (fill_payload ord f)
    \<and> mset (map JsonBody l') + retained (fp_topic p) (snd s')
      = add_mset (JsonBody msg) (mset (map JsonBody l) + retained (fp_topic p) (snd s))"
proof -
  obtain msg where m: "build_message msg_id ts ord f = Inr msg"
      "vget msg ''idempotency_key'' = Inr (VStr (ao_key ord))" "vget msg ''correlation_id'' = Inr (VStr (ao_corr ord))"
      "vget msg ''payload'' = Inr (fill_payload ord f)"
    using assms(3) by (simp add: build_message_def make_envelope_def)
  let ?s = "(fst s, publish (fp_topic p) msg (snd s))"
  have put: "outbox_put (logging p) msg (n, s, w, l) = (n, ?s, w, l)"
    using assms(1) by (simp add: outbox_put_def local_ops_def)
  have r: "retained (fp_topic p) (snd ?s) = add_mset (JsonBody msg) (retained (fp_topic p) (snd s))"
    by (simp add: retained_publish)
  have wf: "qdb_wf (snd ?s)" using assms(2) by (simp add: qdb_wf_publish)
  have "size (retained (fp_topic p) (snd ?s)) < fuel" using assms(4) r by simp
  from local_store.flush_loop_spec [OF assms(1) refl wf this, of 0 n w l] obtain n' s' w' l' rr where
    "flush (logging p) fuel (n, ?s, w, l) = Some ((n', s', w', l'), rr)"
    "mset (map JsonBody l') + retained (fp_topic p) (snd s') = mset (map JsonBody l) + retained (fp_topic p) (snd ?s)"
    by (auto simp: flush_def accounted_def)
  then show ?thesis
    using m r by (intro exI [of _ msg] exI [of _ n'] exI [of _ s'] exI [of _ w'] exI [of _ l'])
      (simp add: publish_fill_def persist_then_flush_def put)
qed

definition wit_fill :: fill_result where
  "wit_fill = \<lparr>fr_status = ''FILLED'', fr_units = Fin 1000, fr_order_id = Some ''10'', fr_trade_id = Some ''11'',
     fr_requested = Some (Fin 150), fr_price = Some (Fin 150), fr_time = VNone, fr_slippage = Some (Fin 0),
     fr_sl = Some (Fin 148), fr_tp = Some (Fin 156), fr_reason = VNone, fr_model_set = None\<rparr>"

theorem published_fill_is_never_lost_witness:
  "\<exists>msg n' s' w' l' r. publish_fill (logging wit_producer) 2 ''m1'' ''now'' wit_order wit_fill (0, (build_outbox ''p0'', empty_qdb), (), [])
      = Some ((n', s', w', l'), r)
    \<and> JsonBody msg \<in># mset (map JsonBody l') + retained (fp_topic wit_producer) (snd s')"
proof -
  have f: "fp_outbox wit_producer = local_ops" by (simp add: wit_producer_def)
  have wf: "qdb_wf (snd (build_outbox ''p0'', empty_qdb))" by (simp add: qdb_wf_empty)
  have st: "fr_status wit_fill \<in> VALID_REALIZED_STATUS" by (simp add: wit_fill_def VALID_REALIZED_STATUS_def)
  have fuel: "size (retained (fp_topic wit_producer) (snd (build_outbox ''p0'', empty_qdb))) + 1 < 2"
    by (simp add: retained_def empty_qdb_def)
  from published_fill_is_never_lost [OF f wf st fuel, of "''m1''" "''now''" wit_order 0 "()" "[]"]
  obtain msg n' s' w' l' r where
    "publish_fill (logging wit_producer) 2 ''m1'' ''now'' wit_order wit_fill (0, (build_outbox ''p0'', empty_qdb), (), [])
      = Some ((n', s', w', l'), r)"
    and m: "mset (map JsonBody l') + retained (fp_topic wit_producer) (snd s')
      = add_mset (JsonBody msg) (mset (map JsonBody []) + retained (fp_topic wit_producer) (snd (build_outbox ''p0'', empty_qdb)))"
    by blast
  moreover have "JsonBody msg \<in># mset (map JsonBody l') + retained (fp_topic wit_producer) (snd s')"
    unfolding m by simp
  ultimately show ?thesis by blast
qed

end
