(* ===== verification/Validation.thy ===== *)
theory Validation
  imports Pipeline_Laws
begin

text \<open>
  \<open>execution/validation.py\<close>: the structural check of a raw message, its time-to-live, and the
  last-line gate on the constructed order. A result carries the failure code; the reason texts,
  which only describe the offending value, are left out.
\<close>

section \<open>Messages\<close>

datatype vresult = Passed | Failed string

definition VALID_GRANULARITIES :: "string set" where
  "VALID_GRANULARITIES = {''H1'', ''H4''}"

definition VALID_SIDES :: "string set" where
  "VALID_SIDES = {''BUY'', ''SELL''}"

definition REQUIRED_ORDER_FIELDS :: "string list" where
  "REQUIRED_ORDER_FIELDS = [''schema_version'', ''message_id'', ''idempotency_key'', ''correlation_id'',
     ''instrument'', ''side'', ''units'', ''granularity'', ''risk_context'']"

definition check_atr :: "pydict \<Rightarrow> vresult res" where
  "check_atr rc = (case py_float (dget rc ''atr'') of
      Inl e \<Rightarrow> if isa_TypeOrValue e then Inr (Failed ''risk_context'') else Inl e
    | Inr atr \<Rightarrow> if \<not> is_finite atr then Inr (Failed ''risk_context'')
        else if fl_le atr (Fin 0) then Inr (Failed ''risk_context'') else Inr Passed)"

definition check_units :: "pydict \<Rightarrow> vresult res" where
  "check_units raw = ebind (dindex raw ''units'') (\<lambda>u. case py_float u of
      Inl e \<Rightarrow> if isa_TypeOrValue e then Inr (Failed ''units'') else Inl e
    | Inr units \<Rightarrow> if \<not> is_finite units then Inr (Failed ''units'')
        else if fl_eq units (Fin 0) then Inr (Failed ''zero_units'')
        else (case dget raw ''risk_context'' of
            VDict rc \<Rightarrow> check_atr rc
          | _ \<Rightarrow> Inr (Failed ''risk_context'')))"

definition validate_envelope :: "pyval \<Rightarrow> vresult res" where
  "validate_envelope v = (case v of VDict raw \<Rightarrow>
      (if py_str (dget_or raw ''schema_version'' (VStr [])) \<noteq> ''1'' then Inr (Failed ''schema_version'')
       else if filter (\<lambda>f. dget raw f = VNone) REQUIRED_ORDER_FIELDS \<noteq> [] then Inr (Failed ''missing_field'')
       else if upper (py_str (dget_or raw ''side'' (VStr []))) \<notin> VALID_SIDES then Inr (Failed ''side'')
       else if py_str (dget_or raw ''granularity'' (VStr [])) \<notin> VALID_GRANULARITIES then Inr (Failed ''granularity'')
       else check_units raw)
    | _ \<Rightarrow> Inr (Failed ''not_a_dict''))"

section \<open>Time to live\<close>

text \<open>\<open>_parse_iso\<close> and the conversion to UTC that always follows it. A value with no \<open>replace\<close> (not
  a string) and an unparseable text give no time; a conversion that leaves the range of
  \<open>datetime\<close> raises \<open>OverflowError\<close> where \<open>astimezone\<close> is called.\<close>

definition parse_iso :: "pyval \<Rightarrow> instant option res" where
  "parse_iso v = (case v of VStr s \<Rightarrow> (case parse_ts_str s of
        Inr t \<Rightarrow> Inr (Some t) | Inl e \<Rightarrow> if isa_TypeOrValue e then Inr None else Inl e)
    | _ \<Rightarrow> Inr None)"

definition created_age_expired :: "pydict \<Rightarrow> instant \<Rightarrow> int option \<Rightarrow> bool res" where
  "created_age_expired raw now max_age = (case max_age of None \<Rightarrow> Inr False
    | Some m \<Rightarrow> if \<not> truthy (dget raw ''created_at'') then Inr False
        else ebind (parse_iso (dget raw ''created_at'')) (\<lambda>r. case r of None \<Rightarrow> Inr False
          | Some created \<Rightarrow> Inr (fl_less (Fin (of_int m)) (total_seconds (now - created)))))"

definition is_expired :: "pydict \<Rightarrow> instant \<Rightarrow> int option \<Rightarrow> bool res" where
  "is_expired raw now max_age =
     ebind (if truthy (dget raw ''expires_at'') then parse_iso (dget raw ''expires_at'') else Inr None)
       (\<lambda>r. case r of Some limit \<Rightarrow> Inr (limit \<le> now) | None \<Rightarrow> created_age_expired raw now max_age)"

section \<open>The last-line gate\<close>

record order_validator =
  ov_require_sl :: bool
  ov_max_units :: pyfloat
  ov_max_notional :: pyfloat
  ov_max_leverage :: pyfloat
  ov_tradeable :: "string list option"

text \<open>\<open>open_notional\<close> is a float; \<open>account_equity\<close> is one or \<open>None\<close>. The stop of a constructed order
  is never \<open>None\<close>.\<close>

definition check_session :: "instant \<Rightarrow> vresult res" where
  "check_session now = (if \<not> is_in_session now then Inr (Failed ''out_of_session'') else Inr Passed)"

definition check_leverage :: "order_validator \<Rightarrow> pyfloat option \<Rightarrow> pyfloat \<Rightarrow> instant \<Rightarrow> vresult res" where
  "check_leverage ov equity exposure now = (case equity of
      Some e \<Rightarrow> if \<not> fl_eq e (Fin 0) \<and> fl_less (Fin 0) e
        then ebind (fl_div exposure e) (\<lambda>lev. if fl_less (ov_max_leverage ov) lev then Inr (Failed ''max_leverage'')
          else check_session now)
        else check_session now
    | None \<Rightarrow> check_session now)"

definition validate :: "order_validator \<Rightarrow> instant \<Rightarrow> constructed_order \<Rightarrow> pyfloat option \<Rightarrow> pyfloat \<Rightarrow> vresult res" where
  "validate ov now c equity open_notional =
     (if ov_require_sl ov \<and> fl_eq (co_sl c) (Fin 0) then Inr (Failed ''no_stop_loss'')
      else if (case ov_tradeable ov of None \<Rightarrow> False | Some allow \<Rightarrow> co_instrument c \<notin> set allow)
        then Inr (Failed ''untradeable'')
      else let units = fl_abs (co_units c) in
        if fl_less (ov_max_units ov) units then Inr (Failed ''max_units_per_pair'')
        else let notional = fl_mul units (co_entry c); exposure = fl_add notional open_notional in
          if fl_less (ov_max_notional ov) exposure then Inr (Failed ''max_total_notional'')
          else check_leverage ov equity exposure now)"

definition validator_from_secrets :: "secrets \<Rightarrow> order_validator res" where
  "validator_from_secrets sec =
     (let allow = sec_get sec ''TRADEABLE_INSTRUMENTS'';
          instruments = (case allow of None \<Rightarrow> None
            | Some a \<Rightarrow> if a = [] then None else Some (filter (\<lambda>s. s \<noteq> []) (map strip (split_on (CHR '','') a))))
      in ebind (fl_of_int (sec_int sec ''MAX_UNITS_PER_PAIR'' 1000000)) (\<lambda>mu.
         ebind (fl_of_int (sec_int sec ''MAX_TOTAL_NOTIONAL'' 5000000)) (\<lambda>mn.
         ebind (fl_of_int (sec_int sec ''MAX_LEVERAGE'' 30)) (\<lambda>ml.
           Inr \<lparr>ov_require_sl = sec_bool sec ''REQUIRE_STOP_LOSS'' True, ov_max_units = mu,
             ov_max_notional = mn, ov_max_leverage = ml, ov_tradeable = instruments\<rparr>))))"


section \<open>Laws\<close>

lemma check_atr_Passed: "check_atr rc = Inr Passed \<longleftrightarrow>
    (\<exists>atr. py_float (dget rc ''atr'') = Inr atr \<and> is_finite atr \<and> fl_less (Fin 0) atr)"
proof (cases "py_float (dget rc ''atr'')")
  case (Inr atr)
  then show ?thesis by (cases atr) (auto simp: check_atr_def fl_le_def)
qed (auto simp: check_atr_def)

lemma check_units_Passed: "check_units raw = Inr Passed \<longleftrightarrow>
    (\<exists>u units rc. map_of raw ''units'' = Some u \<and> py_float u = Inr units \<and> is_finite units \<and> units \<noteq> Fin 0
       \<and> dget raw ''risk_context'' = VDict rc \<and> check_atr rc = Inr Passed)"
proof -
  have eq: "fl_eq units (Fin 0) \<longleftrightarrow> units = Fin 0" for units by (auto simp: fl_eq_iff)
  show ?thesis
    by (auto simp: check_units_def dindex_def eq split: option.splits sum.splits pyval.splits if_splits)
qed

lemma validate_envelope_Passed: "validate_envelope v = Inr Passed \<longleftrightarrow>
    (\<exists>raw. v = VDict raw \<and> py_str (dget_or raw ''schema_version'' (VStr [])) = ''1''
      \<and> (\<forall>f \<in> set REQUIRED_ORDER_FIELDS. dget raw f \<noteq> VNone)
      \<and> upper (py_str (dget_or raw ''side'' (VStr []))) \<in> VALID_SIDES
      \<and> py_str (dget_or raw ''granularity'' (VStr [])) \<in> VALID_GRANULARITIES
      \<and> check_units raw = Inr Passed)"
  by (auto simp: validate_envelope_def filter_empty_conv split: pyval.splits if_splits)

lemma dget_dget_or: "dget d k \<noteq> VNone \<Longrightarrow> dget_or d k x = dget d k"
  by (auto simp: dget_def dget_or_def split: option.splits)

lemma dget_map_of: "dget d k \<noteq> VNone \<Longrightarrow> map_of d k = Some (dget d k)"
  by (auto simp: dget_def dget_or_def split: option.splits)

text \<open>The optional stop suggestions of a message are the one part of its risk context that the
  envelope check does not look at.\<close>

definition suggestions_numeric :: "pydict \<Rightarrow> bool" where
  "suggestions_numeric raw \<longleftrightarrow> (\<forall>rc. dget raw ''risk_context'' = VDict rc \<longrightarrow>
     (\<forall>f \<in> {''suggested_sl'', ''suggested_tp''}. dget rc f = VNone \<or> (\<exists>x. py_float (dget rc f) = Inr x)))"

lemma optional_float_ok: "v = VNone \<or> (\<exists>x. py_float v = Inr x) \<Longrightarrow> \<exists>y. optional_float v = Inr y"
  by (auto simp: optional_float_def)

lemma valid_envelope_order:
  assumes "validate_envelope (VDict raw) = Inr Passed" "suggestions_numeric raw"
  shows "\<exists>ord. approved_from raw = Inr ord \<and> ao_side ord \<in> VALID_SIDES \<and> ao_gran ord \<in> VALID_GRANULARITIES
    \<and> is_finite (ao_units ord) \<and> ao_units ord \<noteq> Fin 0
    \<and> is_finite (rc_atr (ao_rc ord)) \<and> fl_less (Fin 0) (rc_atr (ao_rc ord))"
proof -
  from assms(1) have req: "\<forall>f \<in> set REQUIRED_ORDER_FIELDS. dget raw f \<noteq> VNone"
    and side: "upper (py_str (dget raw ''side'')) \<in> VALID_SIDES"
    and gran: "py_str (dget raw ''granularity'') \<in> VALID_GRANULARITIES"
    and cu: "check_units raw = Inr Passed"
    by (auto simp: validate_envelope_Passed dget_dget_or REQUIRED_ORDER_FIELDS_def)
  from cu obtain u units rc atr where u: "map_of raw ''units'' = Some u" "py_float u = Inr units" "is_finite units"
      "units \<noteq> Fin 0" and rc: "dget raw ''risk_context'' = VDict rc"
      and atr: "py_float (dget rc ''atr'') = Inr atr" "is_finite atr" "fl_less (Fin 0) atr"
    by (auto simp: check_units_Passed check_atr_Passed)
  have atr_in: "dindex rc ''atr'' = Inr (dget rc ''atr'')"
    using atr(1) by (intro dget_Some_dindex) auto
  obtain sl tp where "optional_float (dget rc ''suggested_sl'') = Inr sl" "optional_float (dget rc ''suggested_tp'') = Inr tp"
    using assms(2) rc optional_float_ok unfolding suggestions_numeric_def by (metis insertI1 insertI2)
  then have rcf: "risk_context_from (VDict rc) = Inr \<lparr>rc_atr = atr, rc_sl = sl, rc_tp = tp\<rparr>"
    using atr by (simp add: risk_context_from_def atr_in)
  have ix: "dindex raw f = Inr (dget raw f)" if "f \<in> set REQUIRED_ORDER_FIELDS" for f
    using that req by (intro dget_Some_dindex) auto
  have "dindex raw ''units'' = Inr u" using u(1) by (simp add: dindex_def)
  then show ?thesis
    using side gran u atr rcf rc ix by (simp add: approved_from_def REQUIRED_ORDER_FIELDS_def)
qed

lemma is_expired_mono:
  assumes "is_expired raw now m = Inr True" "now \<le> now'" shows "is_expired raw now' m = Inr True"
proof -
  have ts: "fl_less x (total_seconds (now - c)) \<Longrightarrow> fl_less x (total_seconds (now' - c))" for x c
    using total_seconds_mono [of "now - c" "now' - c"] assms(2) by (auto intro: fl_less_le_trans)
  have age: "created_age_expired raw now' m = Inr True" if "created_age_expired raw now m = Inr True"
    using that ts by (cases m; cases "parse_iso (dget raw ''created_at'')")
      (auto simp: created_age_expired_def split: option.splits if_splits)
  show ?thesis
    using assms age
    by (cases "if truthy (dget raw ''expires_at'') then parse_iso (dget raw ''expires_at'') else Inr None")
       (auto simp: is_expired_def split: option.splits)
qed

lemma check_session_Passed: "check_session now = Inr Passed \<longleftrightarrow> is_in_session now"
  by (simp add: check_session_def)

lemma fl_div_positive: "fl_less (Fin 0) e \<Longrightarrow> \<exists>q. fl_div x e = Inr q"
  by (cases e; cases x) auto

section \<open>Properties\<close>


definition wit_raw :: "pyval \<Rightarrow> pyval \<Rightarrow> pydict" where
  "wit_raw units sl = [(''schema_version'', VStr ''1''), (''message_id'', VStr ''m1''), (''idempotency_key'', VStr ''k1''),
     (''correlation_id'', VStr ''c1''), (''instrument'', VStr ''USD_JPY''), (''side'', VStr ''buy''),
     (''units'', units), (''granularity'', VStr ''H1''),
     (''risk_context'', VDict [(''atr'', VInt 2), (''suggested_sl'', sl)])]"

lemma wit_raw_envelope: "u \<noteq> VNone \<Longrightarrow> validate_envelope (VDict (wit_raw u sl)) = check_units (wit_raw u sl)"
proof -
  assume u: "u \<noteq> VNone"
  have "upper ''buy'' = ''BUY''" by code_simp
  then show ?thesis
    by (simp add: u validate_envelope_def wit_raw_def REQUIRED_ORDER_FIELDS_def VALID_SIDES_def VALID_GRANULARITIES_def)
qed

lemma wit_raw_passes: "validate_envelope (VDict (wit_raw (VInt 1000) sl)) = Inr Passed"
  by (simp add: wit_raw_envelope) (simp add: wit_raw_def check_units_def check_atr_def dindex_def)

lemma wit_raw_huge: "2 ^ 1024 \<le> n \<Longrightarrow> validate_envelope (VDict (wit_raw (VInt n) sl)) = Inl OverflowError"
proof -
  assume "2 ^ 1024 \<le> n"
  then have "py_float (VInt n) = Inl OverflowError" by (simp add: fl_of_int_overflow)
  then show ?thesis
    by (simp add: wit_raw_envelope) (simp add: check_units_def wit_raw_def dindex_def isa_TypeOrValue_def)
qed

lemma wit_raw_bad: "approved_from (wit_raw (VInt 1000) (VStr ''n/a'')) = Inl ValueError"
proof -
  have "float_of_str ''n/a'' = Inl ValueError" by code_simp
  then show ?thesis
    by (simp add: approved_from_def wit_raw_def dindex_def risk_context_from_def optional_float_def)
qed


text \<open>The check has a gap: a suggestion that is not a number passes it, and parsing the order
  then raises. So does, as an \<open>OverflowError\<close> out of the check itself, a size that is an integer
  beyond the range of \<open>float\<close>.\<close>

theorem envelope_check_gaps:
  "validate_envelope (VDict (wit_raw (VInt 1000) (VStr ''n/a''))) = Inr Passed
   \<and> approved_from (wit_raw (VInt 1000) (VStr ''n/a'')) = Inl ValueError
   \<and> validate_envelope (VDict (wit_raw (VInt (10 ^ 400)) VNone)) = Inl OverflowError"
proof (intro conjI)
  show "validate_envelope (VDict (wit_raw (VInt 1000) (VStr ''n/a''))) = Inr Passed" by (rule wit_raw_passes)
  show "approved_from (wit_raw (VInt 1000) (VStr ''n/a'')) = Inl ValueError" by (rule wit_raw_bad)
  have "(2 :: int) ^ 1024 \<le> 10 ^ 400" by simp
  then show "validate_envelope (VDict (wit_raw (VInt (10 ^ 400)) VNone)) = Inl OverflowError" by (rule wit_raw_huge)
qed

text \<open>An expired order stays expired: the time-to-live check is monotone in the clock.\<close>

theorem expiry_is_permanent:
  assumes "is_expired raw now max_age = Inr True" "now \<le> now'"
  shows "is_expired raw now' max_age = Inr True"
  by (rule is_expired_mono [OF assms])

theorem expiry_is_permanent_witness:
  "is_expired [(''expires_at'', VStr ''1970-01-01T00:00:01Z'')] 2000000 None = Inr True"
proof (rule expiry_is_permanent)
  show "is_expired [(''expires_at'', VStr ''1970-01-01T00:00:01Z'')] 1000000 None = Inr True" by code_simp
qed simp

text \<open>C30: The last-line gate passes an order exactly when it carries a stop, its instrument is
  allowed, its size, the total notional and (with a known positive equity) the leverage do not
  exceed their ceilings, and the session is open.\<close>

theorem last_line_gate_exact:
  "validate ov now c equity open_notional = Inr Passed \<longleftrightarrow>
     (ov_require_sl ov \<longrightarrow> \<not> fl_eq (co_sl c) (Fin 0))
     \<and> (\<forall>allow. ov_tradeable ov = Some allow \<longrightarrow> co_instrument c \<in> set allow)
     \<and> \<not> fl_less (ov_max_units ov) (fl_abs (co_units c))
     \<and> \<not> fl_less (ov_max_notional ov) (fl_add (fl_mul (fl_abs (co_units c)) (co_entry c)) open_notional)
     \<and> (\<forall>e lev. equity = Some e \<and> fl_less (Fin 0) e
          \<and> fl_div (fl_add (fl_mul (fl_abs (co_units c)) (co_entry c)) open_notional) e = Inr lev \<longrightarrow>
          \<not> fl_less (ov_max_leverage ov) lev)
     \<and> is_in_session now"
proof -
  let ?x = "fl_add (fl_mul (fl_abs (co_units c)) (co_entry c)) open_notional"
  have lev: "check_leverage ov equity ?x now = Inr Passed \<longleftrightarrow>
      (\<forall>e lev. equity = Some e \<and> fl_less (Fin 0) e \<and> fl_div ?x e = Inr lev \<longrightarrow> \<not> fl_less (ov_max_leverage ov) lev)
      \<and> is_in_session now"
  proof (cases "\<exists>e. equity = Some e \<and> fl_less (Fin 0) e")
    case True
    then obtain e q where e: "equity = Some e" "fl_less (Fin 0) e" and q: "fl_div ?x e = Inr q"
      using fl_div_positive by blast
    then have "\<not> fl_eq e (Fin 0)" by (auto simp: fl_eq_iff)
    with e q show ?thesis by (simp add: check_leverage_def check_session_Passed)
  next
    case False
    then show ?thesis by (auto simp: check_leverage_def check_session_Passed split: option.splits)
  qed
  show ?thesis
    unfolding validate_def Let_def
    by (auto simp: lev split: option.splits)
qed


definition wit_validator :: order_validator where
  "wit_validator = \<lparr>ov_require_sl = True, ov_max_units = Fin 1000000, ov_max_notional = Fin 5000000,
     ov_max_leverage = Fin 30, ov_tradeable = Some [''USD_JPY'']\<rparr>"

lemma wit_in_session: "is_in_session wit_now"
  unfolding wit_now_def by code_simp

theorem last_line_gate_exact_witness:
  "validate wit_validator wit_now wit_constructed (Some (Fin 50000)) (Fin 0) = Inr Passed"
  unfolding last_line_gate_exact
  using wit_in_session by (simp add: wit_validator_def wit_constructed_def b64_small)

end
