(* ===== verification/Outbound_Consumer.thy ===== *)
theory Outbound_Consumer
  imports Validation Queue_Laws
begin

text \<open>
  \<open>execution/outbound_consumer.py\<close>: the persistent processed-key ledger, the lag record, and the
  poller that routes each message of the outbound subscription. The injected functions act on a
  world \<open>'w\<close> and may raise; the clocks are readings of the world. The reason text stored with a
  dead-lettered message is a parameter (\<open>oc_reason\<close>). The queue's disposal operations do not fail,
  as on the local backend, so the \<open>dlq_error\<close> outcome does not occur.
\<close>

section \<open>The persistent ledger\<close>

record processed_db =
  pd_rows :: "(string \<times> string) list"
  pd_clock :: "nat \<Rightarrow> string"
  pd_tick :: nat

definition sqlite_seen :: "string \<Rightarrow> processed_db \<Rightarrow> bool" where
  "sqlite_seen k db = list_ex (\<lambda>r. fst r = k) (pd_rows db)"

text \<open>\<open>INSERT OR IGNORE\<close>: a key that is there keeps its row and its time.\<close>

definition sqlite_mark :: "string \<Rightarrow> processed_db \<Rightarrow> processed_db" where
  "sqlite_mark k db = (if sqlite_seen k db then db\<lparr>pd_tick := Suc (pd_tick db)\<rparr>
     else db\<lparr>pd_rows := pd_rows db @ [(k, pd_clock db (pd_tick db))], pd_tick := Suc (pd_tick db)\<rparr>)"

definition sqlite_ops :: "processed_db processed_ops" where
  "sqlite_ops = \<lparr>pr_seen = sqlite_seen, pr_mark = sqlite_mark\<rparr>"

interpretation sqlite_store: processed_store sqlite_ops
  by unfold_locales (auto simp: sqlite_ops_def sqlite_mark_def sqlite_seen_def)

section \<open>Lag\<close>

record consumer_lag =
  lg_poll :: "instant option"
  lg_message :: "instant option"
  lg_created :: "instant option"
  lg_seen :: int

definition seconds_since_last_message :: "consumer_lag \<Rightarrow> instant \<Rightarrow> pyfloat option" where
  "seconds_since_last_message lag now = map_option (\<lambda>t. total_seconds (now - t)) (lg_message lag)"

section \<open>The consumer\<close>

definition HEARTBEAT_EVENT_TYPE :: string where
  "HEARTBEAT_EVENT_TYPE = ''system3.heartbeat''"

definition durable_decision :: "decision \<Rightarrow> bool" where
  "durable_decision d \<longleftrightarrow> d \<in> {EXECUTED, SHADOW, SKIPPED_DUPLICATE, REJECTED_BACKUP_GUARD, REJECTED_INVALID,
     REJECTED_VALIDATION, DEFERRED_LEGACY}"

record ('q, 's, 'w, 'f) consumer =
  oc_queue :: "'q store_ops"
  oc_subscription :: string
  oc_processed :: "'s processed_ops"
  oc_pipeline :: pipeline
  oc_price :: "approved_order \<Rightarrow> ('w, pyval) act"
  oc_hooks :: "approved_order \<Rightarrow> ('w, 'f) hooks"
  oc_gate :: "('w \<Rightarrow> bool) option"
  oc_heartbeat :: "(instant \<Rightarrow> ('w, bool) act) option"
  oc_open :: "('w, string list) act"
  oc_max_age :: "int option"
  oc_prefetch :: nat
  oc_park :: pyfloat
  oc_clock :: "'w \<Rightarrow> instant"
  oc_qclock :: "'w \<Rightarrow> qclock"
  oc_reason :: "string \<Rightarrow> pyval \<Rightarrow> string"

record ('q, 's, 'w) cstate =
  cs_queue :: 'q
  cs_store :: 's
  cs_world :: 'w
  cs_lag :: consumer_lag

fun parse_ts :: "pydict \<Rightarrow> string list \<Rightarrow> instant option res" where
  "parse_ts raw [] = Inr None"
| "parse_ts raw (f # fs) = (if \<not> truthy (dget raw f) then parse_ts raw fs
     else case parse_ts_str (py_str (dget raw f)) of
       Inr t \<Rightarrow> Inr (Some t)
     | Inl e \<Rightarrow> if isa_TypeOrValue e then parse_ts raw fs else Inl e)"

definition ack_msg :: "('q, 's, 'w, 'f) consumer \<Rightarrow> qmsg \<Rightarrow> ('q, 's, 'w) cstate \<Rightarrow> ('q, 's, 'w) cstate" where
  "ack_msg oc m st = st\<lparr>cs_queue := so_ack (oc_queue oc) m (cs_queue st)\<rparr>"

definition nack_msg :: "('q, 's, 'w, 'f) consumer \<Rightarrow> qmsg \<Rightarrow> ('q, 's, 'w) cstate \<Rightarrow> ('q, 's, 'w) cstate" where
  "nack_msg oc m st = st\<lparr>cs_queue := so_nack (oc_queue oc) (oc_qclock oc (cs_world st)) m (oc_park oc) (cs_queue st)\<rparr>"

definition dlq_msg :: "('q, 's, 'w, 'f) consumer \<Rightarrow> qmsg \<Rightarrow> string \<Rightarrow> ('q, 's, 'w) cstate \<Rightarrow> ('q, 's, 'w) cstate" where
  "dlq_msg oc m reason st = st\<lparr>cs_queue := so_to_dlq (oc_queue oc) (oc_qclock oc (cs_world st)) m reason (cs_queue st)\<rparr>"

definition heartbeat_source :: "pydict \<Rightarrow> pyval res" where
  "heartbeat_source raw = vget (or_else (dget raw ''payload'') (VDict [])) ''source''"

definition handle_heartbeat :: "('q, 's, 'w, 'f) consumer \<Rightarrow> qmsg \<Rightarrow> pydict \<Rightarrow> (('q, 's, 'w) cstate, string) act" where
  "handle_heartbeat oc m raw st = (case parse_ts raw [''created_at'', ''produced_at''] of
      Inl e \<Rightarrow> (st, Inl e)
    | Inr None \<Rightarrow> (case heartbeat_source raw of
          Inl e \<Rightarrow> (st, Inl e) | Inr src \<Rightarrow> (ack_msg oc m st, Inr ''heartbeat_stale''))
    | Inr (Some sent) \<Rightarrow> (case oc_heartbeat oc of
          None \<Rightarrow> (ack_msg oc m st, Inr ''heartbeat_stale'')
        | Some hb \<Rightarrow> (case hb sent (cs_world st) of
              (w, Inr credited) \<Rightarrow> (ack_msg oc m (st\<lparr>cs_world := w\<rparr>), Inr (if credited then ''heartbeat'' else ''heartbeat_stale''))
            | (w, Inl e) \<Rightarrow> (case heartbeat_source raw of
                  Inl e' \<Rightarrow> (st\<lparr>cs_world := w\<rparr>, Inl e')
                | Inr src \<Rightarrow> (ack_msg oc m (st\<lparr>cs_world := w\<rparr>), Inr ''heartbeat_stale'')))))"

definition credit_freshness :: "pydict \<Rightarrow> instant \<Rightarrow> consumer_lag \<Rightarrow> consumer_lag \<times> unit res" where
  "credit_freshness raw now lag = (let lag1 = lag\<lparr>lg_message := Some now\<rparr> in
     case parse_ts raw [''created_at''] of
       Inl e \<Rightarrow> (lag1, Inl e)
     | Inr None \<Rightarrow> (lag1, Inr ())
     | Inr (Some t) \<Rightarrow> (lag1\<lparr>lg_created := Some t\<rparr>, Inr ()))"

text \<open>The try block around the execution path: the price, the open positions, the pipeline.\<close>

definition run_pipeline :: "('q, 's, 'w, 'f) consumer \<Rightarrow> approved_order \<Rightarrow> ('s \<times> 'w, 'f outcome) act" where
  "run_pipeline oc ord sw = (case oc_price oc ord (snd sw) of
      (w1, Inl e) \<Rightarrow> ((fst sw, w1), Inl e)
    | (w1, Inr price) \<Rightarrow> (case oc_open oc w1 of
          (w2, Inl e) \<Rightarrow> ((fst sw, w2), Inl e)
        | (w2, Inr opens) \<Rightarrow>
            process (oc_processed oc) (oc_pipeline oc) (oc_hooks oc ord) (oc_clock oc w2) ord price opens (fst sw, w2)))"

definition execute_order :: "('q, 's, 'w, 'f) consumer \<Rightarrow> qmsg \<Rightarrow> approved_order \<Rightarrow> (('q, 's, 'w) cstate, string) act" where
  "execute_order oc m ord st = (case run_pipeline oc ord (cs_store st, cs_world st) of
      ((s, w), Inl e) \<Rightarrow> (nack_msg oc m (st\<lparr>cs_store := s, cs_world := w\<rparr>), Inr ''exec_error'')
    | ((s, w), Inr out) \<Rightarrow> (let st1 = st\<lparr>cs_store := s, cs_world := w\<rparr>; d = out_decision out in
        if durable_decision d then (ack_msg oc m st1, Inr (decision_value d))
        else (nack_msg oc m st1, Inr (''nack_'' @ decision_value d))))"

definition handle_order :: "('q, 's, 'w, 'f) consumer \<Rightarrow> qmsg \<Rightarrow> instant \<Rightarrow> approved_order \<Rightarrow> (('q, 's, 'w) cstate, string) act" where
  "handle_order oc m now ord st =
     (if list_ex (\<lambda>k. pr_seen (oc_processed oc) k (cs_store st)) (guard_keys ord) then (ack_msg oc m st, Inr ''duplicate'')
      else if \<not> is_in_session now then (nack_msg oc m st, Inr ''parked'')
      else if (case oc_gate oc of None \<Rightarrow> False | Some g \<Rightarrow> \<not> g (cs_world st)) then (nack_msg oc m st, Inr ''paused_park'')
      else execute_order oc m ord st)"

text \<open>A message that passed the envelope check: the counter, the time-to-live, the freshness credit,
  and the parse, which is outside every handler.\<close>

definition handle_valid :: "('q, 's, 'w, 'f) consumer \<Rightarrow> qmsg \<Rightarrow> instant \<Rightarrow> pydict \<Rightarrow> (('q, 's, 'w) cstate, string) act" where
  "handle_valid oc m now raw st0 =
     (let st = st0\<lparr>cs_lag := (cs_lag st0)\<lparr>lg_seen := lg_seen (cs_lag st0) + 1\<rparr>\<rparr> in
      case is_expired raw now (oc_max_age oc) of
        Inl e \<Rightarrow> (st, Inl e)
      | Inr True \<Rightarrow> (ack_msg oc m st, Inr ''expired'')
      | Inr False \<Rightarrow> (case credit_freshness raw now (cs_lag st) of
            (lag, Inl e) \<Rightarrow> (st\<lparr>cs_lag := lag\<rparr>, Inl e)
          | (lag, Inr u) \<Rightarrow> (case approved_from raw of
                Inl e \<Rightarrow> (st\<lparr>cs_lag := lag\<rparr>, Inl e)
              | Inr ord \<Rightarrow> handle_order oc m now ord (st\<lparr>cs_lag := lag\<rparr>))))"

definition handle :: "('q, 's, 'w, 'f) consumer \<Rightarrow> instant \<Rightarrow> qmsg \<Rightarrow> (('q, 's, 'w) cstate, string) act" where
  "handle oc now m st = (case m_body m of
      VDict raw \<Rightarrow>
        (if dget raw ''event_type'' = VStr HEARTBEAT_EVENT_TYPE then handle_heartbeat oc m raw st
         else case validate_envelope (VDict raw) of
           Inl e \<Rightarrow> (st, Inl e)
         | Inr (Failed code) \<Rightarrow> (dlq_msg oc m (oc_reason oc code (VDict raw)) st, Inr ''dead_lettered'')
         | Inr Passed \<Rightarrow> handle_valid oc m now raw st)
    | v \<Rightarrow> (dlq_msg oc m (oc_reason oc ''not_a_dict'' v) st, Inr ''dead_lettered''))"

section \<open>Polling\<close>

definition bump :: "string \<Rightarrow> (string \<times> nat) list \<Rightarrow> (string \<times> nat) list" where
  "bump k stats = AList.update k ((case map_of stats k of None \<Rightarrow> 0 | Some n \<Rightarrow> n) + 1) stats"

fun handle_batch :: "('q, 's, 'w, 'f) consumer \<Rightarrow> instant \<Rightarrow> qmsg list \<Rightarrow> (string \<times> nat) list \<Rightarrow>
    (('q, 's, 'w) cstate, (string \<times> nat) list) act" where
  "handle_batch oc now [] stats = sret stats"
| "handle_batch oc now (m # ms) stats = sbind (handle oc now m) (\<lambda>outcome. handle_batch oc now ms (bump outcome stats))"

definition poll_once :: "('q, 's, 'w, 'f) consumer \<Rightarrow> (('q, 's, 'w) cstate, (string \<times> nat) list) act" where
  "poll_once oc st0 =
     (let now = oc_clock oc (cs_world st0); st = st0\<lparr>cs_lag := (cs_lag st0)\<lparr>lg_poll := Some now\<rparr>\<rparr> in
      case so_pull (oc_queue oc) (oc_qclock oc (cs_world st)) (oc_subscription oc) (oc_prefetch oc) (cs_queue st) of
        (q, Inl e) \<Rightarrow> (st\<lparr>cs_queue := q\<rparr>, Inr [(''pull_error'', 1)])
      | (q, Inr batch) \<Rightarrow> handle_batch oc now batch [] (st\<lparr>cs_queue := q\<rparr>))"

end
