(* ===== verification/Outbound_Laws.thy ===== *)
theory Outbound_Laws
  imports Outbound_Consumer
begin

text \<open>
  Laws of the consumer: what each outcome does to the message on the queue (proved once against the
  contract \<open>message_store\<close>), the accounting of a poll, what credits freshness, and, with the sqlite
  ledger, at most one fill per key over every history of deliveries and restarts.
\<close>

section \<open>What handling does to the queue\<close>

text \<open>The outcomes after which \<open>_handle\<close> acknowledges the message.\<close>

definition acked_outcome :: "string \<Rightarrow> bool" where
  "acked_outcome out \<longleftrightarrow> out \<in> set ([''heartbeat'', ''heartbeat_stale'', ''expired'', ''duplicate'']
     @ map decision_value [EXECUTED, SHADOW, SKIPPED_DUPLICATE, REJECTED_BACKUP_GUARD, REJECTED_INVALID,
         REJECTED_VALIDATION, DEFERRED_LEGACY])"

definition queue_effect :: "('q, 's, 'w, 'f) consumer \<Rightarrow> qmsg \<Rightarrow> 'q \<Rightarrow> 'q \<Rightarrow> string res \<Rightarrow> bool" where
  "queue_effect oc m q q' r \<longleftrightarrow> (\<exists>e. r = Inl e \<and> q' = q)
     \<or> (\<exists>out. r = Inr out \<and> acked_outcome out \<and> q' = so_ack (oc_queue oc) m q)
     \<or> (\<exists>out c. r = Inr out \<and> \<not> acked_outcome out \<and>
          (q' = so_nack (oc_queue oc) c m (oc_park oc) q \<or> (\<exists>reason. q' = so_to_dlq (oc_queue oc) c m reason q)))"

lemma acked_outcome_simps [simp]:
  "acked_outcome ''heartbeat''" "acked_outcome ''heartbeat_stale''" "acked_outcome ''expired''" "acked_outcome ''duplicate''"
  "durable_decision d \<Longrightarrow> acked_outcome (decision_value d)"
  "\<not> acked_outcome ''dead_lettered''" "\<not> acked_outcome ''parked''" "\<not> acked_outcome ''paused_park''"
  "\<not> acked_outcome ''exec_error''" "\<not> acked_outcome (''nack_'' @ x)"
  by (auto simp: acked_outcome_def durable_decision_def)

lemma not_acked_nack [simp]:
  "\<not> acked_outcome (CHR ''n'' # CHR ''a'' # CHR ''c'' # CHR ''k'' # CHR ''_'' # x)"
  using acked_outcome_simps(10) [of x] by simp

lemma msg_queue [simp]:
  "cs_queue (ack_msg oc m st) = so_ack (oc_queue oc) m (cs_queue st)"
  "cs_queue (nack_msg oc m st) = so_nack (oc_queue oc) (oc_qclock oc (cs_world st)) m (oc_park oc) (cs_queue st)"
  "cs_queue (dlq_msg oc m reason st) = so_to_dlq (oc_queue oc) (oc_qclock oc (cs_world st)) m reason (cs_queue st)"
  by (simp_all add: ack_msg_def nack_msg_def dlq_msg_def)

lemma msg_rest [simp]:
  "cs_store (ack_msg oc m st) = cs_store st" "cs_world (ack_msg oc m st) = cs_world st" "cs_lag (ack_msg oc m st) = cs_lag st"
  "cs_store (nack_msg oc m st) = cs_store st" "cs_world (nack_msg oc m st) = cs_world st" "cs_lag (nack_msg oc m st) = cs_lag st"
  "cs_store (dlq_msg oc m r st) = cs_store st" "cs_world (dlq_msg oc m r st) = cs_world st" "cs_lag (dlq_msg oc m r st) = cs_lag st"
  by (simp_all add: ack_msg_def nack_msg_def dlq_msg_def)

lemma queue_effect_intros:
  "queue_effect oc m q q (Inl e)" "acked_outcome out \<Longrightarrow> queue_effect oc m q (so_ack (oc_queue oc) m q) (Inr out)"
  "\<not> acked_outcome out \<Longrightarrow> queue_effect oc m q (so_nack (oc_queue oc) c m (oc_park oc) q) (Inr out)"
  "\<not> acked_outcome out \<Longrightarrow> queue_effect oc m q (so_to_dlq (oc_queue oc) c m reason q) (Inr out)"
  by (auto simp: queue_effect_def)

lemma execute_order_effect:
  "execute_order oc m ord st = (st', r) \<Longrightarrow> queue_effect oc m (cs_queue st) (cs_queue st') r \<and> cs_lag st' = cs_lag st"
  by (auto simp: execute_order_def Let_def split: prod.splits sum.splits if_splits intro!: queue_effect_intros)

lemma handle_order_effect:
  "handle_order oc m now ord st = (st', r) \<Longrightarrow> queue_effect oc m (cs_queue st) (cs_queue st') r \<and> cs_lag st' = cs_lag st"
  by (auto simp: handle_order_def dest: execute_order_effect split: if_splits option.splits intro!: queue_effect_intros)

lemma handle_heartbeat_effect:
  "handle_heartbeat oc m raw st = (st', r) \<Longrightarrow> queue_effect oc m (cs_queue st) (cs_queue st') r
    \<and> cs_lag st' = cs_lag st \<and> cs_store st' = cs_store st"
  by (auto simp: handle_heartbeat_def split: prod.splits sum.splits option.splits if_splits intro!: queue_effect_intros)

lemma credit_freshness_message: "credit_freshness raw now lag = (lag', r) \<Longrightarrow> lg_message lag' = Some now"
  by (auto simp: credit_freshness_def Let_def split: sum.splits option.splits)

lemma handle_valid_effect:
  assumes "handle_valid oc m now raw st = (st', r)"
  shows "queue_effect oc m (cs_queue st) (cs_queue st') r
    \<and> (lg_message (cs_lag st') = lg_message (cs_lag st) \<or> is_expired raw now (oc_max_age oc) = Inr False)"
proof (cases "is_expired raw now (oc_max_age oc)")
  case (Inl e)
  with assms show ?thesis by (auto simp: handle_valid_def Let_def intro!: queue_effect_intros)
next
  case (Inr b)
  show ?thesis
  proof (cases b)
    case True
    with Inr assms show ?thesis by (auto simp: handle_valid_def Let_def intro!: queue_effect_intros)
  next
    case False
    with Inr assms show ?thesis
      by (auto simp: handle_valid_def Let_def split: prod.splits sum.splits dest!: handle_order_effect intro!: queue_effect_intros)
  qed
qed

lemma handle_effect:
  assumes "handle oc now m st = (st', r)"
  shows "queue_effect oc m (cs_queue st) (cs_queue st') r"
  using assms
  by (auto simp: handle_def split: pyval.splits sum.splits vresult.splits if_splits
      dest!: handle_valid_effect handle_heartbeat_effect intro!: queue_effect_intros)

context message_store
begin

lemma queue_effect_kept:
  assumes "oc_queue oc = ops" "inv q" "holds t q m" "queue_effect oc m q q' r"
  shows "inv q' \<and> (\<forall>m'. holds t q m' \<and> m_ack m' \<noteq> m_ack m \<longrightarrow> holds t q' m')
    \<and> (if \<exists>out. r = Inr out \<and> acked_outcome out then kept t q = add_mset (JsonBody (m_body m)) (kept t q')
       else kept t q' = kept t q)"
proof -
  note ih = assms(2,3)
  from assms(4) [unfolded queue_effect_def assms(1)] consider
      (err) e where "r = Inl e" "q' = q"
    | (ack) out where "r = Inr out" "acked_outcome out" "q' = so_ack ops m q"
    | (nack) out c where "r = Inr out" "\<not> acked_outcome out" "q' = so_nack ops c m (oc_park oc) q"
    | (dlq) out c reason where "r = Inr out" "\<not> acked_outcome out" "q' = so_to_dlq ops c m reason q"
    by blast
  then show ?thesis
  proof cases
    case ack
    have "inv q'" "\<And>m'. holds t q m' \<Longrightarrow> m_ack m' \<noteq> m_ack m \<Longrightarrow> holds t q' m'"
      "kept t q = add_mset (JsonBody (m_body m)) (kept t q')"
      unfolding ack(3) using ih by (auto intro: inv_ack holds_ack kept_ack)
    with ack(1,2) show ?thesis by auto
  qed (use ih in \<open>auto simp: inv_nack inv_to_dlq kept_nack kept_to_dlq holds_nack holds_to_dlq\<close>)
qed

lemma handle_batch_kept:
  assumes "oc_queue oc = ops"
  shows "inv (cs_queue st) \<Longrightarrow> \<forall>m \<in> set ms. holds t (cs_queue st) m \<Longrightarrow> distinct (map m_ack ms) \<Longrightarrow>
    handle_batch oc now ms stats st = (st', r) \<Longrightarrow> inv (cs_queue st') \<and> kept t (cs_queue st') \<subseteq># kept t (cs_queue st)"
proof (induction ms arbitrary: st stats)
  case (Cons m ms)
  obtain st1 r1 where h: "handle oc now m st = (st1, r1)" by (cases "handle oc now m st")
  have "holds t (cs_queue st) m" using Cons.prems(2) by simp
  from queue_effect_kept [OF assms Cons.prems(1) this handle_effect [OF h]]
  have one: "inv (cs_queue st1)" "\<And>m'. holds t (cs_queue st) m' \<Longrightarrow> m_ack m' \<noteq> m_ack m \<Longrightarrow> holds t (cs_queue st1) m'"
    "kept t (cs_queue st1) \<subseteq># kept t (cs_queue st)"
    by (auto split: if_splits)
  show ?case
  proof (cases r1)
    case (Inl e)
    then show ?thesis using Cons.prems(4) h one by auto
  next
    case (Inr out)
    have rest: "\<forall>x \<in> set ms. holds t (cs_queue st1) x"
    proof
      fix x assume x: "x \<in> set ms"
      then have "m_ack x \<noteq> m_ack m" using Cons.prems(3) by (metis distinct.simps(2) image_eqI list.set_map list.simps(9))
      with x Cons.prems(2) show "holds t (cs_queue st1) x" by (intro one(2)) auto
    qed
    have "handle_batch oc now ms (bump out stats) st1 = (st', r)" using Cons.prems(4) h Inr by simp
    from Cons.IH [OF one(1) rest _ this] Cons.prems(3) one(3) show ?thesis by (auto intro: subset_mset.order_trans)
  qed
qed simp

end


section \<open>Poll accounting\<close>

definition acked_count :: "(string \<times> nat) list \<Rightarrow> nat" where
  "acked_count stats = sum_list (map (\<lambda>(k, n). if acked_outcome k then n else 0) stats)"

lemma acked_count_update:
  "acked_count (AList.update k v stats) + (if acked_outcome k then case map_of stats k of None \<Rightarrow> 0 | Some n \<Rightarrow> n else 0)
    = acked_count stats + (if acked_outcome k then v else 0)"
  by (induction stats) (auto simp: acked_count_def split: option.splits)

lemma acked_count_bump: "acked_count (bump k stats) = acked_count stats + (if acked_outcome k then 1 else 0)"
  using acked_count_update [of k "(case map_of stats k of None \<Rightarrow> 0 | Some n \<Rightarrow> n) + 1" stats]
  by (auto simp: bump_def split: option.splits if_splits)

context message_store
begin

lemma handle_batch_count:
  assumes "oc_queue oc = ops"
  shows "inv (cs_queue st) \<Longrightarrow> \<forall>m \<in> set ms. holds t (cs_queue st) m \<Longrightarrow> distinct (map m_ack ms) \<Longrightarrow>
    handle_batch oc now ms stats st = (st', Inr stats') \<Longrightarrow>
    size (kept t (cs_queue st)) + acked_count stats = size (kept t (cs_queue st')) + acked_count stats'"
proof (induction ms arbitrary: st stats)
  case (Cons m ms)
  from Cons.prems(4) obtain st1 out where h: "handle oc now m st = (st1, Inr out)"
    and rest: "handle_batch oc now ms (bump out stats) st1 = (st', Inr stats')"
    by (auto simp: sbind_def split: prod.splits sum.splits)
  have hm: "holds t (cs_queue st) m" using Cons.prems(2) by simp
  note one = queue_effect_kept [OF assms Cons.prems(1) hm handle_effect [OF h]]
  have "\<forall>x \<in> set ms. holds t (cs_queue st1) x"
  proof
    fix x assume x: "x \<in> set ms"
    then have "m_ack x \<noteq> m_ack m" using Cons.prems(3) by (metis distinct.simps(2) image_eqI list.set_map list.simps(9))
    with x Cons.prems(2) one show "holds t (cs_queue st1) x" by auto
  qed
  from Cons.IH [OF _ this _ rest] one Cons.prems(3)
  have "size (kept t (cs_queue st1)) + acked_count (bump out stats) = size (kept t (cs_queue st')) + acked_count stats'"
    by auto
  then show ?case using one by (auto simp: acked_count_bump split: if_splits)
qed simp

lemma poll_once_kept:
  assumes "oc_queue oc = ops" "inv (cs_queue st)" "poll_once oc st = (st', r)"
  shows "inv (cs_queue st') \<and> kept (oc_subscription oc) (cs_queue st') \<subseteq># kept (oc_subscription oc) (cs_queue st)
    \<and> (\<forall>stats. r = Inr stats \<longrightarrow> size (kept (oc_subscription oc) (cs_queue st))
        = size (kept (oc_subscription oc) (cs_queue st')) + acked_count stats)"
proof -
  let ?t = "oc_subscription oc"
  let ?c = "oc_qclock oc (cs_world st)"
  obtain q pr where p: "so_pull ops ?c ?t (oc_prefetch oc) (cs_queue st) = (q, pr)" by force
  have q: "inv q" "kept ?t q = kept ?t (cs_queue st)"
    using inv_pull [where c = ?c and t = ?t and n = "oc_prefetch oc", OF assms(2)]
      kept_pull [where c = ?c and t = ?t and n = "oc_prefetch oc", OF assms(2)] p by auto
  show ?thesis
  proof (cases pr)
    case (Inl e)
    then have "st' = st\<lparr>cs_lag := (cs_lag st)\<lparr>lg_poll := Some (oc_clock oc (cs_world st))\<rparr>, cs_queue := q\<rparr>"
      "r = Inr [(''pull_error'', 1)]"
      using assms(1,3) p by (auto simp: poll_once_def Let_def)
    moreover have "\<not> acked_outcome ''pull_error''" by (simp add: acked_outcome_def)
    ultimately show ?thesis using q by (simp add: acked_count_def)
  next
    case (Inr ms)
    let ?now = "oc_clock oc (cs_world st)"
    let ?st1 = "st\<lparr>cs_lag := (cs_lag st)\<lparr>lg_poll := Some ?now\<rparr>, cs_queue := q\<rparr>"
    have b: "handle_batch oc ?now ms [] ?st1 = (st', r)"
      using assms(1,3) p Inr by (simp add: poll_once_def Let_def)
    have hold: "\<forall>m \<in> set ms. holds ?t (cs_queue ?st1) m" "distinct (map m_ack ms)" "inv (cs_queue ?st1)"
      using pull_holds [OF assms(2)] pull_distinct [OF assms(2)] p Inr q by auto
    have "\<forall>stats. r = Inr stats \<longrightarrow> size (kept ?t q) = size (kept ?t (cs_queue st')) + acked_count stats"
    proof (intro allI impI)
      fix stats assume "r = Inr stats"
      with b have "handle_batch oc ?now ms [] ?st1 = (st', Inr stats)" by simp
      from handle_batch_count [OF assms(1) hold(3,1,2) this]
      show "size (kept ?t q) = size (kept ?t (cs_queue st')) + acked_count stats" by (simp add: acked_count_def)
    qed
    with handle_batch_kept [OF assms(1) hold(3,1,2) b] q show ?thesis by auto
  qed
qed

end

section \<open>Freshness\<close>

lemma handle_order_lag: "handle_order oc m now ord st = (st', r) \<Longrightarrow> cs_lag st' = cs_lag st"
  by (drule handle_order_effect) simp

lemma handle_valid_lag:
  assumes "handle_valid oc m now raw st = (st', r)" "is_expired raw now (oc_max_age oc) = Inr False"
  shows "lg_message (cs_lag st') = Some now"
proof -
  let ?lag = "(cs_lag st)\<lparr>lg_seen := lg_seen (cs_lag st) + 1\<rparr>"
  obtain lag cr where c: "credit_freshness raw now ?lag = (lag, cr)" by force
  then have "lg_message lag = Some now" by (rule credit_freshness_message)
  with c assms show ?thesis
    by (auto simp: handle_valid_def Let_def dest!: handle_order_lag split: sum.splits)
qed

lemma handle_freshness:
  assumes "handle oc now m st = (st', r)" "lg_message (cs_lag st') \<noteq> lg_message (cs_lag st)"
  shows "\<exists>raw. m_body m = VDict raw \<and> dget raw ''event_type'' \<noteq> VStr HEARTBEAT_EVENT_TYPE
    \<and> validate_envelope (VDict raw) = Inr Passed \<and> is_expired raw now (oc_max_age oc) = Inr False
    \<and> handle_valid oc m now raw st = (st', r)"
  using assms
  by (auto simp: handle_def split: pyval.splits sum.splits vresult.splits if_splits
      dest!: handle_valid_effect handle_heartbeat_effect)

section \<open>Submission at most once, through the consumer\<close>

text \<open>The consumer with a log of the orders its submission hook filled, kept beside the world.\<close>

definition beside :: "('w, 'a) act \<Rightarrow> ('w \<times> 'l, 'a) act" where
  "beside f = keep_log (\<lambda>_. f) ()"

definition logged_consumer :: "('q, 's, 'w, 'f) consumer \<Rightarrow> ('q, 's, 'w \<times> approved_order list, 'f) consumer" where
  "logged_consumer oc = \<lparr>oc_queue = oc_queue oc, oc_subscription = oc_subscription oc,
     oc_processed = oc_processed oc, oc_pipeline = oc_pipeline oc,
     oc_price = (\<lambda>ord. beside (oc_price oc ord)),
     oc_hooks = (\<lambda>ord. logged ord (oc_hooks oc ord)),
     oc_gate = map_option (\<lambda>g wl. g (fst wl)) (oc_gate oc),
     oc_heartbeat = map_option (\<lambda>hb t. beside (hb t)) (oc_heartbeat oc),
     oc_open = beside (oc_open oc), oc_max_age = oc_max_age oc, oc_prefetch = oc_prefetch oc,
     oc_park = oc_park oc, oc_clock = (\<lambda>wl. oc_clock oc (fst wl)), oc_qclock = (\<lambda>wl. oc_qclock oc (fst wl)),
     oc_reason = oc_reason oc\<rparr>"

text \<open>A history: messages delivered at some clock reading, and restarts, which keep the ledger and
  nothing else of the process.\<close>

datatype ('q, 'w) happening = Delivery instant qmsg | Restart 'q 'w consumer_lag

definition happen :: "('q, 's, 'w, 'f) consumer \<Rightarrow> ('q, 'w) happening \<Rightarrow>
    ('q, 's, 'w \<times> approved_order list) cstate \<Rightarrow> ('q, 's, 'w \<times> approved_order list) cstate" where
  "happen oc h st = (case h of
      Delivery now m \<Rightarrow> fst (handle (logged_consumer oc) now m st)
    | Restart q w lag \<Rightarrow> st\<lparr>cs_queue := q, cs_world := (w, snd (cs_world st)), cs_lag := lag\<rparr>)"

definition history :: "('q, 's, 'w, 'f) consumer \<Rightarrow> ('q, 'w) happening list \<Rightarrow>
    ('q, 's, 'w \<times> approved_order list) cstate \<Rightarrow> ('q, 's, 'w \<times> approved_order list) cstate" where
  "history oc hs st = fold (happen oc) hs st"

lemma beside_log: "beside f wl = (wl', r) \<Longrightarrow> snd wl' = snd wl"
  by (cases wl) (auto simp: beside_def dest: keep_log_snd)

lemma log_inv_world: "log_inv ops (s, wl) \<Longrightarrow> snd wl' = snd wl \<Longrightarrow> log_inv ops (s, wl')"
  by (simp add: log_inv_def)

context processed_store
begin

lemma log_inv_run_pipeline:
  assumes "oc_processed oc = ops" "log_inv ops (s, wl)" "run_pipeline (logged_consumer oc) ord (s, wl) = (sw', r)"
  shows "log_inv ops sw'"
proof -
  obtain w1 pr where p: "beside (oc_price oc ord) wl = (w1, pr)" by (cases "beside (oc_price oc ord) wl")
  obtain w2 opr where q: "beside (oc_open oc) w1 = (w2, opr)" by (cases "beside (oc_open oc) w1")
  have l1: "log_inv ops (s, w1)" using assms(2) beside_log [OF p] by (rule log_inv_world)
  then have l2: "log_inv ops (s, w2)" using beside_log [OF q] by (rule log_inv_world)
  show ?thesis
  proof (cases pr)
    case (Inl e)
    then show ?thesis using assms(3) p l1 by (auto simp: run_pipeline_def logged_consumer_def)
  next
    case (Inr price)
    show ?thesis
    proof (cases opr)
      case (Inl e)
      then show ?thesis using assms(3) p q Inr l2 by (auto simp: run_pipeline_def logged_consumer_def)
    next
      case (Inr opens)
      let ?rq = "\<lparr>rq_order = ord, rq_entry = price, rq_now = oc_clock oc (fst w2), rq_open = opens\<rparr>"
      have "run_pipeline (logged_consumer oc) ord (s, wl)
          = process ops (oc_pipeline oc) (logged ord (oc_hooks oc ord)) (oc_clock oc (fst w2)) ord price opens (s, w2)"
        using p q \<open>pr = Inr price\<close> Inr assms(1) by (simp add: run_pipeline_def logged_consumer_def)
      then have "process ops (oc_pipeline oc) (logged ord (oc_hooks oc ord)) (oc_clock oc (fst w2)) ord price opens (s, w2)
          = (sw', r)" using assms(3) by simp
      then have "run_request ops (oc_pipeline oc) (oc_hooks oc ord) ?rq (s, w2) = sw'"
        by (simp add: run_request_def)
      then show ?thesis using log_inv_request [OF l2] by metis
    qed
  qed
qed

lemma log_inv_order:
  assumes "oc_processed oc = ops" "log_inv ops (cs_store st, cs_world st)"
    "handle_order (logged_consumer oc) m now ord st = (st', r)"
  shows "log_inv ops (cs_store st', cs_world st')"
proof -
  obtain sw pr where p: "run_pipeline (logged_consumer oc) ord (cs_store st, cs_world st) = (sw, pr)"
    by (cases "run_pipeline (logged_consumer oc) ord (cs_store st, cs_world st)")
  have "log_inv ops sw" using log_inv_run_pipeline [OF assms(1,2) p] .
  then show ?thesis using assms(2,3) p
    by (cases sw) (auto simp: handle_order_def execute_order_def Let_def split: if_splits sum.splits)
qed

lemma log_inv_handle:
  assumes "oc_processed oc = ops" "log_inv ops (cs_store st, cs_world st)"
    "handle (logged_consumer oc) now m st = (st', r)"
  shows "log_inv ops (cs_store st', cs_world st')"
proof (cases "\<exists>raw. m_body m = VDict raw \<and> (handle_heartbeat (logged_consumer oc) m raw st = (st', r)
      \<or> handle_valid (logged_consumer oc) m now raw st = (st', r))")
  case True
  then obtain raw where "handle_heartbeat (logged_consumer oc) m raw st = (st', r)
      \<or> handle_valid (logged_consumer oc) m now raw st = (st', r)" by blast
  then show ?thesis
  proof
    assume h: "handle_heartbeat (logged_consumer oc) m raw st = (st', r)"
    have "cs_store st' = cs_store st" using handle_heartbeat_effect [OF h] by simp
    moreover have "snd (cs_world st') = snd (cs_world st)"
      using h unfolding handle_heartbeat_def logged_consumer_def
      by (auto split: sum.splits option.splits prod.splits dest: beside_log)
    ultimately show ?thesis using assms(2) by (simp add: log_inv_world)
  next
    assume "handle_valid (logged_consumer oc) m now raw st = (st', r)"
    then show ?thesis using assms(2)
      by (auto simp: handle_valid_def Let_def split: sum.splits bool.splits prod.splits
          dest!: log_inv_order [OF assms(1), rotated])
  qed
next
  case False
  then show ?thesis using assms(2,3)
    by (auto simp: handle_def split: pyval.splits sum.splits vresult.splits if_splits)
qed

lemma log_inv_history:
  assumes "oc_processed oc = ops"
  shows "log_inv ops (cs_store st, cs_world st) \<Longrightarrow> log_inv ops (cs_store (history oc hs st), cs_world (history oc hs st))"
proof (induction hs arbitrary: st)
  case Nil
  then show ?case by (simp add: history_def)
next
  case (Cons h hs)
  have "log_inv ops (cs_store (happen oc h st), cs_world (happen oc h st))"
  proof (cases h)
    case (Delivery now m)
    then show ?thesis using log_inv_handle [OF assms Cons.prems, of now m]
      by (cases "handle (logged_consumer oc) now m st") (simp add: happen_def)
  next
    case (Restart q w lag)
    then show ?thesis using Cons.prems by (simp add: happen_def log_inv_def)
  qed
  from Cons.IH [OF this] show ?case by (simp add: history_def)
qed

end


section \<open>A closed submission gate\<close>

definition gate_closed :: "('q, 's, 'w, 'f) consumer \<Rightarrow> 'w \<Rightarrow> bool" where
  "gate_closed oc w \<longleftrightarrow> (case oc_gate oc of None \<Rightarrow> False | Some g \<Rightarrow> \<not> g w)"

definition is_heartbeat :: "qmsg \<Rightarrow> bool" where
  "is_heartbeat m \<longleftrightarrow> (case m_body m of VDict raw \<Rightarrow> dget raw ''event_type'' = VStr HEARTBEAT_EVENT_TYPE | _ \<Rightarrow> False)"

lemma closed_gate_order:
  "gate_closed oc (cs_world st) \<Longrightarrow> handle_order oc m now ord st = (st', r) \<Longrightarrow>
    cs_store st' = cs_store st \<and> cs_world st' = cs_world st"
  by (auto simp: handle_order_def gate_closed_def split: if_splits option.splits)

lemma closed_gate_handle:
  assumes "gate_closed oc (cs_world st)" "\<not> is_heartbeat m" "handle oc now m st = (st', r)"
  shows "cs_store st' = cs_store st \<and> cs_world st' = cs_world st"
  using assms
  by (auto simp: handle_def handle_valid_def is_heartbeat_def Let_def dest!: closed_gate_order [rotated]
      split: pyval.splits sum.splits vresult.splits if_splits bool.splits prod.splits)

lemma closed_gate_batch:
  "gate_closed oc (cs_world st) \<Longrightarrow> list_all (\<lambda>m. \<not> is_heartbeat m) ms \<Longrightarrow>
    handle_batch oc now ms stats st = (st', r) \<Longrightarrow> cs_store st' = cs_store st \<and> cs_world st' = cs_world st"
proof (induction ms arbitrary: st stats)
  case (Cons m ms)
  obtain st1 r1 where h: "handle oc now m st = (st1, r1)" by (cases "handle oc now m st")
  have one: "cs_store st1 = cs_store st" "cs_world st1 = cs_world st"
    using closed_gate_handle [OF Cons.prems(1) _ h] Cons.prems(2) by simp_all
  show ?case
  proof (cases r1)
    case (Inl e)
    then show ?thesis using Cons.prems(3) h one by simp
  next
    case (Inr out)
    with Cons.prems(3) h have "handle_batch oc now ms (bump out stats) st1 = (st', r)" by simp
    from Cons.IH [OF _ _ this] Cons.prems(1,2) one show ?thesis by simp
  qed
qed simp

section \<open>Properties\<close>


definition wit_consumer :: "(backend \<times> qdb, processed_db, nat, string) consumer" where
  "wit_consumer = \<lparr>oc_queue = local_ops, oc_subscription = ''orders'', oc_processed = sqlite_ops,
     oc_pipeline = wit_pipeline, oc_price = (\<lambda>_. sret (VFloat (Fin 150))), oc_hooks = (\<lambda>_. wit_hooks),
     oc_gate = None, oc_heartbeat = None, oc_open = sret [], oc_max_age = None, oc_prefetch = 4, oc_park = Fin 30,
     oc_clock = (\<lambda>_. wit_now), oc_qclock = (\<lambda>_. \<lparr>db_now = Fin 1, py_now = Fin 1, iso_now = ''now''\<rparr>),
     oc_reason = (\<lambda>c _. c)\<rparr>"

definition wit_bad_raw :: pydict where
  "wit_bad_raw = wit_raw (VInt 1000) (VStr ''n/a'')"

definition wit_bad :: qmsg where
  "wit_bad = \<lparr>m_ack = 0, m_topic = ''orders'', m_body = VDict wit_bad_raw, m_attempts = 1\<rparr>"

definition wit_state :: "(backend \<times> qdb, processed_db, nat) cstate" where
  "wit_state = \<lparr>cs_queue = (\<lparr>qb_owner = ''s2'', qb_max = 5, qb_lease = Fin 300, qb_recovered = {}\<rparr>,
       publish ''orders'' (VInt 7) (publish ''orders'' (VDict wit_bad_raw) empty_qdb)),
     cs_store = \<lparr>pd_rows = [], pd_clock = (\<lambda>_. []), pd_tick = 0\<rparr>, cs_world = 0,
     cs_lag = \<lparr>lg_poll = None, lg_message = None, lg_created = None, lg_seen = 0\<rparr>\<rparr>"

lemma wit_state_wf: "qdb_wf (snd (cs_queue wit_state))"
  by (simp add: wit_state_def qdb_wf_intros)


text \<open>C3: One approved order, one submission. With the sqlite ledger, over every history of deliveries
  of arbitrary messages at arbitrary clock readings and of restarts that keep only the ledger, the
  consumer's submission hook fills at most one order for any guard key, so at most one per
  idempotency key and at most one per signal, whatever the other hooks do and however often they
  raise.\<close>

theorem consumer_fills_at_most_once:
  assumes "oc_processed oc = sqlite_ops" "snd (cs_world st) = []"
  shows "length (fills_of_key k (snd (cs_world (history oc hs st)))) \<le> 1"
proof -
  have "log_inv sqlite_ops (cs_store st, cs_world st)"
    using assms(2) by (cases "cs_world st") (simp add: log_inv_Nil)
  from sqlite_store.log_inv_history [OF assms(1) this, of hs] show ?thesis by (simp add: log_inv_def)
qed

theorem consumer_fills_at_most_once_witness:
  "length (fills_of_key ''k1'' (snd (cs_world (history wit_consumer [Delivery wit_now wit_bad, Delivery wit_now wit_bad]
     \<lparr>cs_queue = cs_queue wit_state, cs_store = cs_store wit_state, cs_world = (0, []), cs_lag = cs_lag wit_state\<rparr>)))) \<le> 1"
  by (rule consumer_fills_at_most_once) (simp_all add: wit_consumer_def)

lemma wit_bad_facts:
  "m_body wit_bad = VDict wit_bad_raw" "dget wit_bad_raw ''event_type'' \<noteq> VStr HEARTBEAT_EVENT_TYPE"
  "validate_envelope (VDict wit_bad_raw) = Inr Passed" "is_expired wit_bad_raw now None = Inr False"
  "\<not> truthy (dget wit_bad_raw ''created_at'')" "approved_from wit_bad_raw = Inl ValueError"
  subgoal by (simp add: wit_bad_def)
  subgoal by (simp add: wit_bad_raw_def wit_raw_def)
  subgoal by (simp add: wit_bad_raw_def wit_raw_passes)
  subgoal by (simp add: wit_bad_raw_def wit_raw_def is_expired_def created_age_expired_def)
  subgoal by (simp add: wit_bad_raw_def wit_raw_def)
  subgoal unfolding wit_bad_raw_def by (rule wit_raw_bad)
  done

text \<open>Only a live approved order credits freshness. If handling a message changes the time of
  the last message, the message was a well-formed order inside its time to live, not a keepalive and
  not an expired redelivery, and the time is the poll's own clock reading.\<close>

theorem freshness_needs_live_order:
  assumes "handle oc now m st = (st', r)" "lg_message (cs_lag st') \<noteq> lg_message (cs_lag st)"
  shows "lg_message (cs_lag st') = Some now \<and> (\<exists>raw. m_body m = VDict raw
    \<and> dget raw ''event_type'' \<noteq> VStr HEARTBEAT_EVENT_TYPE
    \<and> validate_envelope (VDict raw) = Inr Passed \<and> is_expired raw now (oc_max_age oc) = Inr False)"
  using handle_freshness [OF assms] handle_valid_lag by blast

theorem freshness_needs_live_order_witness:
  "lg_message (cs_lag (fst (handle wit_consumer wit_now wit_bad wit_state))) = Some wit_now"
proof -
  have h: "handle wit_consumer wit_now wit_bad wit_state = handle_valid wit_consumer wit_bad wit_now wit_bad_raw wit_state"
    using wit_bad_facts by (simp add: handle_def)
  have m: "oc_max_age wit_consumer = None" by (simp add: wit_consumer_def)
  obtain st' r where e: "handle wit_consumer wit_now wit_bad wit_state = (st', r)"
    by (cases "handle wit_consumer wit_now wit_bad wit_state")
  have "lg_message (cs_lag st') = Some wit_now"
    by (rule handle_valid_lag [OF e [unfolded h]]) (simp add: m wit_bad_facts(4))
  then have "lg_message (cs_lag st') \<noteq> lg_message (cs_lag wit_state)" by (simp add: wit_state_def)
  from freshness_needs_live_order [OF e this] show ?thesis by (simp add: e)
qed

text \<open>The parse of an order is outside every handler. A message that passes the envelope check and
  is within its time to live, but whose order does not parse, ends the poll with the parser's
  exception: the rest of the batch is not handled, and the message is neither acknowledged, requeued
  nor dead-lettered.\<close>

theorem unparseable_order_ends_poll:
  assumes "m_body m = VDict raw" "dget raw ''event_type'' \<noteq> VStr HEARTBEAT_EVENT_TYPE"
    "validate_envelope (VDict raw) = Inr Passed" "is_expired raw now (oc_max_age oc) = Inr False"
    "\<not> truthy (dget raw ''created_at'')" "approved_from raw = Inl e"
  shows "\<exists>st'. handle_batch oc now (m # ms) stats st = (st', Inl e) \<and> cs_queue st' = cs_queue st"
  using assms by (simp add: sbind_def handle_def handle_valid_def credit_freshness_def Let_def)

theorem unparseable_order_ends_poll_witness:
  "\<exists>st'. handle_batch wit_consumer wit_now [wit_bad, wit_bad] [] wit_state = (st', Inl ValueError) \<and> cs_queue st' = cs_queue wit_state"
  by (rule unparseable_order_ends_poll [OF wit_bad_facts(1-3) _ wit_bad_facts(5,6)])
     (simp add: wit_consumer_def wit_bad_facts(4))

end
