(* ===== verification/Position_Laws.thy ===== *)
theory Position_Laws
  imports Position_Manager
begin

text \<open>
  Laws of the position manager. The broker operations are instrumented with a log of the mutations
  the broker accepted; between two ticks the broker state, the clock included, is arbitrary. One
  invariant of the trade and its log (\<open>managed_inv\<close>) is kept by every stage of a tick.
\<close>

section \<open>The order of stops\<close>

lemma is_tighter_trans: "is_tighter t b a \<Longrightarrow> is_tighter t c b \<Longrightarrow> is_tighter t c a"
  by (auto simp: is_tighter_def intro: fl_less_trans split: if_splits)

lemma is_tighter_asym: "is_tighter t b a \<Longrightarrow> \<not> is_tighter t a b"
  by (auto simp: is_tighter_def dest: fl_less_asym split: if_splits)

lemma is_tighter_irrefl [simp]: "\<not> is_tighter t a a"
  using is_tighter_asym by blast

lemma is_tighter_side: "mt_side t' = mt_side t \<Longrightarrow> is_tighter t' = is_tighter t"
  by (simp add: is_tighter_def mt_direction_def fun_eq_iff)

lemma sorted_wrt_snoc:
  assumes "transp P" "sorted_wrt P (x # xs)" "P (last (x # xs)) y" shows "sorted_wrt P (x # xs @ [y])"
proof -
  have "P z y" if "z \<in> set (x # xs)" for z
  proof (cases "z = last (x # xs)")
    case False
    obtain ys where ys: "x # xs = ys @ [last (x # xs)]" by (metis append_butlast_last_id list.distinct(1))
    with that False have "z \<in> set ys" by (metis UnE empty_iff empty_set insert_iff list.simps(15) set_append)
    then have "P z (last (x # xs))" using assms(2) ys by (metis list.set_intros(1) sorted_wrt_append)
    with assms(1,3) show ?thesis by (meson transpD)
  qed (use assms(3) in simp)
  then show ?thesis using assms(2) sorted_wrt_append [of P "x # xs" "[y]"] by simp
qed

section \<open>The log of accepted mutations\<close>

datatype mutation = Moved pyfloat | Shut

definition recorded :: "'b manager_ops \<Rightarrow> ('b \<times> mutation list) manager_ops" where
  "recorded ops = \<lparr>
     bo_modify = (\<lambda>i p ins bl. case bo_modify ops i p ins (fst bl) of
        (b, Inl e) \<Rightarrow> ((b, snd bl), Inl e) | (b, Inr v) \<Rightarrow> ((b, snd bl @ [Moved p]), Inr v)),
     bo_close = (\<lambda>i bl. case bo_close ops i (fst bl) of
        (b, Inl e) \<Rightarrow> ((b, snd bl), Inl e) | (b, Inr v) \<Rightarrow> ((b, snd bl @ [Shut]), Inr v)),
     bo_emit = map_option (\<lambda>em t resp x bl. case em t resp x (fst bl) of (b, r) \<Rightarrow> ((b, snd bl), r)) (bo_emit ops),
     bo_clock = (\<lambda>bl. bo_clock ops (fst bl))\<rparr>"

text \<open>One tick at a price, from an arbitrary broker state.\<close>

definition tick_log :: "position_manager \<Rightarrow> 'b manager_ops \<Rightarrow> pyfloat \<times> 'b \<Rightarrow> managed_trade \<times> mutation list \<Rightarrow>
    managed_trade \<times> mutation list" where
  "tick_log pm ops pb tlog = (case fst (on_tick pm (recorded ops) (fst pb) (fst tlog, snd pb, snd tlog)) of (t, b, l) \<Rightarrow> (t, l))"

definition ticks :: "position_manager \<Rightarrow> 'b manager_ops \<Rightarrow> (pyfloat \<times> 'b) list \<Rightarrow> managed_trade \<Rightarrow>
    managed_trade \<times> mutation list" where
  "ticks pm ops pbs t = fold (tick_log pm ops) pbs (t, [])"

definition same_trade :: "managed_trade \<Rightarrow> managed_trade \<Rightarrow> bool" where
  "same_trade t0 t \<longleftrightarrow> mt_id t = mt_id t0 \<and> mt_instrument t = mt_instrument t0 \<and> mt_side t = mt_side t0
     \<and> mt_entry t = mt_entry t0 \<and> mt_initial t = mt_initial t0 \<and> mt_opened t = mt_opened t0
     \<and> mt_max_duration t = mt_max_duration t0"

definition managed_inv :: "managed_trade \<Rightarrow> managed_trade \<times> mutation list \<Rightarrow> bool" where
  "managed_inv t0 tlog \<longleftrightarrow> same_trade t0 (fst tlog)
     \<and> (''t100'' \<in> mt_done (fst tlog) \<longrightarrow> mt_closed (fst tlog) \<or> ''t100'' \<in> mt_done t0)
     \<and> (mt_at_breakeven t0 \<longrightarrow> mt_at_breakeven (fst tlog))
     \<and> (\<exists>stops. snd tlog = map Moved stops @ (if mt_closed (fst tlog) then [Shut] else [])
        \<and> sorted_wrt (\<lambda>a b. is_tighter t0 b a) (mt_stop t0 # stops) \<and> mt_stop (fst tlog) = last (mt_stop t0 # stops))"

text \<open>What a stage keeps, on the state \<open>(trade, broker, log)\<close>.\<close>

definition stage_inv :: "managed_trade \<Rightarrow> managed_trade \<times> 'b \<times> mutation list \<Rightarrow> bool" where
  "stage_inv t0 s \<longleftrightarrow> managed_inv t0 (fst s, snd (snd s)) \<and> \<not> mt_closed (fst s)"

lemma managed_inv_stop:
  assumes "managed_inv t0 (t, l)" "\<not> mt_closed t" "is_tighter t new (mt_stop t)"
  shows "managed_inv t0 (t\<lparr>mt_stop := new\<rparr>, l @ [Moved new])"
proof -
  from assms(1,2) obtain stops where s: "l = map Moved stops" "sorted_wrt (\<lambda>a b. is_tighter t0 b a) (mt_stop t0 # stops)"
    "mt_stop t = last (mt_stop t0 # stops)" and same: "same_trade t0 t"
    by (auto simp: managed_inv_def)
  have "transp (\<lambda>a b. is_tighter t0 b a)" by (rule transpI) (rule is_tighter_trans)
  moreover have "is_tighter t0 new (last (mt_stop t0 # stops))"
    using assms(3) s(3) same is_tighter_side [of t t0] by (simp add: same_trade_def)
  ultimately have "sorted_wrt (\<lambda>a b. is_tighter t0 b a) (mt_stop t0 # stops @ [new])"
    using s(2) by (intro sorted_wrt_snoc) auto
  then show ?thesis using assms(1,2) s(1) unfolding managed_inv_def
    by (intro conjI exI [of _ "stops @ [new]"]) (auto simp: same_trade_def)
qed

lemma managed_inv_shut:
  assumes "managed_inv t0 (t, l)" "\<not> mt_closed t" shows "managed_inv t0 (t\<lparr>mt_closed := True\<rparr>, l @ [Shut])"
  using assms by (auto simp: managed_inv_def same_trade_def)

lemma managed_inv_breakeven: "managed_inv t0 (t, l) \<Longrightarrow> managed_inv t0 (t\<lparr>mt_at_breakeven := True\<rparr>, l)"
  by (auto simp: managed_inv_def same_trade_def)

lemma managed_inv_tag: "managed_inv t0 (t, l) \<Longrightarrow> tag \<noteq> ''t100'' \<or> mt_closed t \<Longrightarrow>
    managed_inv t0 (t\<lparr>mt_done := insert tag (mt_done t)\<rparr>, l)"
  by (auto simp: managed_inv_def same_trade_def)

section \<open>Stages\<close>

lemma recorded_simps [simp]: "bo_clock (recorded ops) (b, l) = bo_clock ops b"
  by (simp add: recorded_def)

lemma set_stop_recorded:
  assumes "stage_inv t0 s" "is_tighter (fst s) new (mt_stop (fst s))" "set_stop (recorded ops) new s = (s', r)"
  shows "stage_inv t0 s'"
proof -
  obtain t b l where s: "s = (t, b, l)" by (cases s)
  obtain b1 r1 where m: "bo_modify ops (mt_id t) new (mt_instrument t) b = (b1, r1)" by force
  show ?thesis
    using assms s m managed_inv_stop [of t0 t l new]
    by (cases r1) (auto simp: set_stop_def recorded_def stage_inv_def)
qed

lemma time_stage_keeps: "keeps (stage_inv t0) (time_stage pm frc)"
  unfolding keeps_def time_stage_def by (auto simp: sbind_def mark_done_def stage_inv_def managed_inv_tag)

lemma breakeven_stage_keeps: "keeps (stage_inv t0) (breakeven_stage pm (recorded ops) price)"
proof -
  have "stage_inv t0 s'" if "stage_inv t0 s" "breakeven_stage pm (recorded ops) price s = (s', r)" for s s' r
  proof (cases "breakeven_stage pm (recorded ops) price s = (s, r)")
    case True
    with that show ?thesis by simp
  next
    case False
    let ?be = "breakeven_stop (fst s) (pm_buffer_pips pm) (pip_size (mt_instrument (fst s)))"
    have mark: "stage_inv t0 (fst (mark_breakeven x))" if "stage_inv t0 x" for x
      using that managed_inv_breakeven by (auto simp: mark_breakeven_def stage_inv_def)
    show ?thesis
    proof (cases "is_tighter (fst s) ?be (mt_stop (fst s))")
      case True
      obtain s1 r1 where s1: "set_stop (recorded ops) ?be s = (s1, r1)" by (cases "set_stop (recorded ops) ?be s")
      have "stage_inv t0 s1" using set_stop_recorded [OF that(1) True s1] .
      then show ?thesis using that(2) False True s1 mark [of s1]
        by (auto simp: breakeven_stage_def Let_def sbind_def mark_breakeven_def split: if_splits sum.splits)
    next
      case notight: False
      then show ?thesis using that False mark [of s]
        by (auto simp: breakeven_stage_def Let_def sbind_def mark_breakeven_def split: if_splits sum.splits)
    qed
  qed
  then show ?thesis unfolding keeps_def by (metis prod.collapse)
qed

lemma trailing_stage_keeps: "keeps (stage_inv t0) (trailing_stage pm (recorded ops) price)"
proof -
  have "stage_inv t0 s'" if "stage_inv t0 s" "trailing_stage pm (recorded ops) price s = (s', r)" for s s' r
  proof (cases "is_tighter (fst s) (trailing_stop (fst s) price (pm_trail pm)) (mt_stop (fst s))")
    case True
    obtain s1 r1 where s1: "set_stop (recorded ops) (trailing_stop (fst s) price (pm_trail pm)) s = (s1, r1)"
      by (cases "set_stop (recorded ops) (trailing_stop (fst s) price (pm_trail pm)) s")
    show ?thesis using that set_stop_recorded [OF that(1) True s1] s1
      by (auto simp: trailing_stage_def Let_def sbind_def split: if_splits sum.splits)
  next
    case False
    with that show ?thesis by (auto simp: trailing_stage_def Let_def split: if_splits)
  qed
  then show ?thesis unfolding keeps_def by (metis prod.collapse)
qed

lemma rules_keep: "keeps (stage_inv t0) (sbind (time_stage pm frc) (\<lambda>a. sbind (breakeven_stage pm (recorded ops) price) (\<lambda>b.
    sbind (trailing_stage pm (recorded ops) price) (\<lambda>c. sret (a @ b @ c)))))"
  by (intro keeps_intros time_stage_keeps breakeven_stage_keeps trailing_stage_keeps)

section \<open>Ticks\<close>

lemma close_managed_recorded:
  assumes "stage_inv t0 s" "close_managed (recorded ops) x s = (s', r)"
  shows "stage_inv t0 s' \<and> (\<exists>e. r = Inl e) \<or> managed_inv t0 (fst s', snd (snd s')) \<and> mt_closed (fst s')"
proof -
  obtain t b l where s: "s = (t, b, l)" by (cases s)
  obtain b1 r1 where m: "bo_close ops (mt_id t) b = (b1, r1)" by force
  show ?thesis
  proof (cases r1)
    case (Inl e)
    then show ?thesis using assms s m by (auto simp: close_managed_def recorded_def stage_inv_def)
  next
    case (Inr v)
    have "managed_inv t0 (t\<lparr>mt_closed := True\<rparr>, l @ [Shut])"
      using assms(1) s by (intro managed_inv_shut) (auto simp: stage_inv_def)
    then show ?thesis using assms(2) s m Inr
      by (cases "bo_emit ops") (auto simp: close_managed_def recorded_def Let_def split: prod.splits)
  qed
qed

lemma on_tick_inv:
  assumes "managed_inv t0 (fst s, snd (snd s))" "on_tick pm (recorded ops) price s = (s', r)"
  shows "managed_inv t0 (fst s', snd (snd s'))"
proof (cases "\<not> pm_enabled pm \<or> mt_closed (fst s)")
  case True
  then show ?thesis using assms by (auto simp: on_tick_def)
next
  case False
  then have si: "stage_inv t0 s" using assms(1) by (simp add: stage_inv_def)
  show ?thesis
  proof (cases "time_fraction (fst s) (bo_clock (recorded ops) (snd s))")
    case (Inl e)
    then show ?thesis using assms False by (auto simp: on_tick_def)
  next
    case (Inr frc)
    show ?thesis
    proof (cases "fl_le (Fin 1) frc \<and> ''t100'' \<notin> mt_done (fst s)")
      case True
      obtain s1 r1 where c: "close_managed (recorded ops) ''expiry'' s = (s1, r1)"
        by (cases "close_managed (recorded ops) ''expiry'' s")
      have "managed_inv t0 (fst s1, snd (snd s1)) \<and> (\<forall>u. r1 = Inr u \<longrightarrow> mt_closed (fst s1))"
        using close_managed_recorded [OF si c] by (auto simp: stage_inv_def)
      then show ?thesis using assms(2) False Inr True c managed_inv_tag [of t0 "fst s1" "snd (snd s1)" "''t100''"]
        by (auto simp: on_tick_def sbind_def mark_done_def split: sum.splits)
    next
      case no: False
      then have "sbind (time_stage pm frc) (\<lambda>a. sbind (breakeven_stage pm (recorded ops) price) (\<lambda>b.
          sbind (trailing_stage pm (recorded ops) price) (\<lambda>c. sret (a @ b @ c)))) s = (s', r)"
        using assms(2) False Inr by (simp add: on_tick_def if_not_P [OF no])
      from keepsD [OF rules_keep si this] show ?thesis by (simp add: stage_inv_def)
    qed
  qed
qed

lemma tick_log_inv: "managed_inv t0 tlog \<Longrightarrow> managed_inv t0 (tick_log pm ops pb tlog)"
  using on_tick_inv [of t0 "(fst tlog, snd pb, snd tlog)" pm ops "fst pb"]
  by (cases "on_tick pm (recorded ops) (fst pb) (fst tlog, snd pb, snd tlog)") (auto simp: tick_log_def split: prod.splits)

lemma fold_tick_inv: "managed_inv t0 tlog \<Longrightarrow> managed_inv t0 (fold (tick_log pm ops) pbs tlog)"
  by (induction pbs arbitrary: tlog) (simp_all add: tick_log_inv)

lemma managed_inv_start: "\<not> mt_closed t0 \<Longrightarrow> managed_inv t0 (t0, [])"
  by (auto simp: managed_inv_def same_trade_def intro: exI [of _ "[]"])

lemma ticks_inv: "\<not> mt_closed t0 \<Longrightarrow> managed_inv t0 (ticks pm ops pbs t0)"
  unfolding ticks_def by (intro fold_tick_inv managed_inv_start)

lemma last_tighter: "sorted_wrt (\<lambda>a b. is_tighter t b a) (x # xs) \<Longrightarrow> last (x # xs) = x \<or> is_tighter t (last (x # xs)) x"
  by (cases xs rule: rev_cases) auto

section \<open>The breakeven stage\<close>

lemma time_stage_cases: "time_stage pm frc (t, b) = (s', r) \<Longrightarrow>
    \<exists>d a. s' = (t\<lparr>mt_done := d\<rparr>, b) \<and> r = Inr a"
  by (cases t) (auto simp: time_stage_def sbind_def mark_done_def split: if_splits)

lemma breakeven_stage_holds:
  assumes "breakeven_stage pm ops price (t, b) = ((t', b'), Inr a)" "\<not> mt_at_breakeven t"
    "r_multiple t price = Inr r" "fl_le (fl_sub (pm_breakeven_r pm) R_EPS) r"
  shows "mt_at_breakeven t' \<and> mt_side t' = mt_side t
    \<and> \<not> is_tighter t (breakeven_stop t (pm_buffer_pips pm) (pip_size (mt_instrument t))) (mt_stop t')"
  using assms by (auto simp: breakeven_stage_def Let_def sbind_def set_stop_def mark_breakeven_def split: if_splits prod.splits sum.splits)

lemma trailing_stage_cases:
  "trailing_stage pm ops price (t, b) = ((t', b'), r) \<Longrightarrow> t' = t \<or> (\<exists>x. t' = t\<lparr>mt_stop := x\<rparr> \<and> is_tighter t x (mt_stop t))"
  by (auto simp: trailing_stage_def Let_def sbind_def set_stop_def split: if_splits prod.splits sum.splits)

lemma on_tick_breakeven:
  assumes "on_tick pm ops price (t, b) = ((t', b'), Inr acts)" "pm_enabled pm" "\<not> mt_closed t" "\<not> mt_at_breakeven t"
    "\<not> mt_closed t'" "r_multiple t price = Inr r" "fl_le (fl_sub (pm_breakeven_r pm) R_EPS) r"
  shows "mt_at_breakeven t' \<and> mt_side t' = mt_side t
    \<and> \<not> is_tighter t (breakeven_stop t (pm_buffer_pips pm) (pip_size (mt_instrument t))) (mt_stop t')"
proof -
  obtain f where f: "time_fraction t (bo_clock ops b) = Inr f"
    using assms(1-3) by (cases "time_fraction t (bo_clock ops b)") (auto simp: on_tick_def)
  have no: "\<not> (fl_le (Fin 1) f \<and> ''t100'' \<notin> mt_done t)"
  proof
    assume "fl_le (Fin 1) f \<and> ''t100'' \<notin> mt_done t"
    then have "mt_closed t'" using assms(1-3) f
      by (auto simp: on_tick_def sbind_def close_managed_def mark_done_def Let_def split: prod.splits sum.splits option.splits)
    with assms(5) show False ..
  qed
  obtain s1 r1 where st: "time_stage pm f (t, b) = (s1, r1)" by (cases "time_stage pm f (t, b)")
  from time_stage_cases [OF st] obtain d a where d: "s1 = (t\<lparr>mt_done := d\<rparr>, b)" "r1 = Inr a" by blast
  let ?t = "t\<lparr>mt_done := d\<rparr>"
  have rest: "sbind (breakeven_stage pm ops price) (\<lambda>b. sbind (trailing_stage pm ops price) (\<lambda>c. sret (a @ b @ c))) (?t, b)
      = ((t', b'), Inr acts)"
    using assms(1-3) f st d by (simp add: on_tick_def if_not_P [OF no])
  then obtain t2 b2 a2 where b2: "breakeven_stage pm ops price (?t, b) = ((t2, b2), Inr a2)"
    by (auto simp: sbind_def split: prod.splits sum.splits)
  then obtain r3 where tr: "trailing_stage pm ops price (t2, b2) = ((t', b'), r3)"
    using rest by (auto simp: sbind_def split: prod.splits sum.splits)
  have "r_multiple ?t price = r_multiple t price"
    by (simp add: r_multiple_def risk_distance_def favorable_move_def mt_direction_def)
  then have rm: "r_multiple ?t price = Inr r" using assms(6) by simp
  have be: "breakeven_stop ?t = breakeven_stop t" by (simp add: breakeven_stop_def mt_direction_def fun_eq_iff)
  have ti: "is_tighter ?t = is_tighter t" by (rule is_tighter_side) simp
  from breakeven_stage_holds [OF b2 _ rm assms(7)] assms(4) have h: "mt_at_breakeven t2" "mt_side t2 = mt_side t"
    "\<not> is_tighter t (breakeven_stop t (pm_buffer_pips pm) (pip_size (mt_instrument t))) (mt_stop t2)"
    by (simp_all add: be ti)
  from trailing_stage_cases [OF tr] show ?thesis
  proof
    assume "t' = t2" with h show ?thesis by simp
  next
    assume "\<exists>x. t' = t2\<lparr>mt_stop := x\<rparr> \<and> is_tighter t2 x (mt_stop t2)"
    then obtain x where x: "t' = t2\<lparr>mt_stop := x\<rparr>" "is_tighter t x (mt_stop t2)"
      using is_tighter_side [OF h(2)] by auto
    then show ?thesis using h is_tighter_trans [of t x "mt_stop t2"] by auto
  qed
qed

section \<open>Properties\<close>

text \<open>C13: Over its whole life a managed trade's stop only tightens and it is closed at most once.
  Whatever the prices, the clock and the broker do at each tick, also when calls fail or the close
  callback raises, the mutations the broker accepted for a trade are a strictly tightening sequence of
  stops, beginning tighter than its stop at registration, followed by at most one close, after which
  nothing is sent; and the stop the manager holds is the last one the broker accepted.\<close>

theorem stops_only_tighten:
  assumes "\<not> mt_closed t0" "ticks pm ops pbs t0 = (t, sent)"
  shows "\<exists>stops. sent = map Moved stops @ (if mt_closed t then [Shut] else [])
    \<and> sorted_wrt (\<lambda>a b. is_tighter t0 b a) (mt_stop t0 # stops) \<and> mt_stop t = last (mt_stop t0 # stops)"
  using ticks_inv [OF assms(1), of pm ops pbs] assms(2) by (simp add: managed_inv_def)

text \<open>C38: A trade past its maximal duration is force-closed at the next tick that reaches the broker.
  However it was managed before, if it is open, the manager enabled and its duration has elapsed, then a
  tick at which the broker accepts the close closes it and moves no stop, whatever the close callback
  does.\<close>

theorem expired_trade_is_closed:
  assumes "\<not> mt_closed t0" "''t100'' \<notin> mt_done t0" "ticks pm ops pbs t0 = (t, sent)" "\<not> mt_closed t"
    and "pm_enabled pm" "mt_max_duration t0 = Fin d" "0 < d" "fl_le (Fin d) (total_seconds (bo_clock ops b - mt_opened t0))"
    and "bo_close ops (mt_id t0) b = (b1, Inr resp)"
  shows "\<exists>t' b' r. on_tick pm ops price (t, b) = ((t', b'), r) \<and> mt_closed t' \<and> mt_stop t' = mt_stop t
    \<and> (bo_emit ops = None \<longrightarrow> b' = b1 \<and> r = Inr [''time_exit_close''])"
proof -
  have inv: "managed_inv t0 (t, sent)" using ticks_inv [OF assms(1), of pm ops pbs] assms(3) by simp
  then have t: "''t100'' \<notin> mt_done t" "same_trade t0 t" using assms(2,4) by (auto simp: managed_inv_def)
  let ?e = "total_seconds (bo_clock ops b - mt_opened t0)"
  have "\<exists>f. fl_div ?e (Fin d) = Inr f \<and> fl_le (Fin 1) f"
  proof (cases ?e)
    case (Fin e)
    then have "1 \<le> e / d" using assms(7,8) by (simp add: fl_le_def le_less)
    then have "fl_le (b64 1) (b64 (e / d))" by (rule b64_mono)
    then show ?thesis using Fin assms(7) by (simp add: b64_small)
  qed (use assms(7,8) in \<open>auto simp: fl_le_def fl_signed_inf_def sgn_if\<close>)
  then obtain f where f: "fl_div ?e (Fin d) = Inr f" "fl_le (Fin 1) f" by blast
  have "time_fraction t (bo_clock ops b) = Inr f"
    using f(1) t(2) assms(6,7) by (simp add: time_fraction_def same_trade_def fl_le_def)
  then show ?thesis using f(2) t assms(4,5,9)
    by (cases "bo_emit ops")
       (auto simp: on_tick_def sbind_def close_managed_def mark_done_def same_trade_def Let_def split: prod.splits sum.splits)
qed

text \<open>Breakeven is one-way. A tick at which an open trade first reaches the breakeven multiple of
  its risk, and that does not close it, leaves its stop at the breakeven price or tighter, and no later
  tick, whatever the prices, the clock and the broker do, ever takes that protection away.\<close>

theorem breakeven_protects:
  assumes "on_tick pm ops price (t, b) = ((t1, b1), Inr acts)" "pm_enabled pm" "\<not> mt_closed t" "\<not> mt_at_breakeven t"
    "\<not> mt_closed t1" "r_multiple t price = Inr r" "fl_le (fl_sub (pm_breakeven_r pm) R_EPS) r"
    and "ticks pm ops pbs t1 = (t2, sent)"
  shows "mt_at_breakeven t2
    \<and> \<not> is_tighter t (breakeven_stop t (pm_buffer_pips pm) (pip_size (mt_instrument t))) (mt_stop t2)"
proof -
  note h = on_tick_breakeven [OF assms(1-7)]
  have inv: "managed_inv t1 (t2, sent)" using ticks_inv [OF assms(5), of pm ops pbs] assms(8) by simp
  then obtain stops where "sorted_wrt (\<lambda>a b. is_tighter t1 b a) (mt_stop t1 # stops)" "mt_stop t2 = last (mt_stop t1 # stops)"
    by (auto simp: managed_inv_def)
  then have "mt_stop t2 = mt_stop t1 \<or> is_tighter t (mt_stop t2) (mt_stop t1)"
    using last_tighter is_tighter_side [of t1 t] h by metis
  moreover have "mt_at_breakeven t2" using inv h by (simp add: managed_inv_def)
  ultimately show ?thesis using h is_tighter_trans by metis
qed

definition wit_pm :: position_manager where
  "wit_pm = \<lparr>pm_breakeven_r = Fin 1, pm_buffer_pips = Fin 0, pm_trail = Fin 0, pm_fractions = [], pm_enabled = True\<rparr>"

definition wit_trade :: managed_trade where
  "wit_trade = \<lparr>mt_id = ''t1'', mt_instrument = ''EUR_USD'', mt_side = ''BUY'', mt_entry = Fin 2, mt_initial = Fin 1,
     mt_target = Fin 5, mt_opened = 0, mt_gran = VStr ''H1'', mt_max_duration = Fin 100, mt_corr = VStr ''c1'', mt_stop = Fin 1,
     mt_at_breakeven = False, mt_done = {}, mt_closed = False, mt_order_id = None\<rparr>"

definition wit_ops :: "nat manager_ops" where
  "wit_ops = \<lparr>bo_modify = (\<lambda>i p ins b. (Suc b, Inr VNone)), bo_close = (\<lambda>i b. (Suc b, Inr VNone)), bo_emit = None,
     bo_clock = (\<lambda>b. if b = 9 then 200000000 else 0)\<rparr>"

theorem stops_only_tighten_witness:
  "\<exists>stops. snd (ticks wit_pm wit_ops [(Fin 4, 0), (Fin 3, 9), (Fin 5, 1)] wit_trade) = map Moved stops
     @ (if mt_closed (fst (ticks wit_pm wit_ops [(Fin 4, 0), (Fin 3, 9), (Fin 5, 1)] wit_trade)) then [Shut] else [])"
proof -
  have "\<not> mt_closed wit_trade" by (simp add: wit_trade_def)
  from stops_only_tighten [OF this prod.collapse [symmetric]] show ?thesis by blast
qed

theorem expired_trade_is_closed_witness:
  "\<exists>t' b' r. on_tick wit_pm wit_ops (Fin 4) (wit_trade, 9) = ((t', b'), r) \<and> mt_closed t'"
proof -
  have "ticks wit_pm wit_ops [] wit_trade = (wit_trade, [])" by (simp add: ticks_def)
  moreover have "total_seconds 200000000 = Fin 200" using total_seconds_whole [of 200] by simp
  ultimately show ?thesis
    using expired_trade_is_closed [of wit_trade wit_pm wit_ops "[]" wit_trade "[]" 100 9 10 VNone "Fin 4"]
    by (auto simp: wit_trade_def wit_pm_def wit_ops_def)
qed

lemma wit_breakeven_threshold: "fl_le (fl_sub (Fin 1) R_EPS) (Fin 2)"
proof -
  obtain e where e: "R_EPS = Fin e" "0 \<le> e" unfolding R_EPS_def using b64_unit [of "1 / 1000000000"] by auto
  have "fl_le (b64 (1 - e)) (Fin 2)" using e(2) by (intro b64_fixed_mono_le) (simp_all add: b64_small)
  then show ?thesis by (simp add: e(1))
qed

lemma wit_breakeven_stop: "breakeven_stop wit_trade (Fin 0) (pip_size ''EUR_USD'') = Fin 2"
proof -
  have "upper ''EUR_USD'' = ''EUR_USD''" "\<not> endswith ''EUR_USD'' ''_JPY''" "upper ''BUY'' = ''BUY''" by code_simp+
  moreover obtain p where p: "STD_PIP = Fin p" unfolding STD_PIP_def using b64_unit [of "1 / 10000"] by auto
  ultimately show ?thesis by (simp add: breakeven_stop_def wit_trade_def mt_direction_def pip_size_def b64_small p)
qed

lemma wit_breakeven_tick: "on_tick wit_pm wit_ops (Fin 4) (wit_trade, 0)
    = ((wit_trade\<lparr>mt_stop := Fin 2, mt_at_breakeven := True\<rparr>, 1), Inr [''breakeven''])"
  "r_multiple wit_trade (Fin 4) = Inr (Fin 2)"
proof -
  have u: "upper ''BUY'' = ''BUY''" by code_simp
  show r: "r_multiple wit_trade (Fin 4) = Inr (Fin 2)"
    by (simp add: r_multiple_def risk_distance_def favorable_move_def wit_trade_def mt_direction_def u b64_small)
  have "time_fraction wit_trade 0 = Inr (Fin 0)"
    using total_seconds_whole [of 0] by (simp add: time_fraction_def wit_trade_def)
  moreover have "is_tighter wit_trade (Fin 2) (Fin 1)" by (simp add: is_tighter_def wit_trade_def mt_direction_def u)
  moreover have "mt_instrument wit_trade = ''EUR_USD''" "mt_stop wit_trade = Fin 1" "\<not> mt_at_breakeven wit_trade"
    "\<not> mt_closed wit_trade" by (simp_all add: wit_trade_def)
  ultimately show "on_tick wit_pm wit_ops (Fin 4) (wit_trade, 0)
    = ((wit_trade\<lparr>mt_stop := Fin 2, mt_at_breakeven := True\<rparr>, 1), Inr [''breakeven''])"
    using wit_breakeven_threshold wit_breakeven_stop r
    by (simp add: on_tick_def time_stage_def has_fraction_def breakeven_stage_def trailing_stage_def wit_pm_def
        wit_ops_def set_stop_def mark_breakeven_def sbind_def Let_def)
qed

theorem breakeven_protects_witness:
  "\<not> is_tighter wit_trade (Fin 2) (mt_stop (fst (ticks wit_pm wit_ops [(Fin 3, 0), (Fin 1, 4)]
     (wit_trade\<lparr>mt_stop := Fin 2, mt_at_breakeven := True\<rparr>))))"
proof -
  have f: "pm_enabled wit_pm" "\<not> mt_closed wit_trade" "\<not> mt_at_breakeven wit_trade"
    "\<not> mt_closed (wit_trade\<lparr>mt_stop := Fin 2, mt_at_breakeven := True\<rparr>)" by (simp_all add: wit_pm_def wit_trade_def)
  have th: "fl_le (fl_sub (pm_breakeven_r wit_pm) R_EPS) (Fin 2)"
    using wit_breakeven_threshold by (simp add: wit_pm_def)
  have i: "mt_instrument wit_trade = ''EUR_USD''" "pm_buffer_pips wit_pm = Fin 0" by (simp_all add: wit_trade_def wit_pm_def)
  from breakeven_protects [OF wit_breakeven_tick(1) f wit_breakeven_tick(2) th prod.collapse [symmetric]]
  show ?thesis by (simp add: i wit_breakeven_stop)
qed

text \<open>A trade whose broker call fails ends the sweep: the trades registered after it are not managed
  at that tick, and the exception leaves \<open>evaluate_all\<close>.\<close>

lemma sweep_stops_at_failure:
  assumes "\<not> mt_closed t" "map_of prices (mt_instrument t) = Some price" "on_tick pm ops price (t, b) = ((t1, b1), Inl e)"
  shows "evaluate_trades pm ops prices ((tid, t) # trades) b = ((tid, t1) # trades, b1, Inl e)"
  using assms by simp

end
