(* ===== verification/Scan_Laws.thy ===== *)
theory Scan_Laws
  imports Close_Tracker
begin

text \<open>
  The scan of the transaction stream: what it asks the broker for is bounded whatever the broker
  answers, and on a stream whose ids are consecutive, as OANDA's are, the paged scan is one pass over
  the first 5000 transactions from the trade's own. Then the shape of the close event.
\<close>

section \<open>Requests\<close>

text \<open>The ranges asked for, as an increasing sequence of disjoint pages inside \<open>lo\<close> to \<open>hi\<close>.\<close>

fun pages_within :: "int \<Rightarrow> int \<Rightarrow> (int \<times> int) list \<Rightarrow> bool" where
  "pages_within lo hi [] = True"
| "pages_within lo hi ((a, b) # rs) = (lo \<le> a \<and> a \<le> b \<and> b \<le> hi \<and> b < a + TXN_PAGE_SIZE \<and> pages_within (b + 1) hi rs)"

lemma pages_within_mono: "pages_within lo hi rs \<Longrightarrow> lo' \<le> lo \<Longrightarrow> pages_within lo' hi rs"
  by (cases rs) auto

lemma page_end_bounds: "lo \<le> to_id \<Longrightarrow> lo \<le> page_end lo to_id \<and> page_end lo to_id \<le> to_id \<and> page_end lo to_id < lo + TXN_PAGE_SIZE"
  by (auto simp: page_end_def TXN_PAGE_SIZE_def)

text \<open>C25: The transaction scan is bounded. Whatever the broker answers, sparse, repeated or
  unordered ids and failures included, the pages requested are increasing and disjoint, lie between
  the trade's own transaction and the last one, hold at most 500 ids each, and there are at most
  5000 of them; the recursion that models the loop is total, so the scan ends.\<close>

theorem scan_is_bounded:
  assumes "\<And>lo hi b. reqs (fst (fetch_transaction_range src lo hi b)) = reqs b @ [(lo, hi)]"
  shows "\<exists>rs. reqs (fst (iter_transactions src tid to_id lo scanned s b)) = reqs b @ rs
    \<and> pages_within lo to_id rs \<and> length rs \<le> TXN_MAX_SCAN - scanned"
  using assms
proof (induction src tid to_id lo scanned s b rule: iter_transactions.induct)
  case (1 src tid to_id lo scanned s b)
  let ?hi = "page_end lo to_id"
  show ?case
  proof (cases "lo \<le> to_id \<and> scanned < TXN_MAX_SCAN")
    case False
    then show ?thesis by (subst iter_transactions.simps) (auto intro: exI [of _ "[]"])
  next
    case go: True
    obtain b1 r where f: "fetch_transaction_range src lo ?hi b = (b1, r)" by force
    have b1: "reqs b1 = reqs b @ [(lo, ?hi)]" using "1.prems" [of lo ?hi b] f by simp
    have one: "pages_within lo to_id [(lo, ?hi)]" "length [(lo, ?hi)] \<le> TXN_MAX_SCAN - scanned"
      using page_end_bounds [of lo to_id] go by auto
    show ?thesis
    proof (cases "\<exists>batch s1 h. r = Inr batch \<and> batch \<noteq> [] \<and> take_page tid ?hi batch s = Inr (s1, h)")
      case False
      then have "fst (iter_transactions src tid to_id lo scanned s b) = b1"
        using go f by (subst iter_transactions.simps) (auto split: sum.splits)
      with b1 one show ?thesis by (intro exI [of _ "[(lo, ?hi)]"]) simp
    next
      case True
      then obtain batch s1 h where r: "r = Inr batch" "batch \<noteq> []" "take_page tid ?hi batch s = Inr (s1, h)" by blast
      from "1.IH" [OF go f [symmetric] r(1,2) r(3) refl "1.prems"] obtain rs where
        rs: "reqs (fst (iter_transactions src tid to_id (h + 1) (scanned + length batch) s1 b1)) = reqs b1 @ rs"
          "pages_within (h + 1) to_id rs" "length rs \<le> TXN_MAX_SCAN - (scanned + length batch)" by blast
      have "iter_transactions src tid to_id lo scanned s b = iter_transactions src tid to_id (h + 1) (scanned + length batch) s1 b1"
        using go f r by (subst iter_transactions.simps) simp
      moreover have "pages_within lo to_id ((lo, ?hi) # rs)"
        using one(1) pages_within_mono [OF rs(2)] take_page_ge [OF r(3)] by simp
      moreover have "length ((lo, ?hi) # rs) \<le> TXN_MAX_SCAN - scanned"
        using rs(3) r(2) go by (cases batch) auto
      ultimately show ?thesis using rs(1) b1 by (intro exI [of _ "(lo, ?hi) # rs"]) simp
    qed
  qed
qed

definition wit_recorder :: "(int \<times> int) list close_source" where
  "wit_recorder = \<lparr>src_transport = undefined, src_range = Some (\<lambda>lo hi b. (b @ [(lo, hi)], Inr (VList [VDict []]))),
     src_request = (\<lambda>_ _ b. (b, Inr VNone))\<rparr>"

theorem scan_is_bounded_witness:
  "\<exists>rs. fst (iter_transactions wit_recorder ''7'' 9000 7 0 \<lparr>scan_index = [], scan_found = None\<rparr> []) = rs \<and> pages_within 7 9000 rs \<and> length rs \<le> 5000"
proof -
  have "\<exists>rs. id (fst (iter_transactions wit_recorder ''7'' 9000 7 0 \<lparr>scan_index = [], scan_found = None\<rparr> [])) = id [] @ rs
    \<and> pages_within 7 9000 rs \<and> length rs \<le> TXN_MAX_SCAN - 0"
    by (rule scan_is_bounded) (simp add: wit_recorder_def fetch_transaction_range_def)
  then show ?thesis by (simp add: TXN_MAX_SCAN_def)
qed

section \<open>One pass\<close>

lemma scan_page_append: "scan_page tid (xs @ ys) s = ebind (scan_page tid xs s) (scan_page tid ys)"
  by (induction xs arbitrary: s) (auto simp: ebind_def split: sum.splits)

text \<open>A broker whose stream is \<open>txn\<close>: every id has a transaction, which carries it.\<close>

definition serves_stream :: "'b close_source \<Rightarrow> (int \<Rightarrow> pyval) \<Rightarrow> bool" where
  "serves_stream src txn \<longleftrightarrow> (\<forall>lo hi b. fetch_transaction_range src lo hi b = (b, Inr (map txn [lo..hi])))
     \<and> (\<forall>i. \<exists>v. vget (txn i) ''id'' = Inr v \<and> py_int v = Inr i)"

lemma highest_id_stream:
  assumes "serves_stream src txn" "\<forall>i \<in> set is. i \<le> h"
  shows "highest_id h (map txn is) = Inr h"
  using assms(2)
proof (induction "is")
  case (Cons i xs)
  obtain v where "vget (txn i) ''id'' = Inr v" "py_int v = Inr i" using assms(1) unfolding serves_stream_def by blast
  with Cons show ?case by (simp add: max_absorb1)
qed simp

lemma paged_scan_is_one_pass:
  assumes src: "serves_stream src txn"
  shows "scanned \<le> TXN_MAX_SCAN \<Longrightarrow> 500 dvd scanned \<Longrightarrow>
    iter_transactions src tid to_id lo scanned s b
      = (b, scan_page tid (map txn [lo..min to_id (lo + int (TXN_MAX_SCAN - scanned) - 1)]) s)"
proof (induction "TXN_MAX_SCAN - scanned" arbitrary: scanned lo s rule: less_induct)
  case less
  show ?case
  proof (cases "lo \<le> to_id \<and> scanned < TXN_MAX_SCAN")
    case False
    then show ?thesis using less.prems by (auto simp: iter_transactions.simps [of _ _ _ lo scanned])
  next
    case True
    let ?hi = "page_end lo to_id"
    have step: "scanned + 500 \<le> TXN_MAX_SCAN" using True less.prems by (auto simp: TXN_MAX_SCAN_def elim!: dvdE)
    have fetch: "fetch_transaction_range src lo ?hi b = (b, Inr (map txn [lo..?hi]))"
      using src unfolding serves_stream_def by blast
    have ne: "map txn [lo..?hi] \<noteq> []" using page_end_bounds [of lo to_id] True by simp
    have take: "take_page tid ?hi (map txn [lo..?hi]) s = emap (\<lambda>s1. (s1, ?hi)) (scan_page tid (map txn [lo..?hi]) s)"
      using highest_id_stream [OF src, of "[lo..?hi]" ?hi] by (simp add: take_page_def ebind_def emap_def split: sum.splits)
    have unroll: "iter_transactions src tid to_id lo scanned s b = (case scan_page tid (map txn [lo..?hi]) s of
        Inl e \<Rightarrow> (b, Inl e)
      | Inr s1 \<Rightarrow> iter_transactions src tid to_id (?hi + 1) (scanned + length (map txn [lo..?hi])) s1 b)"
      using True ne by (subst iter_transactions.simps) (simp add: fetch take emap_def split: sum.splits)
    let ?stop = "min to_id (lo + int (TXN_MAX_SCAN - scanned) - 1)"
    have split: "[lo..?stop] = [lo..?hi] @ [?hi + 1..?stop]"
      using True step by (intro upto_split2) (auto simp: page_end_def TXN_PAGE_SIZE_def)
    have pass: "scan_page tid (map txn [lo..?stop]) s = ebind (scan_page tid (map txn [lo..?hi]) s) (scan_page tid (map txn [?hi + 1..?stop]))"
      unfolding split map_append by (rule scan_page_append)
    have rest: "iter_transactions src tid to_id (?hi + 1) (scanned + length (map txn [lo..?hi])) s1 b
        = (b, scan_page tid (map txn [?hi + 1..?stop]) s1)" for s1
    proof (cases "to_id \<le> lo + 499")
      case True
      then have "?hi = to_id" by (simp add: page_end_def TXN_PAGE_SIZE_def)
      then show ?thesis by (simp add: iter_transactions.simps [of _ _ to_id "to_id + 1"])
    next
      case full: False
      then have hi: "?hi = lo + 499" by (simp add: page_end_def TXN_PAGE_SIZE_def)
      have e: "lo + 499 + 1 + int (TXN_MAX_SCAN - (scanned + 500)) - 1 = lo + int (TXN_MAX_SCAN - scanned) - 1" using step by simp
      have "TXN_MAX_SCAN - (scanned + 500) < TXN_MAX_SCAN - scanned" using step by simp
      from less.hyps [OF this step, of "lo + 499 + 1" s1] less.prems(2) show ?thesis unfolding hi e by simp
    qed
    show ?thesis unfolding unroll pass rest by (simp add: ebind_def split: sum.splits)
  qed
qed

definition close_window :: "int \<Rightarrow> int \<Rightarrow> int list" where
  "close_window from_id n = [from_id..min n (from_id + 4999)]"

lemma close_window_upper: "i \<in> set (close_window from_id n) \<Longrightarrow> i \<le> from_id + 4999"
  by (simp add: close_window_def)

text \<open>C22: The search for a close is one pass over a bounded window. On a stream with consecutive ids, the
  paged search for the close of trade \<open>from_id\<close> up to transaction \<open>n\<close> gives exactly what reading the
  transactions from \<open>from_id\<close> to \<open>n\<close>, but no further than the 5000th, one after the other gives: the
  last fill in the window whose closed trades include it, its entry and the index of the window, or
  nothing, or the same exception.\<close>

theorem close_search_is_one_pass:
  assumes "serves_stream src txn" "int_of_str tid = Inr from_id" "from_id \<le> n"
  shows "find_close_transaction src tid (Some n) b
    = (b, emap (\<lambda>s. map_option (\<lambda>(t, c). (t, c, scan_index s)) (scan_found s))
        (scan_page tid (map txn (close_window from_id n)) \<lparr>scan_index = [], scan_found = None\<rparr>))"
proof -
  have "iter_transactions src tid n from_id 0 s b = (b, scan_page tid (map txn (close_window from_id n)) s)" for s
    using paged_scan_is_one_pass [OF assms(1), of 0 tid n from_id s b]
    by (simp add: close_window_def TXN_MAX_SCAN_def algebra_simps)
  then show ?thesis
    using assms(2,3) by (simp add: find_close_transaction_def sbind_def emap_def split: sum.splits)
qed

text \<open>A stream in which the trade \<open>7\<close> is closed only by transaction \<open>6000\<close>.\<close>

definition wit_txn :: "int \<Rightarrow> pyval" where
  "wit_txn i = VDict ((''id'', VInt i) # (if i = 6000 then [(''type'', VStr ''ORDER_FILL''),
     (''tradesClosed'', VList [VDict [(''tradeID'', VStr ''7'')]])] else []))"

definition wit_stream :: "unit close_source" where
  "wit_stream = \<lparr>src_transport = undefined, src_range = Some (\<lambda>lo hi b. (b, Inr (VList (map wit_txn [lo..hi])))),
     src_request = (\<lambda>_ _ b. (b, Inr VNone))\<rparr>"

lemma wit_stream_serves: "serves_stream wit_stream wit_txn"
  by (simp add: serves_stream_def wit_stream_def fetch_transaction_range_def wit_txn_def)

lemma scan_page_quiet:
  assumes "\<And>t. t \<in> set ts \<Longrightarrow> vget t ''id'' \<noteq> Inl AttributeError \<and> vget t ''type'' \<noteq> Inr (VStr ''ORDER_FILL'')"
  shows "\<exists>s'. scan_page tid ts s = Inr s' \<and> scan_found s' = scan_found s"
  using assms
proof (induction ts arbitrary: s)
  case (Cons t ts)
  obtain d where t: "t = VDict d" using Cons.prems [of t] by (cases t) auto
  then have "scan_step tid t s = Inr (s\<lparr>scan_index := AList.update (py_str (dget d ''id'')) t (scan_index s)\<rparr>)"
    using Cons.prems [of t] by (auto simp: scan_step_def Let_def)
  moreover obtain s' where "scan_page tid ts (s\<lparr>scan_index := AList.update (py_str (dget d ''id'')) t (scan_index s)\<rparr>) = Inr s'"
    "scan_found s' = scan_found s"
    using Cons.IH [of "s\<lparr>scan_index := AList.update (py_str (dget d ''id'')) t (scan_index s)\<rparr>"] Cons.prems by auto
  ultimately show ?case by (intro exI [of _ s']) simp
qed simp

theorem close_search_is_one_pass_witness:
  "snd (find_close_transaction wit_stream ''7'' (Some 6000) ()) = Inr None
    \<and> (\<exists>r. snd (find_close_transaction wit_stream ''6000'' (Some 6000) ()) = Inr r)"
proof -
  let ?s = "\<lparr>scan_index = [], scan_found = None\<rparr> :: scan"
  have id: "int_of_str ''7'' = Inr 7" "int_of_str ''6000'' = Inr 6000" by code_simp+
  have quiet: "vget t ''id'' \<noteq> Inl AttributeError \<and> vget t ''type'' \<noteq> Inr (VStr ''ORDER_FILL'')"
    if t: "t \<in> set (map wit_txn (close_window 7 6000))" for t
    proof -
    obtain i where "i \<in> set (close_window 7 6000)" "t = wit_txn i"
      using t unfolding set_map by blast
    with close_window_upper [of i 7 6000] have "i < 6000" "t = VDict [(''id'', VInt i)]" by (simp_all add: wit_txn_def)
    then show ?thesis by simp
  qed
  obtain s' where s': "scan_page ''7'' (map wit_txn (close_window 7 6000)) ?s = Inr s'" "scan_found s' = scan_found ?s"
    using scan_page_quiet [where s = ?s and tid = "''7''" and ts = "map wit_txn (close_window 7 6000)"] quiet by blast
  have "snd (find_close_transaction wit_stream ''7'' (Some 6000) ()) = Inr None"
    using close_search_is_one_pass [OF wit_stream_serves id(1), of 6000 "()"] s' by simp
  moreover have "close_window 6000 6000 = [6000]" by (simp add: close_window_def)
  then have "\<exists>r. snd (find_close_transaction wit_stream ''6000'' (Some 6000) ()) = Inr r"
    using close_search_is_one_pass [OF wit_stream_serves id(2), of 6000 "()"]
    by (simp add: wit_txn_def scan_step_def Let_def)
  ultimately show ?thesis by blast
qed

section \<open>The close event\<close>

text \<open>The fields of the contract of System 3, which allows no others.\<close>

definition CLOSE_EVENT_FIELDS :: "string set" where
  "CLOSE_EVENT_FIELDS = {''schema_version'', ''broker_order_id'', ''order_request_id'', ''status'', ''signal_id'', ''direction'',
     ''event_time'', ''realized_pnl'', ''exit_reason'', ''pair'', ''units'', ''fill_price'', ''fill_time'', ''slippage_pips''}"

definition optional :: "string \<Rightarrow> pydict \<Rightarrow> bool" where
  "optional k d \<longleftrightarrow> map fst d = [] \<or> map fst d = [k]"

lemma dget_append: "k \<in> fst ` set d \<Longrightarrow> dget (d @ r) k = dget d k"
proof (induction d)
  case (Cons x d)
  then show ?case by (cases x) auto
qed simp

text \<open>Every close event has the shape System 3 accepts: only fields of its contract, each once, the
  status closed, the close transaction as its id, a signal id and an order id that are never empty,
  so the close is never matched to another trade by its pair, a known exit reason, and a size, when
  it has one, that is the rounded size signed by the trade's direction.\<close>

theorem close_event_is_well_formed:
  assumes "build_close_event t f reason time now = Inr v"
  shows "\<exists>d. v = VDict d \<and> fst ` set d \<subseteq> CLOSE_EVENT_FIELDS \<and> distinct (map fst d)
    \<and> dget d ''status'' = VStr ''closed'' \<and> dget d ''broker_order_id'' = VStr (cf_txn f)
    \<and> truthy (dget d ''signal_id'') \<and> truthy (dget d ''order_request_id'')
    \<and> (\<exists>r. r \<in> VALID_EXIT_REASONS \<and> dget d ''exit_reason'' = VStr r)
    \<and> (dget d ''units'' = VNone \<or> (\<exists>u n. cf_units f = Some u \<and> fl_round u = Inr n \<and> dget d ''units'' = VInt (n * mt_direction t)))"
proof -
  obtain us where us: "units_field t f = Inr us" using assms by (auto simp: build_close_event_def emap_Inr_iff)
  define base where "base = [(''schema_version'', VStr ''1''), (''broker_order_id'', VStr (cf_txn f)),
      (''order_request_id'', or_else (opt_str (mt_order_id t)) (VStr (unknown_id t))), (''status'', VStr ''closed''),
      (''signal_id'', or_else (mt_corr t) (VStr (unknown_id t))),
      (''direction'', VStr (if mt_direction t = 1 then ''long'' else ''short'')),
      (''event_time'', or_else (opt_str time) (VStr now)), (''realized_pnl'', VFloat (cf_pnl f)),
      (''exit_reason'', VStr (if reason \<in> VALID_EXIT_REASONS then reason else ''other''))]"
  define a where "a = (if is_pair (mt_instrument t) then [(''pair'', VStr (mt_instrument t))] else [])"
  define c where "c = (case cf_price f of None \<Rightarrow> [] | Some p \<Rightarrow> if fl_less (Fin 0) p then [(''fill_price'', VFloat p)] else [])"
  define e where "e = (if truthy (cf_time f) then [(''fill_time'', cf_time f)] else [])"
  define g where "g = (case cf_slip f of None \<Rightarrow> [] | Some x \<Rightarrow> [(''slippage_pips'', VFloat x)])"
  have v: "v = VDict (base @ a @ us @ c @ e @ g)"
    using assms unfolding build_close_event_def us base_def a_def c_def e_def g_def by simp
  have parts: "optional ''pair'' a" "optional ''units'' us" "optional ''fill_price'' c" "optional ''fill_time'' e"
    "optional ''slippage_pips'' g"
    using us by (auto simp: optional_def a_def c_def e_def g_def units_field_def emap_Inr_iff split: option.splits if_splits)
  have keys: "distinct (map fst base @ map fst a @ map fst us @ map fst c @ map fst e @ map fst g)
     \<and> set (map fst base @ map fst a @ map fst us @ map fst c @ map fst e @ map fst g) \<subseteq> CLOSE_EVENT_FIELDS"
    using parts unfolding optional_def
    by (elim disjE; simp add: base_def CLOSE_EVENT_FIELDS_def)
  have u: "us = [] \<or> (\<exists>u n. cf_units f = Some u \<and> fl_round u = Inr n \<and> us = [(''units'', VInt (n * mt_direction t))])"
    using us by (auto simp: units_field_def emap_Inr_iff split: option.splits if_splits)
  have rest: "dget (a @ us @ c @ e @ g) ''units'' = dget us ''units''"
    using parts unfolding optional_def by (elim disjE exE) (auto simp: map_eq_Cons_conv)
  have other: "''other'' \<in> VALID_EXIT_REASONS" by (simp add: VALID_EXIT_REASONS_def)
  have get: "dget (base @ a @ us @ c @ e @ g) k = dget base k" if "k \<in> fst ` set base" for k
    using that by (rule dget_append)
  have heads: "truthy (or_else (mt_corr t) (VStr (unknown_id t)))" "truthy (or_else (opt_str (mt_order_id t)) (VStr (unknown_id t)))"
    by (simp_all add: or_else_def unknown_id_def)
  show ?thesis
  proof (intro exI [of _ "base @ a @ us @ c @ e @ g"] conjI)
    show "v = VDict (base @ a @ us @ c @ e @ g)" by (rule v)
    show "fst ` set (base @ a @ us @ c @ e @ g) \<subseteq> CLOSE_EVENT_FIELDS" "distinct (map fst (base @ a @ us @ c @ e @ g))"
      using keys by (simp_all only: set_map [symmetric] map_append)
    show "dget (base @ a @ us @ c @ e @ g) ''status'' = VStr ''closed''"
      "dget (base @ a @ us @ c @ e @ g) ''broker_order_id'' = VStr (cf_txn f)"
      "truthy (dget (base @ a @ us @ c @ e @ g) ''signal_id'')" "truthy (dget (base @ a @ us @ c @ e @ g) ''order_request_id'')"
      by (subst get; simp add: base_def heads)+
    show "\<exists>r. r \<in> VALID_EXIT_REASONS \<and> dget (base @ a @ us @ c @ e @ g) ''exit_reason'' = VStr r"
      by (subst get) (auto simp: base_def other)
    have "dget (base @ a @ us @ c @ e @ g) ''units'' = dget us ''units''" using rest by (simp add: base_def)
    then show "dget (base @ a @ us @ c @ e @ g) ''units'' = VNone
      \<or> (\<exists>u n. cf_units f = Some u \<and> fl_round u = Inr n \<and> dget (base @ a @ us @ c @ e @ g) ''units'' = VInt (n * mt_direction t))"
      using u by auto
  qed
qed

definition wit_trade :: managed_trade where
  "wit_trade = \<lparr>mt_id = ''11'', mt_instrument = ''USD_JPY'', mt_side = ''SELL'', mt_entry = Fin 150, mt_initial = Fin 152,
     mt_target = Fin 144, mt_opened = 0, mt_gran = VStr ''H1'', mt_max_duration = Fin 0, mt_corr = VStr ''c1'', mt_stop = Fin 152,
     mt_at_breakeven = False, mt_done = {}, mt_closed = False, mt_order_id = Some ''k1''\<rparr>"

definition wit_facts :: close_facts where
  "wit_facts = \<lparr>cf_txn = ''21'', cf_pnl = Fin 3, cf_price = Some (Fin 149), cf_time = VStr ''2026-07-21T10:00:00Z'',
     cf_units = Some (Fin 1000), cf_slip = None\<rparr>"

lemma wit_event: "build_close_event wit_trade wit_facts ''expiry'' None now \<noteq> Inl x"
  by (simp add: build_close_event_def units_field_def wit_facts_def)

theorem close_event_is_well_formed_witness:
  "\<exists>d. build_close_event wit_trade wit_facts ''expiry'' None ''now'' = Inr (VDict d) \<and> distinct (map fst d)
    \<and> fst ` set d \<subseteq> CLOSE_EVENT_FIELDS"
proof -
  obtain v where v: "build_close_event wit_trade wit_facts ''expiry'' None ''now'' = Inr v"
    using wit_event [of "''now''"] by (cases "build_close_event wit_trade wit_facts ''expiry'' None ''now''") auto
  from close_event_is_well_formed [OF v] v show ?thesis by blast
qed

end
