(* ===== verification/Backfill.thy ===== *)
theory Backfill
  imports Close_Tracker
begin

text \<open>
  \<open>tools/backfill_closes.py\<close>: the repair run that replays the closes of every session trade through the
  emission path of the close tracker. The session trades are the fill confirmations the outbox keeps,
  newest first; a trade's close comes from the broker's trade details or, when those cannot be read,
  from the transaction stream. Broker, outbox and ledger are those of a sweep.

  A close time that names no instant of the calendar is treated as unreadable.
\<close>

section \<open>Session trades\<close>

definition json_id :: "pyval \<Rightarrow> string option" where
  "json_id v = (case v of VNone \<Rightarrow> None | VStr s \<Rightarrow> Some s | _ \<Rightarrow> Some (py_str v))"

definition trade_from_envelope :: "instant \<Rightarrow> pyval \<Rightarrow> managed_trade option res" where
  "trade_from_envelope now envelope =
     ebind (vget envelope ''payload'') (\<lambda>p. let payload = or_else p (VDict []) in
     ebind (vget payload ''realized_status'') (\<lambda>status. if status \<noteq> VStr ''FILLED'' \<and> status \<noteq> VStr ''PARTIAL'' then Inr None else
     ebind (vget payload ''broker_trade_id'') (\<lambda>tid. if \<not> truthy tid then Inr None else
     ebind (vget_or payload ''instrument'' (VStr [])) (\<lambda>ins.
     ebind (vget_or payload ''side'' (VStr ''BUY'')) (\<lambda>side.
     ebind (ebind (vget payload ''fill_price'') float_or_zero) (\<lambda>price.
     ebind (ebind (vget payload ''stop_loss_price'') float_or_zero) (\<lambda>sl.
     ebind (ebind (vget payload ''take_profit_price'') float_or_zero) (\<lambda>tp.
     ebind (vget payload ''fill_time'') (\<lambda>time.
     ebind (vget envelope ''granularity'') (\<lambda>gran.
     ebind (vget envelope ''correlation_id'') (\<lambda>corr.
     ebind (vget envelope ''idempotency_key'') (\<lambda>key.
       emap Some (build_managed_trade now (py_str tid) (py_str ins) (py_str side) price (Some sl) (Some tp) time gran corr (json_id key))))))))))))))"

section \<open>The close of one trade\<close>

datatype backfill_lookup = Bf_open | Bf_unknown | Bf_found close_facts string

definition bf_details :: "pyval \<Rightarrow> backfill_lookup option res" where
  "bf_details details = (if \<not> truthy details then Inr None
     else ebind (vget details ''state'') (\<lambda>state. if state \<noteq> VStr ''CLOSED'' then Inr (Some Bf_open)
     else ebind (facts_from_trade_details details) (\<lambda>facts. case facts of None \<Rightarrow> Inr (Some Bf_unknown)
       | Some f \<Rightarrow> emap (\<lambda>r. Some (Bf_found f r)) (exit_reason_from_trade_details details))))"

definition backfill_resolve :: "'b close_source \<Rightarrow> managed_trade \<Rightarrow> ('b, backfill_lookup) act" where
  "backfill_resolve src t =
     sbind (scatch (\<lambda>_. True) (tr_trade (src_transport src) (mt_id t)) (\<lambda>_. sret VNone)) (\<lambda>details.
     sbind (slift (bf_details details)) (\<lambda>found. case found of
         Some lk \<Rightarrow> sret lk
       | None \<Rightarrow> sbind (resolve_close_from_transactions src (mt_id t) (Some (mt_instrument t))) (\<lambda>r.
           sret (case r of None \<Rightarrow> Bf_unknown | Some (f, reason) \<Rightarrow> Bf_found f reason))))"

definition closed_since :: "instant \<Rightarrow> close_facts \<Rightarrow> bool" where
  "closed_since since f = (case parse_ts_str (py_str (cf_time f)) of Inl e \<Rightarrow> False | Inr t \<Rightarrow> since \<le> t)"

section \<open>The run\<close>

text \<open>The arguments of the command line and the wall clock. Without an emitter (\<open>--dry-run\<close>) the event is only
  built, to be printed.\<close>

record backfill_args =
  ba_since :: instant
  ba_dry_run :: bool
  ba_now :: instant
  ba_iso_now :: string

record bf_counts =
  bf_scanned :: nat
  bf_emitted :: nat
  bf_skipped :: nat

definition count_emitted :: "bf_counts \<Rightarrow> bf_counts" where
  "count_emitted c = c\<lparr>bf_emitted := bf_emitted c + 1\<rparr>"

definition count_skipped :: "bf_counts \<Rightarrow> bf_counts" where
  "count_skipped c = c\<lparr>bf_skipped := bf_skipped c + 1\<rparr>"

definition count_scanned :: "bf_counts \<Rightarrow> bf_counts" where
  "count_scanned c = c\<lparr>bf_scanned := bf_scanned c + 1\<rparr>"

definition backfill_emit :: "'l processed_ops \<Rightarrow> ('s, 'w) producer \<Rightarrow> nat \<Rightarrow> backfill_args \<Rightarrow> managed_trade \<Rightarrow> close_facts \<Rightarrow> string \<Rightarrow>
    bf_counts \<Rightarrow> ('s, 'w, 'l) em_state \<Rightarrow> (('s, 'w, 'l) em_state \<times> bf_counts res) option" where
  "backfill_emit ops p fuel a t f reason c em =
     (if \<not> closed_since (ba_since a) f then Some (em, Inr c)
      else if ba_dry_run a then Some (em, emap (\<lambda>_. count_emitted c) (build_close_event t f reason None (ba_iso_now a)))
      else if pr_seen ops (mt_id t) (snd em) then Some (em, Inr (count_skipped c))
      else map_option (\<lambda>(em1, ok). (em1, Inr (if ok then count_emitted c else count_skipped c))) (emit ops p fuel t f reason em))"

definition backfill_trade :: "'l processed_ops \<Rightarrow> ('s, 'w) producer \<Rightarrow> nat \<Rightarrow> 'b close_source \<Rightarrow> backfill_args \<Rightarrow> managed_trade \<Rightarrow>
    bf_counts \<Rightarrow> ('s, 'w, 'l, 'b) sweep_state \<Rightarrow> (('s, 'w, 'l, 'b) sweep_state \<times> bf_counts res) option" where
  "backfill_trade ops p fuel src a t c st = (case at_broker (backfill_resolve src t) st of
      (st1, Inl e) \<Rightarrow> Some (st1, Inl e)
    | (st1, Inr Bf_open) \<Rightarrow> Some (st1, Inr c)
    | (st1, Inr Bf_unknown) \<Rightarrow> Some (st1, Inr (count_skipped c))
    | (st1, Inr (Bf_found f reason)) \<Rightarrow>
        map_option (\<lambda>(em, r). (st1\<lparr>ss_em := em\<rparr>, r)) (backfill_emit ops p fuel a t f reason c (ss_em st1)))"

text \<open>One row of the outbox, as \<open>iter_fill_envelopes\<close> reads it: nothing when it is not JSON or no fill
  confirmation.\<close>

definition session_trade :: "instant \<Rightarrow> qrow \<Rightarrow> managed_trade option res" where
  "session_trade now r = (case q_body r of
      RawBody s \<Rightarrow> Inr None
    | JsonBody v \<Rightarrow> ebind (vget v ''event_type'') (\<lambda>et.
        if et \<noteq> VStr ''fill_confirmation'' then Inr None else trade_from_envelope now v))"

fun backfill_rows :: "'l processed_ops \<Rightarrow> ('s, 'w) producer \<Rightarrow> nat \<Rightarrow> 'b close_source \<Rightarrow> backfill_args \<Rightarrow> qrow list \<Rightarrow> string list \<Rightarrow>
    bf_counts \<Rightarrow> ('s, 'w, 'l, 'b) sweep_state \<Rightarrow> (('s, 'w, 'l, 'b) sweep_state \<times> bf_counts res) option" where
  "backfill_rows ops p fuel src a [] seen_ids c st = Some (st, Inr c)"
| "backfill_rows ops p fuel src a (r # rs) seen_ids c st = (case session_trade (ba_now a) r of
      Inl e \<Rightarrow> Some (st, Inl e)
    | Inr None \<Rightarrow> backfill_rows ops p fuel src a rs seen_ids c st
    | Inr (Some t) \<Rightarrow> if mt_id t \<in> set seen_ids then backfill_rows ops p fuel src a rs seen_ids c st
        else (case backfill_trade ops p fuel src a t (count_scanned c) st of
            None \<Rightarrow> None
          | Some (st1, Inl e) \<Rightarrow> Some (st1, Inl e)
          | Some (st1, Inr c1) \<Rightarrow> backfill_rows ops p fuel src a rs (mt_id t # seen_ids) c1 st1))"

definition outbox_rows :: "qdb option \<Rightarrow> qrow list" where
  "outbox_rows outbox = (case outbox of None \<Rightarrow> [] | Some db \<Rightarrow> rev (filter (\<lambda>r. q_topic r = ''fill_outbox'') (qd_rows db)))"

definition backfill :: "'l processed_ops \<Rightarrow> ('s, 'w) producer \<Rightarrow> nat \<Rightarrow> 'b close_source \<Rightarrow> backfill_args \<Rightarrow> qdb option \<Rightarrow>
    ('s, 'w, 'l, 'b) sweep_state \<Rightarrow> (('s, 'w, 'l, 'b) sweep_state \<times> bf_counts res) option" where
  "backfill ops p fuel src a outbox st =
     backfill_rows ops p fuel src a (outbox_rows outbox) [] \<lparr>bf_scanned = 0, bf_emitted = 0, bf_skipped = 0\<rparr> st"

end
