(* ===== verification/Close_Laws.thy ===== *)
theory Close_Laws
  imports Scan_Laws Fill_Laws Outbound_Laws Backfill
begin

text \<open>
  What close tracking guarantees. Emission rests on two contracts at once, the message store of the
  outbox and the ledger of processed keys; a locale joins them, and its instance is the durable
  backend with the sqlite ledger. The scan of the transaction stream is compared with one pass over
  the stream it pages through, and its requests are bounded.
\<close>

section \<open>The record of deliveries only grows\<close>

lemma deliver_one_grows:
  assumes "deliver_one (logging p) m (n, s, w, l) = ((n', s', w', l'), r)"
  shows "\<exists>x. l' = l @ x"
proof -
  consider u w1 where "log_publish (fp_publish p) (fp_inbound p) (m_body m) (w, l) = ((w1, l @ [m_body m]), Inr u)"
    | e w1 where "log_publish (fp_publish p) (fp_inbound p) (m_body m) (w, l) = ((w1, l), Inl e)"
    by (rule log_publish_cases [of "fp_publish p" "fp_inbound p" "m_body m" w l]) blast+
  then show ?thesis using assms
    by cases (auto simp: deliver_one_def split: sum.splits)
qed

lemma deliver_batch_grows:
  "deliver_batch (logging p) ms (n, s, w, l) = ((n', s', w', l'), r) \<Longrightarrow> \<exists>x. l' = l @ x"
proof (induction ms arbitrary: n s w l n' s' w' l' r)
  case (Cons m ms)
  obtain n1 s1 w1 l1 r1 where d: "deliver_one (logging p) m (n, s, w, l) = ((n1, s1, w1, l1), r1)"
    by (cases "deliver_one (logging p) m (n, s, w, l)") auto
  obtain n2 s2 w2 l2 r2 where b: "deliver_batch (logging p) ms (n1, s1, w1, l1) = ((n2, s2, w2, l2), r2)"
    by (cases "deliver_batch (logging p) ms (n1, s1, w1, l1)") auto
  show ?case using deliver_one_grows [OF d] Cons.IH [OF b] Cons.prems d b
    by (cases r1; cases r2; auto)
qed simp

lemma flush_loop_grows:
  "flush_loop (logging p) fuel k (n, s, w, l) = Some ((n', s', w', l'), r) \<Longrightarrow> \<exists>x. l' = l @ x"
proof (induction fuel arbitrary: k n s w l)
  case (Suc fuel)
  obtain s1 rb where pull: "so_pull (fp_outbox p) (fp_clock p n) (fp_topic p) 10 s = (s1, rb)" by force
  show ?case
  proof (cases "\<exists>batch. rb = Inr batch \<and> batch \<noteq> []")
    case False
    with Suc.prems pull show ?thesis by (cases rb) auto
  next
    case True
    then obtain batch where batch: "rb = Inr batch" "batch \<noteq> []" by blast
    obtain n2 s2 w2 l2 r2 where b: "deliver_batch (logging p) batch (Suc n, s1, w, l) = ((n2, s2, w2, l2), r2)"
      by (cases "deliver_batch (logging p) batch (Suc n, s1, w, l)") auto
    obtain x where x: "l2 = l @ x" using deliver_batch_grows [OF b] by blast
    show ?thesis
    proof (cases "\<exists>j. r2 = Inr (Suc j)")
      case True
      then obtain j where "r2 = Inr (Suc j)" by blast
      then have "flush_loop (logging p) fuel (k + Suc j) (n2, s2, w2, l2) = Some ((n', s', w', l'), r)"
        using Suc.prems pull batch b by simp
      from Suc.IH [OF this] x show ?thesis by auto
    next
      case no: False
      have "l' = l2"
      proof (cases r2)
        case (Inr j)
        with no have "j = 0" by (cases j) auto
        then show ?thesis using Suc.prems pull batch b Inr by auto
      qed (use Suc.prems pull batch b in auto)
      with x show ?thesis by blast
    qed
  qed
qed simp

section \<open>Emission\<close>

text \<open>An event that reports a close of the trade with this id.\<close>

definition is_close_event :: "string \<Rightarrow> pyval \<Rightarrow> bool" where
  "is_close_event tid v \<longleftrightarrow> (\<exists>t f reason time now. mt_id t = tid \<and> build_close_event t f reason time now = Inr v)"

definition outbox_of :: "('s, 'w, 'l) em_state \<Rightarrow> 's" where
  "outbox_of em = fst (snd (fst em))"

locale close_emission = message_store sops inv kept holds + processed_store led
  for sops :: "'s store_ops" and inv :: "'s \<Rightarrow> bool" and kept :: "string \<Rightarrow> 's \<Rightarrow> qbody multiset"
    and holds :: "string \<Rightarrow> 's \<Rightarrow> qmsg \<Rightarrow> bool" and led :: "'l processed_ops"
begin

text \<open>From \<open>em\<close> to \<open>em'\<close> the closes \<open>evs\<close> were emitted: one event for each of a set of trade ids that
  were new to the ledger and are in it now, delivered or held, and nothing else has changed hands.\<close>

definition books :: "string \<Rightarrow> ('s, 'w \<times> pyval list, 'l) em_state \<Rightarrow> ('s, 'w \<times> pyval list, 'l) em_state \<Rightarrow> (string \<times> pyval) list \<Rightarrow> bool" where
  "books t em em' evs \<longleftrightarrow> inv (outbox_of em')
     \<and> accounted kept t (fst em') = accounted kept t (fst em) + mset (map (JsonBody \<circ> snd) evs)
     \<and> size (kept t (outbox_of em')) \<le> size (kept t (outbox_of em)) + length evs
     \<and> distinct (map fst evs) \<and> (\<forall>x \<in> set evs. \<not> pr_seen led (fst x) (snd em) \<and> is_close_event (fst x) (snd x))
     \<and> (\<forall>k. pr_seen led k (snd em') \<longleftrightarrow> pr_seen led k (snd em) \<or> k \<in> fst ` set evs)"

lemma books_refl: "inv (outbox_of em) \<Longrightarrow> books t em em []"
  by (simp add: books_def)

lemma booksD:
  assumes "books t em em' evs"
  shows "inv (outbox_of em')" "accounted kept t (fst em') = accounted kept t (fst em) + mset (map (JsonBody \<circ> snd) evs)"
    "size (kept t (outbox_of em')) \<le> size (kept t (outbox_of em)) + length evs" "distinct (map fst evs)"
    "\<And>x. x \<in> set evs \<Longrightarrow> \<not> pr_seen led (fst x) (snd em) \<and> is_close_event (fst x) (snd x)"
    "\<And>k. pr_seen led k (snd em') \<longleftrightarrow> pr_seen led k (snd em) \<or> k \<in> fst ` set evs"
proof -
  show "inv (outbox_of em')" "accounted kept t (fst em') = accounted kept t (fst em) + mset (map (JsonBody \<circ> snd) evs)"
    "size (kept t (outbox_of em')) \<le> size (kept t (outbox_of em)) + length evs" "distinct (map fst evs)"
    using assms by (simp_all only: books_def)
  show "\<not> pr_seen led (fst x) (snd em) \<and> is_close_event (fst x) (snd x)" if "x \<in> set evs" for x
    using assms that unfolding books_def by (elim conjE) (drule (1) bspec)
  show "pr_seen led k (snd em') \<longleftrightarrow> pr_seen led k (snd em) \<or> k \<in> fst ` set evs" for k
    using assms unfolding books_def by (elim conjE) (erule allE)
qed

lemma books_trans:
  assumes a: "books t em em1 xs" and b: "books t em1 em2 ys"
  shows "books t em em2 (xs @ ys)"
  unfolding books_def
proof (intro conjI ballI allI)
  note a = booksD [OF a] and b = booksD [OF b]
  show "inv (outbox_of em2)" by (rule b(1))
  show "accounted kept t (fst em2) = accounted kept t (fst em) + mset (map (JsonBody \<circ> snd) (xs @ ys))"
    unfolding b(2) a(2) by simp
  show "size (kept t (outbox_of em2)) \<le> size (kept t (outbox_of em)) + length (xs @ ys)"
    using a(3) b(3) by simp
  show "distinct (map fst (xs @ ys))"
  proof (rule distinct_map_append [OF a(4) b(4)])
    fix y assume "y \<in> set ys"
    then show "fst y \<notin> fst ` set xs" using b(5) [of y] a(6) [of "fst y"] by iprover
  qed
  show "pr_seen led k (snd em2) \<longleftrightarrow> pr_seen led k (snd em) \<or> k \<in> fst ` set (xs @ ys)" for k
    unfolding b(6) a(6) by auto
  fix x assume "x \<in> set (xs @ ys)"
  then consider "x \<in> set xs" | "x \<in> set ys" by auto
  then show "\<not> pr_seen led (fst x) (snd em)" "is_close_event (fst x) (snd x)"
    by (cases; use a(5,6) b(5) in blast)+
qed

lemma flush_books:
  assumes "fp_outbox p = sops" "fp_topic p = t" "inv (outbox_of (st, l))" "size (kept t (outbox_of (st, l))) < fuel"
  shows "\<exists>st' k. emitter_flush (logging p) fuel st = Some (st', k) \<and> books t (st, l) (st', l) []"
proof -
  obtain n s w lg where st: "st = (n, s, w, lg)" by (cases st) auto
  with assms(3,4) have s: "inv s" "size (kept t s) < fuel" by (simp_all add: outbox_of_def)
  obtain n' s' w' l' r where f: "flush_loop (logging p) fuel 0 (n, s, w, lg) = Some ((n', s', w', l'), r)"
    "inv s'" "accounted kept t (n', s', w', l') = accounted kept t (n, s, w, lg)"
    using flush_loop_spec [OF assms(1,2) s, of 0 n w lg] by blast
  obtain x where "l' = lg @ x" using flush_loop_grows [OF f(1)] by blast
  with f(3) have "kept t s = mset (map JsonBody x) + kept t s'" by (simp add: accounted_def)
  then have "size (kept t s') \<le> size (kept t s)" by simp
  then show ?thesis using f st by (auto simp: emitter_flush_def flush_def books_def outbox_of_def)
qed

text \<open>Marking the ledger and parking the event are one step of the books.\<close>

lemma park_books:
  assumes "fp_outbox p = sops" "fp_topic p = t" "inv s" "\<not> pr_seen led k l" "is_close_event k v"
  shows "books t ((n, s, w, lg), l) (outbox_put (logging p) v (Suc n, s, w, lg), pr_mark led k l) [(k, v)]"
  using assms by (auto simp: books_def outbox_of_def outbox_put_def accounted_def seen_mark inv_publish kept_publish)

lemma emit_books:
  assumes "fp_outbox p = sops" "fp_topic p = t" "inv (outbox_of em)" "Suc (size (kept t (outbox_of em))) < fuel"
  shows "\<exists>em' ok evs. emit led (logging p) fuel tr f reason em = Some (em', ok) \<and> books t em em' evs
    \<and> length evs \<le> 1 \<and> fst ` set evs \<subseteq> {mt_id tr} \<and> (ok \<longrightarrow> pr_seen led (mt_id tr) (snd em'))"
proof -
  obtain n s w lg l where em: "em = ((n, s, w, lg), l)" by (cases em) auto
  have s: "inv s" "size (kept t s) + 1 < fuel" using assms(3,4) em by (simp_all add: outbox_of_def)
  show ?thesis
  proof (cases "pr_seen led (mt_id tr) l")
    case True
    then have "emit led (logging p) fuel tr f reason em = Some (em, True)" by (simp add: emit_def em)
    then show ?thesis using True books_refl [OF assms(3), of t] by (intro exI [of _ em] exI [of _ True] exI [of _ "[]"]) (simp add: em)
  next
    case new: False
    show ?thesis
    proof (cases "build_close_event tr f reason None (iso_now (fp_clock p n))")
      case (Inl e)
      then have "emit led (logging p) fuel tr f reason em = Some (((Suc n, s, w, lg), l), False)"
        using new by (simp add: emit_def em)
      moreover have "books t em ((Suc n, s, w, lg), l) []" using s(1) by (simp add: em books_def outbox_of_def accounted_def)
      ultimately show ?thesis by (intro exI [of _ "((Suc n, s, w, lg), l)"] exI [of _ False] exI [of _ "[]"]) simp
    next
      case (Inr v)
      let ?put = "outbox_put (logging p) v (Suc n, s, w, lg)" and ?l = "pr_mark led (mt_id tr) l"
      have "is_close_event (mt_id tr) v" unfolding is_close_event_def using Inr by blast
      note park = park_books [OF assms(1,2) s(1) new this, of n w lg]
      have inv: "inv (outbox_of (?put, ?l))" using park by (simp add: books_def)
      have "size (kept t (outbox_of (?put, ?l))) \<le> size (kept t s) + 1"
        using park by (simp add: books_def outbox_of_def)
      then have "size (kept t (outbox_of (?put, ?l))) < fuel" using s(2) by simp
      from flush_books [OF assms(1,2) inv this] obtain st' k where
        "emitter_flush (logging p) fuel ?put = Some (st', k)" and b: "books t (?put, ?l) (st', ?l) []" by blast
      then have "emit led (logging p) fuel tr f reason em = Some ((st', ?l), True)"
        using new Inr by (simp add: emit_def em Let_def)
      then show ?thesis using books_trans [OF park b]
        by (intro exI [of _ "(st', ?l)"] exI [of _ True] exI [of _ "[(mt_id tr, v)]"]) (simp add: em seen_mark)
    qed
  qed
qed

end

section \<open>The sweep\<close>

text \<open>What a sweep may do to an entry of the trade table: nothing, or close an open trade that the
  ledger has.\<close>

definition settles :: "(string \<Rightarrow> bool) \<Rightarrow> string \<times> managed_trade \<Rightarrow> string \<times> managed_trade \<Rightarrow> bool" where
  "settles seen x y \<longleftrightarrow> y = x
     \<or> y = (fst x, (snd x)\<lparr>mt_closed := True\<rparr>) \<and> \<not> mt_closed (snd x) \<and> seen (mt_id (snd x))"

definition open_trade_ids :: "(string \<times> managed_trade) list \<Rightarrow> string set" where
  "open_trade_ids trades = (mt_id \<circ> snd) ` set (filter (\<lambda>x. \<not> mt_closed (snd x)) trades)"

lemma settles_refl [simp]: "settles seen x x"
  by (simp add: settles_def)

lemma settles_mono: "settles p x y \<Longrightarrow> (\<And>k. p k \<Longrightarrow> q k) \<Longrightarrow> settles q x y"
  by (auto simp: settles_def)

lemma settles_all_refl [simp]: "list_all2 (settles seen) xs xs"
  by (simp add: list_all2_refl)

lemma settles_all_mono: "list_all2 (settles p) xs ys \<Longrightarrow> (\<And>k. p k \<Longrightarrow> q k) \<Longrightarrow> list_all2 (settles q) xs ys"
  by (erule list_all2_mono) (rule settles_mono)

text \<open>Finding out about a close touches neither the outbox nor the ledger.\<close>

lemma at_broker_em: "keeps (\<lambda>st. ss_em st = em) (at_broker m)"
  by (auto simp: keeps_def at_broker_def split: prod.splits)

lemma fallback_due_em: "fallback_due sv tid now st = (st1, due) \<Longrightarrow> ss_em st1 = ss_em st"
  by (auto simp: fallback_due_def split: if_splits)

lemma fallback_lookup_em: "keeps (\<lambda>st. ss_em st = em) (fallback_lookup sv now t)"
  unfolding keeps_def fallback_lookup_def
  by (auto simp: at_broker_def dest: fallback_due_em split: prod.splits)

lemma resolve_close_em: "keeps (\<lambda>st. ss_em st = em) (resolve_close sv now t)"
proof -
  have "keeps (\<lambda>st. ss_em st = em) (case lk of Still_open \<Rightarrow> sret None | Resolved f r \<Rightarrow> sret (Some ((f, r), False))
       | Unusable \<Rightarrow> sbind (fallback_lookup sv now t) (\<lambda>r. sret (map_option (\<lambda>x. (x, True)) r)))" for lk
    by (cases lk) (auto intro!: keeps_intros fallback_lookup_em)
  then show ?thesis unfolding resolve_close_def
    by (intro keeps_intros at_broker_em)
qed

context close_emission
begin

lemma sweep_trade_books:
  assumes p: "fp_outbox p = sops" "fp_topic p = t" and inv: "inv (outbox_of (ss_em st))"
    and fuel: "Suc (size (kept t (outbox_of (ss_em st)))) < fuel" and op: "\<not> mt_closed tr"
  shows "\<exists>tr' st' r evs. sweep_trade led (logging p) fuel sv now tr st = Some ((tr', st'), r)
    \<and> books t (ss_em st) (ss_em st') evs \<and> length evs \<le> 1 \<and> fst ` set evs \<subseteq> {mt_id tr}
    \<and> settles (\<lambda>k. pr_seen led k (snd (ss_em st'))) (k, tr) (k, tr')"
proof -
  obtain st1 r1 where rc: "resolve_close sv now tr st = (st1, r1)" by force
  have em1: "ss_em st1 = ss_em st" using keepsD [OF resolve_close_em refl rc] .
  show ?thesis
  proof (cases "\<exists>f r via. r1 = Inr (Some ((f, r), via))")
    case False
    then have "\<exists>r. sweep_trade led (logging p) fuel sv now tr st = Some ((tr, st1), r)"
      using rc by (auto simp: sweep_trade_def split: sum.splits option.splits)
    then obtain r where "sweep_trade led (logging p) fuel sv now tr st = Some ((tr, st1), r)" by blast
    then show ?thesis using books_refl [OF inv, of t] em1
      by (intro exI [of _ tr] exI [of _ st1] exI [of _ r] exI [of _ "[]"]) simp
  next
    case True
    then obtain f r via where r1: "r1 = Inr (Some ((f, r), via))" by blast
    from emit_books [OF p inv fuel, of tr f r] obtain em' ok evs where
      e: "emit led (logging p) fuel tr f r (ss_em st) = Some (em', ok)" "books t (ss_em st) em' evs" "length evs \<le> 1"
        "ok \<longrightarrow> pr_seen led (mt_id tr) (snd em')" "fst ` set evs \<subseteq> {mt_id tr}" by blast
    have "sweep_trade led (logging p) fuel sv now tr st
        = Some ((if ok then tr\<lparr>mt_closed := True\<rparr> else tr, st1\<lparr>ss_em := em'\<rparr>), Inr (ok, via))"
      using rc r1 e(1) em1 by (simp add: sweep_trade_def)
    moreover have "settles (\<lambda>k. pr_seen led k (snd em')) (k, tr) (k, if ok then tr\<lparr>mt_closed := True\<rparr> else tr)"
      using e(4) op by (simp add: settles_def)
    ultimately show ?thesis using e(2,3,5)
      by (intro exI [of _ "if ok then tr\<lparr>mt_closed := True\<rparr> else tr"] exI [of _ "st1\<lparr>ss_em := em'\<rparr>"]
        exI [of _ "Inr (ok, via)"] exI [of _ evs]) simp
  qed
qed

lemma sweep_trades_books:
  assumes p: "fp_outbox p = sops" "fp_topic p = t"
  shows "inv (outbox_of (ss_em st)) \<Longrightarrow> Suc (size (kept t (outbox_of (ss_em st))) + length trades) < fuel \<Longrightarrow>
    \<exists>trades' st' r evs. sweep_trades led (logging p) fuel sv now ids trades st = Some ((trades', st'), r)
      \<and> books t (ss_em st) (ss_em st') evs \<and> fst ` set evs \<subseteq> open_trade_ids trades
      \<and> list_all2 (settles (\<lambda>k. pr_seen led k (snd (ss_em st')))) trades trades'"
proof (induction trades arbitrary: st)
  case Nil
  then show ?case using books_refl [of "ss_em st" t] by auto
next
  case (Cons x trades)
  obtain k tr where x: "x = (k, tr)" by (cases x)
  let ?step = "if mt_closed tr \<or> mt_id tr \<in> set ids then Some ((tr, st), Inr (False, False))
            else sweep_trade led (logging p) fuel sv now tr st"
  have "\<exists>tr' st1 r evs. ?step = Some ((tr', st1), r) \<and> books t (ss_em st) (ss_em st1) evs \<and> length evs \<le> 1
    \<and> fst ` set evs \<subseteq> open_trade_ids [x] \<and> settles (\<lambda>k. pr_seen led k (snd (ss_em st1))) (k, tr) (k, tr')"
  proof (cases "mt_closed tr \<or> mt_id tr \<in> set ids")
    case True
    then show ?thesis using books_refl [OF Cons.prems(1), of t]
      by (intro exI [of _ tr] exI [of _ st] exI [of _ "Inr (False, False)"] exI [of _ "[]"]) simp
  next
    case False
    have "Suc (size (kept t (outbox_of (ss_em st)))) < fuel" using Cons.prems(2) by simp
    from sweep_trade_books [OF p Cons.prems(1) this, of tr sv now k] False show ?thesis by (simp add: open_trade_ids_def x)
  qed
  then obtain tr' st1 r evs where s: "?step = Some ((tr', st1), r)" "books t (ss_em st) (ss_em st1) evs" "length evs \<le> 1"
    "settles (\<lambda>k. pr_seen led k (snd (ss_em st1))) (k, tr) (k, tr')" "fst ` set evs \<subseteq> open_trade_ids [x]" by blast
  have ids: "open_trade_ids (x # trades) = open_trade_ids [x] \<union> open_trade_ids trades" by (auto simp: open_trade_ids_def)
  note b1 = booksD [OF s(2)]
  show ?case
  proof (cases r)
    case (Inl e)
    then have "sweep_trades led (logging p) fuel sv now ids (x # trades) st = Some (((k, tr') # trades, st1), Inl e)"
      using s(1) x by simp
    moreover have "fst ` set evs \<subseteq> open_trade_ids (x # trades)" using s(5) ids by blast
    ultimately show ?thesis using s(2,4) x by (intro exI [of _ "(k, tr') # trades"] exI [of _ st1] exI [of _ "Inl e"] exI [of _ evs]) simp
  next
    case (Inr c)
    obtain ok via where c: "c = (ok, via)" by (cases c)
    have "Suc (size (kept t (outbox_of (ss_em st1))) + length trades) < fuel" using b1(3) s(3) Cons.prems(2) by simp
    from Cons.IH [OF b1(1) this] obtain trades' st' r' evs' where
      IH: "sweep_trades led (logging p) fuel sv now ids trades st1 = Some ((trades', st'), r')"
        "books t (ss_em st1) (ss_em st') evs'" "list_all2 (settles (\<lambda>k. pr_seen led k (snd (ss_em st')))) trades trades'" "fst ` set evs' \<subseteq> open_trade_ids trades" by blast
    have "sweep_trades led (logging p) fuel sv now ids (x # trades) st
        = Some (((k, tr') # trades', st'), emap (\<lambda>(a, b). (a + of_bool ok, b + of_bool via)) r')"
      using s(1) x Inr c IH(1) by simp
    moreover have "settles (\<lambda>k. pr_seen led k (snd (ss_em st'))) (k, tr) (k, tr')"
      using s(4) by (rule settles_mono) (simp add: booksD(6) [OF IH(2)])
    ultimately show ?thesis using books_trans [OF s(2) IH(2)] IH(3,4) s(5) ids x
      by (intro exI [of _ "(k, tr') # trades'"] exI [of _ st'] exI [of _ "emap (\<lambda>(a, b). (a + of_bool ok, b + of_bool via)) r'"]
        exI [of _ "evs @ evs'"]) auto
  qed
qed

lemma sweep_books:
  assumes p: "fp_outbox p = sops" "fp_topic p = t" and inv: "inv (outbox_of (ss_em st))"
    and fuel: "Suc (size (kept t (outbox_of (ss_em st))) + length trades) < fuel"
  shows "\<exists>trades' st' r evs. sweep led (logging p) fuel sv now trades st = Some ((trades', st'), r)
      \<and> books t (ss_em st) (ss_em st') evs \<and> fst ` set evs \<subseteq> open_trade_ids trades
      \<and> list_all2 (settles (\<lambda>k. pr_seen led k (snd (ss_em st')))) trades trades'"
proof (cases "too_soon (sv_interval sv) now (ss_last st)")
  case True
  then have "sweep led (logging p) fuel sv now trades st = Some ((trades, st), Inr [])" by (simp add: sweep_def)
  then show ?thesis using books_refl [OF inv, of t] by (intro exI [of _ trades] exI [of _ st] exI [of _ "Inr []"] exI [of _ "[]"]) simp
next
  case due: False
  obtain fp l where em: "ss_em st = (fp, l)" by (cases "ss_em st")
  have "size (kept t (outbox_of (fp, l))) < fuel" using fuel em by simp
  from flush_books [OF p inv [unfolded em] this] obtain fp' k where
    f: "emitter_flush (logging p) fuel fp = Some (fp', k)" "books t (ss_em st) (fp', l) []" unfolding em by blast
  let ?st1 = "st\<lparr>ss_last := Some now, ss_em := (fp', l)\<rparr>" and ?c = "filter (\<lambda>x. \<not> mt_closed (snd x)) trades"
  obtain st2 r2 where ids: "at_broker (read_open_ids sv) ?st1 = (st2, r2)" by force
  have em2: "ss_em st2 = (fp', l)" using keepsD [OF at_broker_em _ ids, of "(fp', l)"] by simp
  show ?thesis
  proof (cases "?c = [] \<or> (\<exists>e. r2 = Inl e)")
    case True
    then have "\<exists>st' r. sweep led (logging p) fuel sv now trades st = Some ((trades, st'), r) \<and> ss_em st' = (fp', l)"
      using due f(1) em ids em2 by (cases "?c = []") (auto simp: sweep_def Let_def)
    then obtain st' r where "sweep led (logging p) fuel sv now trades st = Some ((trades, st'), r)" "ss_em st' = (fp', l)" by blast
    then show ?thesis using f(2) by (intro exI [of _ trades] exI [of _ st'] exI [of _ r] exI [of _ "[]"]) simp
  next
    case False
    then obtain open_ids where r2: "r2 = Inr open_ids" and c: "?c \<noteq> []" by (cases r2) auto
    note b1 = booksD [OF f(2)]
    have "inv (outbox_of (ss_em st2))" using b1(1) em2 by simp
    moreover have "Suc (size (kept t (outbox_of (ss_em st2))) + length trades) < fuel" using b1(3) em2 fuel by simp
    ultimately obtain trades' st' r evs where
      s: "sweep_trades led (logging p) fuel sv now open_ids trades st2 = Some ((trades', st'), r)"
        "books t (fp', l) (ss_em st') evs" "list_all2 (settles (\<lambda>k. pr_seen led k (snd (ss_em st')))) trades trades'" "fst ` set evs \<subseteq> open_trade_ids trades"
      using sweep_trades_books [OF p, of st2 trades fuel sv now open_ids] em2 by auto
    have "sweep led (logging p) fuel sv now trades st = Some ((trades', st'), emap (sweep_counts (length ?c)) r)"
      using due f(1) em ids r2 c s(1) by (simp add: sweep_def Let_def)
    then show ?thesis using books_trans [OF f(2) s(2)] s(3,4)
      by (intro exI [of _ trades'] exI [of _ st'] exI [of _ "emap (sweep_counts (length ?c)) r"] exI [of _ evs]) simp
  qed
qed

text \<open>The repair run keeps the same books.\<close>

lemma backfill_emit_books:
  assumes p: "fp_outbox p = sops" "fp_topic p = t" and inv: "inv (outbox_of em)"
    and fuel: "Suc (size (kept t (outbox_of em))) < fuel"
  shows "\<exists>em' r evs. backfill_emit led (logging p) fuel a tr f reason c em = Some (em', r) \<and> books t em em' evs \<and> length evs \<le> 1"
proof (cases "closed_since (ba_since a) f \<and> \<not> ba_dry_run a \<and> \<not> pr_seen led (mt_id tr) (snd em)")
  case True
  from emit_books [OF p inv fuel, of tr f reason] obtain em' ok evs where
    "emit led (logging p) fuel tr f reason em = Some (em', ok)" "books t em em' evs" "length evs \<le> 1" by blast
  with True show ?thesis by (simp add: backfill_emit_def) blast
next
  case False
  then have "\<exists>r. backfill_emit led (logging p) fuel a tr f reason c em = Some (em, r)" by (auto simp: backfill_emit_def)
  then obtain r where "backfill_emit led (logging p) fuel a tr f reason c em = Some (em, r)" by blast
  then show ?thesis using books_refl [OF inv, of t] by (intro exI [of _ em] exI [of _ r] exI [of _ "[]"]) simp
qed

lemma backfill_trade_books:
  assumes p: "fp_outbox p = sops" "fp_topic p = t" and inv: "inv (outbox_of (ss_em st))"
    and fuel: "Suc (size (kept t (outbox_of (ss_em st)))) < fuel"
  shows "\<exists>st' r evs. backfill_trade led (logging p) fuel src a tr c st = Some (st', r)
    \<and> books t (ss_em st) (ss_em st') evs \<and> length evs \<le> 1"
proof -
  obtain st1 r1 where l: "at_broker (backfill_resolve src tr) st = (st1, r1)" by force
  have em1: "ss_em st1 = ss_em st" using keepsD [OF at_broker_em refl l] .
  show ?thesis
  proof (cases "\<exists>f reason. r1 = Inr (Bf_found f reason)")
    case False
    have "\<exists>r. backfill_trade led (logging p) fuel src a tr c st = Some (st1, r)"
    proof (cases r1)
      case (Inr lk)
      with False l show ?thesis by (cases lk) (auto simp: backfill_trade_def)
    qed (simp add: backfill_trade_def l)
    then obtain r where "backfill_trade led (logging p) fuel src a tr c st = Some (st1, r)" by blast
    then show ?thesis using books_refl [OF inv, of t] em1 by (intro exI [of _ st1] exI [of _ r] exI [of _ "[]"]) simp
  next
    case True
    then obtain f reason where r1: "r1 = Inr (Bf_found f reason)" by blast
    from backfill_emit_books [OF p inv fuel, of a tr f reason c] obtain em' r evs where
      e: "backfill_emit led (logging p) fuel a tr f reason c (ss_em st) = Some (em', r)" "books t (ss_em st) em' evs" "length evs \<le> 1" by blast
    have "backfill_trade led (logging p) fuel src a tr c st = Some (st1\<lparr>ss_em := em'\<rparr>, r)"
      by (simp add: backfill_trade_def l r1 em1 e(1))
    with e(2,3) show ?thesis by (intro exI [of _ "st1\<lparr>ss_em := em'\<rparr>"] exI [of _ r] exI [of _ evs]) simp
  qed
qed

lemma backfill_rows_books:
  assumes p: "fp_outbox p = sops" "fp_topic p = t"
  shows "inv (outbox_of (ss_em st)) \<Longrightarrow> Suc (size (kept t (outbox_of (ss_em st))) + length rows) < fuel \<Longrightarrow>
    \<exists>st' r evs. backfill_rows led (logging p) fuel src a rows ids c st = Some (st', r) \<and> books t (ss_em st) (ss_em st') evs"
proof (induction rows arbitrary: ids c st)
  case Nil
  then show ?case using books_refl [of "ss_em st" t] by auto
next
  case (Cons x rows)
  have fuel: "Suc (size (kept t (outbox_of (ss_em st))) + length rows) < fuel" using Cons.prems(2) by simp
  note skip = Cons.IH [OF Cons.prems(1) fuel]
  show ?case
  proof (cases "session_trade (ba_now a) x")
    case (Inl e)
    then have "backfill_rows led (logging p) fuel src a (x # rows) ids c st = Some (st, Inl e)" by simp
    then show ?thesis using books_refl [OF Cons.prems(1), of t] by blast
  next
    case (Inr o_tr)
    show ?thesis
    proof (cases o_tr)
      case None
      with Inr skip [of ids c] show ?thesis by simp
    next
      case (Some tr)
      show ?thesis
      proof (cases "mt_id tr \<in> set ids")
        case True
        with Inr Some skip [of ids c] show ?thesis by simp
      next
        case False
        have "Suc (size (kept t (outbox_of (ss_em st)))) < fuel" using fuel by simp
        from backfill_trade_books [OF p Cons.prems(1) this, of src a tr "count_scanned c"] obtain st1 r evs where
          b: "backfill_trade led (logging p) fuel src a tr (count_scanned c) st = Some (st1, r)"
            "books t (ss_em st) (ss_em st1) evs" "length evs \<le> 1" by blast
        note b1 = booksD [OF b(2)]
        show ?thesis
        proof (cases r)
          case (Inl e)
          with Inr Some False b show ?thesis by auto
        next
          case c1: (Inr c1)
          have "Suc (size (kept t (outbox_of (ss_em st1))) + length rows) < fuel" using b1(3) b(3) Cons.prems(2) by simp
          from Cons.IH [OF b1(1) this, of "mt_id tr # ids" c1] obtain st' r' evs' where
            IH: "backfill_rows led (logging p) fuel src a rows (mt_id tr # ids) c1 st1 = Some (st', r')"
              "books t (ss_em st1) (ss_em st') evs'" by blast
          with Inr Some False b c1 books_trans [OF b(2) IH(2)] show ?thesis by auto
        qed
      qed
    qed
  qed
qed

end

interpretation durable_close: close_emission local_ops "\<lambda>s. qdb_wf (snd s)" "\<lambda>t s. retained t (snd s)" on_lease sqlite_ops
  by unfold_locales

lemma local_kept [simp]: "snd (outbox_of em) = snd (fst (snd (fst em)))"
  by (simp add: outbox_of_def)

section \<open>Runs of close emission\<close>

text \<open>Everything that can emit a close, with fuel enough for the drain: a sweep, with whatever trade
  table it is given, a forced close (time exit or flatten) of some trade, a run of the backfill tool, a
  restart, which keeps the outbox and the ledger, and the broker moving on by itself.\<close>

definition enough_fuel :: "string \<Rightarrow> (backend \<times> qdb, 'w, 'l, 'b) sweep_state \<Rightarrow> nat \<Rightarrow> nat \<Rightarrow> bool" where
  "enough_fuel topic st n fuel \<longleftrightarrow> Suc (size (retained topic (snd (outbox_of (ss_em st)))) + n) < fuel"

inductive close_step :: "(backend \<times> qdb, 'w) producer \<Rightarrow> (backend \<times> qdb, 'w \<times> pyval list, processed_db, 'b) sweep_state \<Rightarrow>
    (backend \<times> qdb, 'w \<times> pyval list, processed_db, 'b) sweep_state \<Rightarrow> bool" for p where
  swept: "sweep sqlite_ops (logging p) fuel sv now trades st = Some ((trades', st'), r) \<Longrightarrow>
     enough_fuel (fp_topic p) st (length trades) fuel \<Longrightarrow> close_step p st st'"
| forced: "emit_broker_close sqlite_ops (logging p) fuel t resp reason (ss_em st) = Some (em, ok) \<Longrightarrow>
     enough_fuel (fp_topic p) st 1 fuel \<Longrightarrow> close_step p st (st\<lparr>ss_em := em\<rparr>)"
| backfilled: "backfill sqlite_ops (logging p) fuel src a outbox st = Some (st', r) \<Longrightarrow>
     enough_fuel (fp_topic p) st (length (outbox_rows outbox)) fuel \<Longrightarrow> close_step p st st'"
| restarted: "close_step p st (st\<lparr>ss_last := None, ss_fallback := []\<rparr>)"
| broker_moved: "close_step p st (st\<lparr>ss_broker := b\<rparr>)"

abbreviation close_run :: "(backend \<times> qdb, 'w) producer \<Rightarrow> (backend \<times> qdb, 'w \<times> pyval list, processed_db, 'b) sweep_state \<Rightarrow>
    (backend \<times> qdb, 'w \<times> pyval list, processed_db, 'b) sweep_state \<Rightarrow> bool" where
  "close_run p \<equiv> (close_step p)\<^sup>*\<^sup>*"

lemma close_step_books:
  assumes "close_step p st st'" "fp_outbox p = local_ops" "qdb_wf (snd (outbox_of (ss_em st)))"
  shows "\<exists>evs. durable_close.books (fp_topic p) (ss_em st) (ss_em st') evs"
  using assms(1)
proof cases
  case (swept fuel sv now trades trades' r)
  then have "Suc (size (retained (fp_topic p) (snd (outbox_of (ss_em st)))) + length trades) < fuel" by (simp add: enough_fuel_def)
  from durable_close.sweep_books [OF assms(2) refl assms(3) this, of sv now] swept(1) show ?thesis by auto
next
  case (forced fuel t resp reason em ok)
  then have fuel: "Suc (size (retained (fp_topic p) (snd (outbox_of (ss_em st))))) < fuel" by (simp add: enough_fuel_def)
  show ?thesis
  proof (cases "\<exists>f. facts_from_close_response resp = Inr (Some f)")
    case True
    with forced durable_close.emit_books [OF assms(2) refl assms(3) fuel] show ?thesis
      by (auto simp: emit_broker_close_def) (metis option.inject prod.inject)
  next
    case False
    then have "emit_broker_close sqlite_ops (logging p) fuel t resp reason (ss_em st) = Some (ss_em st, False)"
      by (auto simp: emit_broker_close_def split: sum.splits option.splits)
    with forced show ?thesis using durable_close.books_refl [OF assms(3)] by auto
  qed
next
  case (backfilled fuel src a outbox r)
  then have "Suc (size (retained (fp_topic p) (snd (outbox_of (ss_em st)))) + length (outbox_rows outbox)) < fuel"
    by (simp add: enough_fuel_def)
  from durable_close.backfill_rows_books [OF assms(2) refl assms(3) this, of src a "[]" "\<lparr>bf_scanned = 0, bf_emitted = 0, bf_skipped = 0\<rparr>"]
    backfilled(1) show ?thesis by (auto simp: backfill_def)
qed (use durable_close.books_refl [OF assms(3)] in auto)

lemma close_run_books:
  assumes "close_run p st st'" "fp_outbox p = local_ops" "qdb_wf (snd (outbox_of (ss_em st)))"
  shows "\<exists>evs. durable_close.books (fp_topic p) (ss_em st) (ss_em st') evs"
  using assms(1)
proof induction
  case base
  then show ?case using durable_close.books_refl [OF assms(3)] by blast
next
  case (step st1 st2)
  then obtain xs where xs: "durable_close.books (fp_topic p) (ss_em st) (ss_em st1) xs" by blast
  from close_step_books [OF step.hyps(2) assms(2) durable_close.booksD(1) [OF xs]] obtain ys where
    "durable_close.books (fp_topic p) (ss_em st1) (ss_em st2) ys" by blast
  with xs show ?case by (blast intro: durable_close.books_trans)
qed

text \<open>The ledger, and the close events delivered or still held by the outbox.\<close>

definition ledger_of :: "(backend \<times> qdb, 'w \<times> pyval list, processed_db, 'b) sweep_state \<Rightarrow> processed_db" where
  "ledger_of st = snd (ss_em st)"

definition reported :: "string \<Rightarrow> (backend \<times> qdb, 'w \<times> pyval list, processed_db, 'b) sweep_state \<Rightarrow> qbody multiset" where
  "reported topic st = accounted (\<lambda>t s. retained t (snd s)) topic (fst (ss_em st))"

section \<open>Properties of emission\<close>


definition wit_close_resp :: pyval where
  "wit_close_resp = VDict [(''orderFillTransaction'', VDict [(''id'', VStr ''21''), (''pl'', VInt 3), (''price'', VInt 149),
     (''units'', VInt 1000), (''time'', VStr ''2026-07-21T10:00:00Z'')])]"

lemma wit_close_facts: "facts_from_close_response wit_close_resp = Inr (Some wit_facts)"
  by (simp add: facts_from_close_response_def wit_close_resp_def wit_facts_def or_else_def float_or_zero_def
      optional_price_def optional_units_def Let_def)

definition wit_sweep_state :: "(backend \<times> qdb, unit \<times> pyval list, processed_db, unit) sweep_state" where
  "wit_sweep_state = \<lparr>ss_last = None, ss_fallback = [],
     ss_em = ((0, (build_outbox ''p0'', empty_qdb), (), []), \<lparr>pd_rows = [], pd_clock = (\<lambda>n. ''now''), pd_tick = 0\<rparr>), ss_broker = ()\<rparr>"

lemma wit_sweep_facts: "qdb_wf (snd (outbox_of (ss_em wit_sweep_state)))" "ledger_of wit_sweep_state = \<lparr>pd_rows = [], pd_clock = (\<lambda>n. ''now''), pd_tick = 0\<rparr>"
  "reported t wit_sweep_state = {#}" "enough_fuel t wit_sweep_state 1 3"
  by (simp_all add: wit_sweep_state_def qdb_wf_intros ledger_of_def reported_def accounted_def retained_def
      enough_fuel_def outbox_of_def) (simp_all add: empty_qdb_def)

lemma wit_forced:
  "\<exists>em. emit_broker_close sqlite_ops (logging wit_producer) 3 wit_trade wit_close_resp ''expiry'' (ss_em wit_sweep_state) = Some (em, True)
    \<and> (\<forall>k. sqlite_seen k (snd em) \<longleftrightarrow> k = ''11'')"
proof -
  let ?em = "ss_em wit_sweep_state" and ?e = "emit sqlite_ops (logging wit_producer) 3 wit_trade wit_facts ''expiry'' (ss_em wit_sweep_state)"
  have f: "fp_outbox wit_producer = local_ops" by (simp add: wit_producer_def)
  have fuel: "Suc (size (retained (fp_topic wit_producer) (snd (outbox_of ?em)))) < 3"
    using wit_sweep_facts(4) [of "fp_topic wit_producer"] by (simp add: enough_fuel_def)
  from durable_close.emit_books [OF f refl wit_sweep_facts(1) fuel, of wit_trade wit_facts "''expiry''"]
  obtain em ok where e: "?e = Some (em, ok)" by blast
  have id: "mt_id wit_trade = ''11''" by (simp add: wit_trade_def)
  have new: "\<not> sqlite_seen ''11'' (snd ?em)" by (simp add: wit_sweep_state_def sqlite_seen_def)
  have "snd em = sqlite_mark ''11'' (snd ?em) \<and> ok"
    using e new wit_event by (auto simp: emit_def sqlite_ops_def id Let_def split: prod.splits sum.splits)
  then show ?thesis
    using e wit_close_facts by (auto simp: emit_broker_close_def wit_sweep_state_def sqlite_mark_def sqlite_seen_def)
qed


text \<open>C17: A sweep returns and closes only what is recorded. With one unit of fuel per retained message
  and managed trade and two more, a sweep ends; every entry of the trade table is as it was, except
  that an open trade may have become closed, and then the ledger has its id, so a failed emission
  leaves the trade open for the next sweep.\<close>

theorem sweep_closes_only_recorded:
  assumes "fp_outbox p = local_ops" "qdb_wf (snd (outbox_of (ss_em st)))"
    and "enough_fuel (fp_topic p) st (length trades) fuel"
  shows "\<exists>trades' st' r. sweep sqlite_ops (logging p) fuel sv now trades st = Some ((trades', st'), r)
    \<and> list_all2 (settles (\<lambda>tid. sqlite_seen tid (ledger_of st'))) trades trades'"
  using durable_close.sweep_books [OF assms(1) refl assms(2), of trades fuel sv now] assms(3)
  by (auto simp: enough_fuel_def ledger_of_def sqlite_ops_def)

definition wit_sweeper :: "unit sweeper" where
  "wit_sweeper = \<lparr>sv_source = wit_stream, sv_interval = Fin 30, sv_fallback_interval = Fin 300\<rparr>"

theorem sweep_closes_only_recorded_witness:
  "\<exists>trades' st' r. sweep sqlite_ops (logging wit_producer) 3 wit_sweeper 0 [(''11'', wit_trade)] wit_sweep_state = Some ((trades', st'), r)
    \<and> list_all2 (settles (\<lambda>tid. sqlite_seen tid (ledger_of st'))) [(''11'', wit_trade)] trades'"
  by (rule sweep_closes_only_recorded) (simp_all add: wit_sweep_facts [simplified] wit_producer_def)

text \<open>A forced close that cannot be reported is never reported. A time exit marks its trade closed
  before the close event is emitted, and when the broker's response to the close is unusable or
  carries no fill nothing is emitted; but a sweep passes over closed trades, so no later sweep of a
  table that has the trade closed enters its id in the ledger: the promise to retry on the next
  sweep does not hold for these closes.\<close>

theorem unreported_forced_close_is_lost:
  assumes "\<not> (\<exists>f. facts_from_close_response resp = Inr (Some f))"
    and "bo_close ops (mt_id t) b = (b1, Inr resp)"
    and "fp_outbox p = local_ops" "qdb_wf (snd (outbox_of (ss_em st)))" "\<not> sqlite_seen (mt_id t) (ledger_of st)"
    and "\<forall>x \<in> set trades. mt_id (snd x) = mt_id t \<longrightarrow> mt_closed (snd x)"
    and "enough_fuel (fp_topic p) st (length trades) fuel"
  shows "mt_closed (fst (fst (close_managed ops reason (t, b))))
    \<and> emit_broker_close sqlite_ops (logging p) fuel t resp reason (ss_em st) = Some (ss_em st, False)
    \<and> (\<exists>trades' st' r. sweep sqlite_ops (logging p) fuel sv now trades st = Some ((trades', st'), r)
        \<and> \<not> sqlite_seen (mt_id t) (ledger_of st'))"
proof (intro conjI)
  show "mt_closed (fst (fst (close_managed ops reason (t, b))))"
    using assms(2) by (simp add: close_managed_def Let_def split: option.splits prod.splits)
  show "emit_broker_close sqlite_ops (logging p) fuel t resp reason (ss_em st) = Some (ss_em st, False)"
    using assms(1) by (auto simp: emit_broker_close_def split: sum.splits option.splits)
  have "Suc (size (retained (fp_topic p) (snd (outbox_of (ss_em st)))) + length trades) < fuel"
    using assms(7) by (simp add: enough_fuel_def)
  from durable_close.sweep_books [OF assms(3) refl assms(4) this, of sv now] obtain trades' st' r evs where
    s: "sweep sqlite_ops (logging p) fuel sv now trades st = Some ((trades', st'), r)"
      "durable_close.books (fp_topic p) (ss_em st) (ss_em st') evs" "fst ` set evs \<subseteq> open_trade_ids trades" by blast
  have "mt_id t \<notin> fst ` set evs" using s(3) assms(6) by (fastforce simp: open_trade_ids_def)
  then have "\<not> sqlite_seen (mt_id t) (ledger_of st')"
    using durable_close.booksD(6) [OF s(2), of "mt_id t"] assms(5) by (simp add: ledger_of_def sqlite_ops_def)
  with s(1) show "\<exists>trades' st' r. sweep sqlite_ops (logging p) fuel sv now trades st = Some ((trades', st'), r)
        \<and> \<not> sqlite_seen (mt_id t) (ledger_of st')" by blast
qed

definition wit_manager :: "unit manager_ops" where
  "wit_manager = \<lparr>bo_modify = (\<lambda>_ _ _ b. (b, Inr VNone)), bo_close = (\<lambda>_ b. (b, Inr (VDict []))), bo_emit = None, bo_clock = (\<lambda>_. 0)\<rparr>"

theorem unreported_forced_close_is_lost_witness:
  "\<exists>trades' st' r. sweep sqlite_ops (logging wit_producer) 3 wit_sweeper 0 [(''11'', wit_trade\<lparr>mt_closed := True\<rparr>)] wit_sweep_state = Some ((trades', st'), r)
    \<and> \<not> sqlite_seen ''11'' (ledger_of st')"
proof -
  have r: "\<not> (\<exists>f. facts_from_close_response (VDict []) = Inr (Some f))"
    by (simp add: facts_from_close_response_def or_else_def Let_def)
  have c: "bo_close wit_manager (mt_id wit_trade) () = ((), Inr (VDict []))" by (simp add: wit_manager_def)
  have "\<exists>trades' st' r. sweep sqlite_ops (logging wit_producer) 3 wit_sweeper 0 [(''11'', wit_trade\<lparr>mt_closed := True\<rparr>)] wit_sweep_state = Some ((trades', st'), r)
    \<and> \<not> sqlite_seen (mt_id wit_trade) (ledger_of st')"
    by (rule conjunct2 [OF conjunct2 [OF unreported_forced_close_is_lost [OF r c]]])
      (simp_all add: wit_sweep_facts [simplified] wit_producer_def sqlite_seen_def)
  then show ?thesis by (simp add: wit_trade_def)
qed

end
