(* ===== verification/Model_Sync.thy ===== *)
theory Model_Sync
  imports Queue_Backend
begin

text \<open>
  \<open>artifact_sync/downloader.py\<close>: the manifest, the publisher's withdrawal, and the downloader that
  polls, verifies and swaps the active model set.

  The directory tree under the artifact root is a record: the sets and the staging area, each a
  directory of named files per model set, the targets of the two symlinks, and \<open>state.json\<close>, which
  is absent, a JSON document or unreadable text. Names are the plain file and directory names the
  publisher uses. Local file operations do not fail; the remote storage is a pair of functions on a
  world \<open>'w\<close> that may raise, and file contents are an abstract type with the digest of a content.
\<close>

section \<open>Manifests\<close>

record artifact =
  af_name :: pyval
  af_path :: pyval
  af_sha :: pyval
  af_bytes :: int

definition artifact_from :: "pyval \<Rightarrow> artifact res" where
  "artifact_from v = ebind (vindex v ''name'') (\<lambda>name. ebind (vindex v ''path'') (\<lambda>path.
     ebind (vindex v ''sha256'') (\<lambda>sha. ebind (vget_or v ''bytes'' (VInt 0)) (\<lambda>b.
     emap (\<lambda>n. \<lparr>af_name = name, af_path = path, af_sha = sha, af_bytes = n\<rparr>) (py_int b)))))"

record manifest =
  mf_schema :: int
  mf_id :: string
  mf_published :: string
  mf_artifacts :: "artifact list"

definition json_loads :: "qbody \<Rightarrow> pyval res" where
  "json_loads text = (case text of JsonBody v \<Rightarrow> Inr v | RawBody s \<Rightarrow> Inl ValueError)"

definition parse_manifest :: "qbody \<Rightarrow> manifest res" where
  "parse_manifest text = ebind (json_loads text) (\<lambda>d.
     ebind (ebind (ebind (vindex d ''artifacts'') py_iter) (emapM artifact_from)) (\<lambda>artifacts.
     if artifacts = [] then Inl ValueError else
     ebind (ebind (vindex d ''schema_version'') py_int) (\<lambda>schema.
     ebind (vindex d ''model_set_id'') (\<lambda>sid.
     ebind (vget_or d ''published_at'' (VStr [])) (\<lambda>published.
       Inr \<lparr>mf_schema = schema, mf_id = py_str sid, mf_published = py_str published, mf_artifacts = artifacts\<rparr>)))))"

record withdrawal =
  wd_reason :: string
  wd_at :: string
  wd_supersedes :: "string option"

text \<open>Only an explicit status that is not a live one withdraws; text that is not JSON, a value that is
  not an object and a missing status do not.\<close>

definition withdrawal_status :: "pydict \<Rightarrow> string" where
  "withdrawal_status d = lower (strip (py_str (or_else (dget_or d ''status'' (VStr [])) (VStr []))))"

definition parse_withdrawal :: "string \<Rightarrow> qbody \<Rightarrow> withdrawal option" where
  "parse_withdrawal now text = (case text of
      JsonBody (VDict d) \<Rightarrow> (let status = withdrawal_status d in
        if status = [] \<or> status = ''published'' \<or> status = ''active'' then None
        else Some \<lparr>wd_reason = py_str (or_else (dget_or d ''reason'' (VStr [])) (VStr (''model set '' @ status @ '' by the publisher''))),
          wd_at = py_str (or_else (dget_or d ''withdrawn_at'' (VStr [])) (VStr now)),
          wd_supersedes = (if truthy (dget d ''supersedes'') then Some (py_str (dget d ''supersedes'')) else None)\<rparr>)
    | _ \<Rightarrow> None)"

section \<open>The artifact root\<close>

type_synonym 'c dir = "(string \<times> 'c) list"

record 'c model_fs =
  fs_sets :: "(string \<times> 'c dir) list"
  fs_staging :: "(string \<times> 'c dir) list"
  fs_active :: "string option"
  fs_last_good :: "string option"
  fs_state :: "qbody option"

text \<open>The storage, the digest, the key of the manifest and the class name of an exception.\<close>

record ('w, 'c) downloader =
  dl_text :: "string \<Rightarrow> ('w, qbody) act"
  dl_download :: "pyval \<Rightarrow> ('w, 'c) act"
  dl_sha :: "'c \<Rightarrow> string"
  dl_key :: string
  dl_exn_name :: "pyexn \<Rightarrow> string"

abbreviation ChecksumMismatch :: pyexn where
  "ChecksumMismatch \<equiv> OtherException ''ChecksumMismatch''"

definition read_state :: "'c model_fs \<Rightarrow> pyval" where
  "read_state fs = (case fs_state fs of Some (JsonBody v) \<Rightarrow> v | _ \<Rightarrow> VDict [])"

definition write_state :: "pyval \<Rightarrow> 'c model_fs \<Rightarrow> 'c model_fs" where
  "write_state v fs = fs\<lparr>fs_state := Some (JsonBody v)\<rparr>"

definition active_model_set_id :: "'c model_fs \<Rightarrow> pyval res" where
  "active_model_set_id fs = vget (read_state fs) ''active_model_set_id''"

text \<open>Several assignments into the state, then the write; a state that is not an object raises before
  anything is written.\<close>

fun vset_all :: "(string \<times> pyval) list \<Rightarrow> pyval \<Rightarrow> pyval res" where
  "vset_all [] v = Inr v"
| "vset_all ((k, x) # kvs) v = ebind (vset v k x) (vset_all kvs)"

definition update_state :: "(string \<times> pyval) list \<Rightarrow> 'c model_fs \<Rightarrow> 'c model_fs \<times> unit res" where
  "update_state kvs fs = (case vset_all kvs (read_state fs) of
      Inl e \<Rightarrow> (fs, Inl e) | Inr v \<Rightarrow> (write_state v fs, Inr ()))"

definition dir_of :: "string \<Rightarrow> (string \<times> 'c dir) list \<Rightarrow> 'c dir" where
  "dir_of sid dirs = (case map_of dirs sid of None \<Rightarrow> [] | Some d \<Rightarrow> d)"

section \<open>Download and verify\<close>

text \<open>Outcome of reading the manifest: a withdrawal is raised before the parse.\<close>

definition fetch_manifest :: "('w, 'c) downloader \<Rightarrow> string \<Rightarrow> ('w, withdrawal + manifest) act" where
  "fetch_manifest dl now = sbind (dl_text dl (dl_key dl)) (\<lambda>text. case parse_withdrawal now text of
      Some w \<Rightarrow> sret (Inl w)
    | None \<Rightarrow> slift (emap Inr (parse_manifest text)))"

fun download_all :: "('w, 'c) downloader \<Rightarrow> string \<Rightarrow> artifact list \<Rightarrow> ('w \<times> 'c model_fs, unit) act" where
  "download_all dl sid [] s = (s, Inr ())"
| "download_all dl sid (a # as) (w, fs) = (case af_name a of
      VStr name \<Rightarrow> (case dl_download dl (af_path a) w of
          (w1, Inl e) \<Rightarrow> ((w1, fs), Inl e)
        | (w1, Inr c) \<Rightarrow>
            (let fs1 = fs\<lparr>fs_staging := AList.update sid (AList.update name c (dir_of sid (fs_staging fs))) (fs_staging fs)\<rparr> in
             if VStr (dl_sha dl c) \<noteq> af_sha a then ((w1, fs1), Inl ChecksumMismatch)
             else download_all dl sid as (w1, fs1)))
    | _ \<Rightarrow> ((w, fs), Inl TypeError))"

definition download_and_verify :: "('w, 'c) downloader \<Rightarrow> manifest \<Rightarrow> ('w \<times> 'c model_fs, unit) act" where
  "download_and_verify dl mf s = download_all dl (mf_id mf) (mf_artifacts mf)
     (fst s, (snd s)\<lparr>fs_staging := AList.update (mf_id mf) [] (fs_staging (snd s))\<rparr>)"

section \<open>Promotion\<close>

text \<open>The file-system steps of \<open>_promote\<close>, each atomic on its own; a symlink is replaced by a rename.\<close>

definition remove_set :: "string \<Rightarrow> 'c model_fs \<Rightarrow> 'c model_fs" where
  "remove_set sid fs = fs\<lparr>fs_sets := AList.delete sid (fs_sets fs)\<rparr>"

definition move_set :: "string \<Rightarrow> 'c model_fs \<Rightarrow> 'c model_fs" where
  "move_set sid fs = fs\<lparr>fs_sets := AList.update sid (dir_of sid (fs_staging fs)) (fs_sets fs),
     fs_staging := AList.delete sid (fs_staging fs)\<rparr>"

definition link_last_good :: "string \<Rightarrow> 'c model_fs \<Rightarrow> 'c model_fs" where
  "link_last_good sid fs = fs\<lparr>fs_last_good := Some sid\<rparr>"

definition link_active :: "string \<Rightarrow> 'c model_fs \<Rightarrow> 'c model_fs" where
  "link_active sid fs = fs\<lparr>fs_active := Some sid\<rparr>"

definition promoted_state :: "manifest \<Rightarrow> pyval \<Rightarrow> string \<Rightarrow> string \<Rightarrow> pyval" where
  "promoted_state mf prev polled swapped = VDict [(''active_model_set_id'', VStr (mf_id mf)), (''previous_model_set_id'', prev),
     (''published_at'', VStr (mf_published mf)), (''last_poll_at'', VStr polled), (''last_swapped_at'', VStr swapped),
     (''withdrawn'', VBool False)]"

text \<open>The steps after the previous active id has been read. A previous id that is not a string has no
  path.\<close>

definition switch_steps :: "manifest \<Rightarrow> pyval \<Rightarrow> string \<Rightarrow> string \<Rightarrow> ('c model_fs \<Rightarrow> 'c model_fs) list res" where
  "switch_steps mf prev polled swapped =
     (let finish = [link_active (mf_id mf), write_state (promoted_state mf prev polled swapped)] in
      if truthy prev \<and> prev \<noteq> VStr (mf_id mf)
      then (case prev of VStr p \<Rightarrow> Inr (link_last_good p # finish) | _ \<Rightarrow> Inl TypeError)
      else Inr finish)"

definition install_steps :: "manifest \<Rightarrow> ('c model_fs \<Rightarrow> 'c model_fs) list" where
  "install_steps mf = [remove_set (mf_id mf), move_set (mf_id mf)]"

definition run_steps :: "('c model_fs \<Rightarrow> 'c model_fs) list \<Rightarrow> 'c model_fs \<Rightarrow> 'c model_fs" where
  "run_steps steps fs = fold (\<lambda>f. f) steps fs"

definition promote :: "(nat \<Rightarrow> string) \<Rightarrow> manifest \<Rightarrow> 'c model_fs \<Rightarrow> 'c model_fs \<times> unit res" where
  "promote now mf fs = (let fs1 = run_steps (install_steps mf) fs in
     case ebind (active_model_set_id fs1) (\<lambda>prev. switch_steps mf prev (now 2) (now 3)) of
       Inl e \<Rightarrow> (fs1, Inl e)
     | Inr steps \<Rightarrow> (run_steps steps fs1, Inr ()))"

section \<open>Polling and rollback\<close>

text \<open>\<open>now 0\<close>, \<open>now 1\<close>, \<dots> are the readings of the clock during the call.\<close>

definition record_withdrawal :: "(nat \<Rightarrow> string) \<Rightarrow> withdrawal \<Rightarrow> 'c model_fs \<Rightarrow> 'c model_fs \<times> unit res" where
  "record_withdrawal now w fs = (case read_state fs of
      VDict d \<Rightarrow> update_state [(''last_poll_at'', VStr (now 1)), (''last_poll_error'', VNone), (''withdrawn'', VBool True),
        (''withdrawn_at'', VStr (wd_at w)), (''withdrawn_reason'', VStr (wd_reason w)),
        (''withdrawn_model_set_id'', dget d ''active_model_set_id'')] fs
    | _ \<Rightarrow> (fs, Inl TypeError))"

definition discard_staging :: "string \<Rightarrow> 'c model_fs \<Rightarrow> 'c model_fs" where
  "discard_staging sid fs = fs\<lparr>fs_staging := AList.delete sid (fs_staging fs)\<rparr>"

text \<open>A manifest that names a set other than the active one.\<close>

definition activate :: "('w, 'c) downloader \<Rightarrow> (nat \<Rightarrow> string) \<Rightarrow> manifest \<Rightarrow> ('w \<times> 'c model_fs, bool) act" where
  "activate dl now mf s = (case download_and_verify dl mf s of
      ((w, fs), Inl e) \<Rightarrow> ((w, discard_staging (mf_id mf) fs), Inr False)
    | ((w, fs), Inr u) \<Rightarrow> (case promote now mf fs of
          (fs1, Inl e) \<Rightarrow> ((w, fs1), Inl e)
        | (fs1, Inr u) \<Rightarrow> ((w, fs1), Inr True)))"

definition on_manifest :: "('w, 'c) downloader \<Rightarrow> (nat \<Rightarrow> string) \<Rightarrow> manifest \<Rightarrow> ('w \<times> 'c model_fs, bool) act" where
  "on_manifest dl now mf s = (case active_model_set_id (snd s) of
      Inl e \<Rightarrow> (s, Inl e)
    | Inr cur \<Rightarrow> if VStr (mf_id mf) = cur
        then (case update_state [(''last_poll_at'', VStr (now 1))] (snd s) of (fs, r) \<Rightarrow> ((fst s, fs), emap (\<lambda>_. False) r))
        else activate dl now mf s)"

definition poll_once :: "('w, 'c) downloader \<Rightarrow> (nat \<Rightarrow> string) \<Rightarrow> ('w \<times> 'c model_fs, bool) act" where
  "poll_once dl now s = (case fetch_manifest dl (now 0) (fst s) of
      (w, Inr (Inl wd)) \<Rightarrow> (case record_withdrawal now wd (snd s) of (fs, r) \<Rightarrow> ((w, fs), emap (\<lambda>_. False) r))
    | (w, Inl e) \<Rightarrow> (case update_state [(''last_poll_at'', VStr (now 1)), (''last_poll_error'', VStr (dl_exn_name dl e))] (snd s) of
          (fs, r) \<Rightarrow> ((w, fs), emap (\<lambda>_. False) r))
    | (w, Inr (Inr mf)) \<Rightarrow> on_manifest dl now mf (w, snd s))"

text \<open>A symlink exists when its target does.\<close>

definition link_exists :: "string option \<Rightarrow> 'c model_fs \<Rightarrow> bool" where
  "link_exists l fs = (case l of None \<Rightarrow> False | Some sid \<Rightarrow> sid \<in> set (map fst (fs_sets fs)))"

definition rollback_to_last_good :: "string \<Rightarrow> 'c model_fs \<Rightarrow> 'c model_fs \<times> bool res" where
  "rollback_to_last_good now fs = (case fs_last_good fs of
      None \<Rightarrow> (fs, Inr False)
    | Some target \<Rightarrow> if \<not> link_exists (Some target) fs then (fs, Inr False)
        else (case update_state [(''active_model_set_id'', VStr target), (''last_rolled_back_at'', VStr now)] (link_active target fs) of
            (fs1, r) \<Rightarrow> (fs1, emap (\<lambda>_. True) r)))"

end
