(* ===== verification/Live_Regime.thy ===== *)
theory Live_Regime
  imports Model_Sync Secrets_Config "HOL-Library.Char_ord" "HOL-Library.List_Lexorder" "HOL-Library.Product_Lexorder"
begin

text \<open>
  \<open>artifact_sync/regime_mapping.py\<close>, \<open>live_regime.py\<close> and \<open>regime_scheduler.py\<close>: state probabilities
  to labels, the debouncer, the bundle cache over the artifact root that the downloader maintains,
  one detection and the scheduler's sweep.

  A bundle is what the code looks at of the unpickled object. Unpickling, the candle source, the
  feature matrix (pandas) and the model's posterior (the fitted model) are parameters that may raise.
\<close>

section \<open>States and labels\<close>

definition SEMANTIC_ORDER :: "string list" where
  "SEMANTIC_ORDER = [''Trending-Up'', ''Trending-Down'', ''Ranging'', ''High-Vol'']"

definition fl_sum :: "pyfloat list \<Rightarrow> pyfloat" where
  "fl_sum xs = foldl fl_add (Fin 0) xs"

text \<open>One row of posteriors; a label's probability is the sum over the states that carry it.\<close>

definition order_probabilities :: "pyfloat list \<Rightarrow> (int \<times> string) list \<Rightarrow> pyfloat list res" where
  "order_probabilities row mapping =
     (if list_ex (\<lambda>(s, l). \<not> (0 \<le> s \<and> s < int (length row))) mapping then Inl ValueError
      else Inr (map (\<lambda>label. fl_sum (map (\<lambda>(s, l). row ! nat s) (filter (\<lambda>(s, l). l = label) mapping))) SEMANTIC_ORDER))"

text \<open>\<open>numpy.argmax\<close>: the first maximum, and the first NaN when there is one.\<close>

fun argmax_from :: "nat \<Rightarrow> pyfloat \<Rightarrow> nat \<Rightarrow> pyfloat list \<Rightarrow> nat" where
  "argmax_from bi best i [] = bi"
| "argmax_from bi best i (x # xs) = (if best \<noteq> NaN \<and> (x = NaN \<or> fl_less best x) then argmax_from i x (Suc i) xs
     else argmax_from bi best (Suc i) xs)"

definition argmax :: "pyfloat list \<Rightarrow> nat res" where
  "argmax xs = (case xs of [] \<Rightarrow> Inl ValueError | x # r \<Rightarrow> Inr (argmax_from 0 x 1 r))"

text \<open>\<open>map_states_to_labels\<close> on the rows of the component means. Python's \<open>max\<close> and \<open>min\<close> keep the
  first of equal keys; the result is a dict display, in which a later entry for the same state wins.\<close>

definition column :: "nat \<Rightarrow> pyfloat list list \<Rightarrow> pyfloat list res" where
  "column i rows = (if list_ex (\<lambda>r. length r \<le> i) rows then Inl IndexError else Inr (map (\<lambda>r. r ! i) rows))"

definition name_index :: "string list \<Rightarrow> string \<Rightarrow> nat res" where
  "name_index names n = (if n \<in> set names then Inr (length (takeWhile (\<lambda>x. x \<noteq> n) names)) else Inl ValueError)"

definition best_by :: "(pyfloat \<Rightarrow> pyfloat \<Rightarrow> bool) \<Rightarrow> (nat \<times> pyfloat) list \<Rightarrow> nat res" where
  "best_by better scores = (case scores of [] \<Rightarrow> Inl ValueError
     | s # ss \<Rightarrow> Inr (fst (foldl (\<lambda>b x. if better (snd x) (snd b) then x else b) s ss)))"

definition map_states_to_labels :: "pyfloat list list \<Rightarrow> string list \<Rightarrow> string \<Rightarrow> (nat \<times> string) list res" where
  "map_states_to_labels means names direction =
     ebind (name_index names ''volatility_20'') (\<lambda>vi. ebind (name_index names ''atr_14'') (\<lambda>ai.
     ebind (name_index names direction) (\<lambda>ri. ebind (column vi means) (\<lambda>vol. ebind (column ai means) (\<lambda>atr.
     ebind (argmax (map2 fl_add vol atr)) (\<lambda>high. ebind (column ri means) (\<lambda>ret.
       let remaining = filter (\<lambda>i. i \<noteq> high) [0..<length means]; scores = map (\<lambda>i. (i, ret ! i)) remaining in
       ebind (best_by (\<lambda>x b. fl_less b x) scores) (\<lambda>up. ebind (best_by fl_less scores) (\<lambda>down.
       case filter (\<lambda>i. i \<noteq> up \<and> i \<noteq> down) remaining of
         [] \<Rightarrow> Inl IndexError
       | ranging # rest \<Rightarrow> Inr (AList.update ranging ''Ranging'' (AList.update down ''Trending-Down''
           (AList.update up ''Trending-Up'' [(high, ''High-Vol'')]))))))))))))"

text \<open>\<open>persistence_smooth\<close>: the segments in turn, each short one after the first taking the label before
  it; then a short first segment takes the label after it.\<close>

definition run_length :: "string list \<Rightarrow> nat" where
  "run_length xs = length (takeWhile (\<lambda>x. x = hd xs) xs)"

function smooth_segments :: "nat \<Rightarrow> string option \<Rightarrow> string list \<Rightarrow> string list" where
  "smooth_segments min_bars prev xs = (if xs = [] then []
     else let n = run_length xs; l = (case prev of Some p \<Rightarrow> if n < min_bars then p else hd xs | None \<Rightarrow> hd xs)
       in replicate n l @ smooth_segments min_bars (Some l) (drop n xs))"
  by pat_completeness auto
termination
proof (relation "measure (\<lambda>(m, p, xs). length xs)")
  fix min_bars :: nat and prev :: "string option" and xs :: "string list" and n l
  assume "xs \<noteq> []" "n = run_length xs"
  then have "0 < n" by (cases xs) (simp_all add: run_length_def)
  with \<open>xs \<noteq> []\<close> show "((min_bars, Some l, drop n xs), (min_bars, prev, xs)) \<in> measure (\<lambda>(m, p, xs). length xs)"
    by simp
qed simp

declare smooth_segments.simps [simp del]

definition persistence_smooth :: "string list \<Rightarrow> nat \<Rightarrow> string list" where
  "persistence_smooth labels min_bars = (let s = smooth_segments min_bars None labels; k = run_length s in
     if s \<noteq> [] \<and> k < min_bars \<and> k < length s then replicate k (s ! k) @ drop k s else s)"

section \<open>The debouncer\<close>

record debouncer =
  dn_window :: int
  dn_high :: pyfloat
  dn_published :: "string option"
  dn_candidate :: "string option"
  dn_count :: int

definition new_debouncer :: "int \<Rightarrow> pyfloat \<Rightarrow> debouncer" where
  "new_debouncer window high = \<lparr>dn_window = window, dn_high = high, dn_published = None, dn_candidate = None, dn_count = 0\<rparr>"

definition publish_label :: "string \<Rightarrow> debouncer \<Rightarrow> debouncer" where
  "publish_label label d = d\<lparr>dn_published := Some label, dn_candidate := None, dn_count := 0\<rparr>"

definition debounce :: "string \<Rightarrow> pyfloat \<Rightarrow> debouncer \<Rightarrow> debouncer" where
  "debounce label prob d =
     (if dn_published d = None \<or> dn_published d = Some label then publish_label label d
      else let d1 = (if dn_candidate d = Some label then d\<lparr>dn_count := dn_count d + 1\<rparr>
                     else d\<lparr>dn_candidate := Some label, dn_count := 1\<rparr>)
        in if dn_window d1 \<le> dn_count d1 \<or> fl_le (dn_high d1) prob then publish_label label d1 else d1)"

section \<open>The bundle\<close>

record 'm model_obj =
  mo_model :: 'm
  mo_weights :: "pyfloat list option"
  mo_mapping :: "(int \<times> string) list"

record 'm regime_bundle =
  bn_models :: "(string \<times> 'm model_obj) list option"
  bn_features :: "string list option"
  bn_direction :: "string option"
  bn_weights :: "(string \<times> pyfloat) list option"

definition ARTIFACT_CANDIDATES :: "string list" where
  "ARTIFACT_CANDIDATES = [''regime_hmm.pkl'', ''hmm_model.joblib'']"

definition produced_feature_names :: "string \<Rightarrow> string set" where
  "produced_feature_names direction = {''returns_1'', ''atr_14'', ''atr_pct_14'', ''adx_14'', ''volatility_20'', direction}"

text \<open>The detector's settings from the configuration.\<close>

definition detector_settings :: "secrets \<Rightarrow> (int \<times> int \<times> pyfloat) res" where
  "detector_settings secrets = emap (\<lambda>h. (sec_int secrets ''REGIME_CANDLE_LOOKBACK'' 120, sec_int secrets ''PERSISTENCE_WINDOW'' 3, h))
     (float_of_str (sec_get_nonempty secrets ''REGIME_HIGH_CONF'' ''0.90''))"

text \<open>The contract check of a freshly loaded bundle.\<close>

definition check_bundle :: "'m regime_bundle \<Rightarrow> unit res" where
  "check_bundle b = (case (bn_models b, bn_features b) of
      (Some ms, Some wanted) \<Rightarrow> if list_all (\<lambda>f. f \<in> produced_feature_names
            (case bn_direction b of None \<Rightarrow> ''trend_20'' | Some x \<Rightarrow> x)) wanted then Inr () else Inl ValueError
    | _ \<Rightarrow> Inl ValueError)"

text \<open>Weights by name, which must agree with the positional copy when there is one.\<close>

definition weights_for :: "'m regime_bundle \<Rightarrow> 'm model_obj \<Rightarrow> pyfloat list res" where
  "weights_for b mo = (let names = (case bn_features b of None \<Rightarrow> [] | Some ns \<Rightarrow> ns) in
     case bn_weights b of
       Some named \<Rightarrow> (case those (map (map_of named) names) of
           None \<Rightarrow> Inl ValueError
         | Some w \<Rightarrow> (case mo_weights mo of
               None \<Rightarrow> Inr w
             | Some pos \<Rightarrow> if length pos = length w \<and> list_all2 fl_eq pos w then Inr w else Inl ValueError))
     | None \<Rightarrow> (case mo_weights mo of
           None \<Rightarrow> Inl ValueError
         | Some pos \<Rightarrow> if length pos = length names then Inr pos else Inl ValueError))"

section \<open>Loading\<close>

record regime_obs =
  ro_gran :: string
  ro_as_of :: "string option"
  ro_state :: "nat option"
  ro_probs :: "pyfloat list"
  ro_label :: "string option"
  ro_conf :: pyfloat
  ro_window :: int
  ro_set :: "string option"
  ro_source :: string
  ro_stale :: bool
  ro_note :: "string option"

record ('c, 'm, 'w, 'k, 'x) regime_env =
  re_load :: "'c \<Rightarrow> 'm regime_bundle res"
  re_fetch :: "string \<Rightarrow> string \<Rightarrow> int \<Rightarrow> ('w, 'k) act"
  re_matrix :: "'m regime_bundle \<Rightarrow> 'k \<Rightarrow> ('x \<times> string) option res"
  re_posterior :: "'m model_obj \<Rightarrow> pyfloat list \<Rightarrow> 'x \<Rightarrow> pyfloat list res"
  re_lookback :: int
  re_window :: int
  re_high :: pyfloat
  re_exn_name :: "pyexn \<Rightarrow> string"

record 'm detector =
  dt_bundle :: "'m regime_bundle option"
  dt_source :: "string option"
  dt_set :: "string option"
  dt_seen :: "string option"
  dt_debouncers :: "((string \<times> string) \<times> debouncer) list"
  dt_last :: "((string \<times> string) \<times> regime_obs) list"

definition find_artifact :: "string option \<Rightarrow> 'c model_fs \<Rightarrow> 'c option" where
  "find_artifact link fs = (case link of None \<Rightarrow> None | Some sid \<Rightarrow>
     (case map_of (fs_sets fs) sid of None \<Rightarrow> None
      | Some d \<Rightarrow> map_option (\<lambda>n. the (map_of d n)) (List.find (\<lambda>n. map_of d n \<noteq> None) ARTIFACT_CANDIDATES)))"

text \<open>Absent or unreadable state is no withdrawal; a state that is not an object has no \<open>get\<close>.\<close>

definition withdrawal_of :: "'c model_fs \<Rightarrow> bool res" where
  "withdrawal_of fs = (case fs_state fs of
      Some (JsonBody v) \<Rightarrow> emap (\<lambda>x. x = VBool True) (vget v ''withdrawn'')
    | _ \<Rightarrow> Inr False)"

definition on_disk_set_id :: "'c model_fs \<Rightarrow> string option" where
  "on_disk_set_id fs = (if link_exists (fs_active fs) fs then fs_active fs
     else if link_exists (fs_last_good fs) fs then fs_last_good fs else None)"

text \<open>One of the two sources; a failure of any kind moves on to the next.\<close>

definition try_source :: "('c \<Rightarrow> 'm regime_bundle res) \<Rightarrow> string \<Rightarrow> string option \<Rightarrow> 'c model_fs \<Rightarrow> 'm detector \<Rightarrow> 'm detector option" where
  "try_source load source link fs dt = (case find_artifact link fs of
      None \<Rightarrow> None
    | Some c \<Rightarrow> (case ebind (load c) (\<lambda>b. emap (\<lambda>_. b) (check_bundle b)) of
          Inl e \<Rightarrow> None
        | Inr b \<Rightarrow> Some (dt\<lparr>dt_bundle := Some b, dt_source := Some source, dt_set := link\<rparr>)))"

definition load_sources :: "('c \<Rightarrow> 'm regime_bundle res) \<Rightarrow> 'c model_fs \<Rightarrow> 'm detector \<Rightarrow> 'm detector \<times> bool" where
  "load_sources load fs dt = (case try_source load ''active'' (fs_active fs) fs dt of
      Some dt1 \<Rightarrow> (dt1, True)
    | None \<Rightarrow> (case try_source load ''last_good'' (fs_last_good fs) fs dt of
          Some dt1 \<Rightarrow> (dt1, True) | None \<Rightarrow> (dt, False)))"

text \<open>The cache check comes before the withdrawal check.\<close>

definition load_bundle :: "('c \<Rightarrow> 'm regime_bundle res) \<Rightarrow> bool \<Rightarrow> 'c model_fs \<Rightarrow> 'm detector \<Rightarrow> 'm detector \<times> bool res" where
  "load_bundle load force fs dt =
     (let on_disk = on_disk_set_id fs in
      if dt_bundle dt \<noteq> None \<and> \<not> force \<and> (on_disk = None \<or> on_disk = dt_seen dt) then (dt, Inr True)
      else (let dt1 = dt\<lparr>dt_seen := on_disk\<rparr> in
        case withdrawal_of fs of
          Inl e \<Rightarrow> (dt1, Inl e)
        | Inr True \<Rightarrow> (dt1\<lparr>dt_bundle := None, dt_source := None\<rparr>, Inr False)
        | Inr False \<Rightarrow> (case load_sources load fs dt1 of (dt2, ok) \<Rightarrow> (dt2, Inr ok))))"

section \<open>Detection\<close>

definition stale_obs :: "('c, 'm, 'w, 'k, 'x) regime_env \<Rightarrow> string \<times> string \<Rightarrow> string \<Rightarrow> string \<Rightarrow> 'm detector \<Rightarrow> regime_obs" where
  "stale_obs env key granularity note dt = (case map_of (dt_last dt) key of
      Some prev \<Rightarrow> prev\<lparr>ro_stale := True, ro_note := Some note\<rparr>
    | None \<Rightarrow> \<lparr>ro_gran = granularity, ro_as_of = None, ro_state = None, ro_probs = [], ro_label = None, ro_conf = Fin 0,
        ro_window = re_window env, ro_set = dt_set dt, ro_source = ''hmm-live'', ro_stale = True, ro_note = Some note\<rparr>)"

definition index_of :: "string \<Rightarrow> string list \<Rightarrow> nat" where
  "index_of x xs = length (takeWhile (\<lambda>y. y \<noteq> x) xs)"

text \<open>From the feature matrix to the observation; nothing here is inside a \<open>try\<close>.\<close>

definition observe :: "('c, 'm, 'w, 'k, 'x) regime_env \<Rightarrow> string \<times> string \<Rightarrow> 'm regime_bundle \<Rightarrow> 'm model_obj \<Rightarrow> 'x \<Rightarrow> string \<Rightarrow>
    ('m detector, regime_obs) act" where
  "observe env key b mo mat as_of dt =
     (case ebind (weights_for b mo) (\<lambda>w. ebind (re_posterior env mo w mat) (\<lambda>probs. ebind (argmax probs) (\<lambda>state.
         ebind (case map_of (mo_mapping mo) (int state) of None \<Rightarrow> Inl KeyError | Some l \<Rightarrow> Inr l) (\<lambda>label.
         emap (\<lambda>ordered. (probs, state, label, ordered)) (order_probabilities probs (mo_mapping mo)))))) of
        Inl e \<Rightarrow> (dt, Inl e)
      | Inr (probs, state, label, ordered) \<Rightarrow>
          (let deb = debounce label (probs ! state) (case map_of (dt_debouncers dt) key of
                 Some d \<Rightarrow> d | None \<Rightarrow> new_debouncer (re_window env) (re_high env));
               smoothed = the (dn_published deb);
               conf = (if smoothed \<in> set SEMANTIC_ORDER then ordered ! index_of smoothed SEMANTIC_ORDER else probs ! state);
               obs = \<lparr>ro_gran = snd key, ro_as_of = (if as_of = [] then None else Some as_of), ro_state = Some state,
                 ro_probs = ordered, ro_label = Some smoothed, ro_conf = fl_round_dec 6 conf, ro_window = re_window env,
                 ro_set = dt_set dt, ro_source = ''hmm-live'', ro_stale = False, ro_note = None\<rparr>
           in (dt\<lparr>dt_debouncers := AList.update key deb (dt_debouncers dt), dt_last := AList.update key obs (dt_last dt)\<rparr>, Inr obs)))"

definition detect :: "('c, 'm, 'w, 'k, 'x) regime_env \<Rightarrow> 'c model_fs \<Rightarrow> string \<Rightarrow> string \<Rightarrow> ('m detector \<times> 'w, regime_obs) act" where
  "detect env fs instrument granularity s = (let key = (instrument, granularity) in
     case load_bundle (re_load env) False fs (fst s) of
       (dt, Inl e) \<Rightarrow> ((dt, snd s), Inl e)
     | (dt, Inr False) \<Rightarrow> ((dt, snd s), Inr (stale_obs env key granularity ''no model bundle'' dt))
     | (dt, Inr True) \<Rightarrow> (case dt_bundle dt of
           None \<Rightarrow> ((dt, snd s), Inl TypeError)
         | Some b \<Rightarrow> (case Option.bind (bn_models b) (\<lambda>ms. map_of ms granularity) of
               None \<Rightarrow> ((dt, snd s), Inr (stale_obs env key granularity (''no model for granularity '' @ granularity) dt))
             | Some mo \<Rightarrow> (case re_fetch env instrument granularity (re_lookback env) (snd s) of
                   (w, Inl e) \<Rightarrow> ((dt, w), Inr (stale_obs env key granularity (''candle fetch error: '' @ re_exn_name env e) dt))
                 | (w, Inr candles) \<Rightarrow> (case re_matrix env b candles of
                       Inl e \<Rightarrow> ((dt, w), Inl e)
                     | Inr None \<Rightarrow> ((dt, w), Inr (stale_obs env key granularity ''insufficient history'' dt))
                     | Inr (Some (mat, as_of)) \<Rightarrow> (case observe env key b mo mat as_of dt of (dt1, r) \<Rightarrow> ((dt1, w), r)))))))"

text \<open>The grid of the last observations, ordered by instrument and granularity.\<close>

definition snapshot_grid :: "'m detector \<Rightarrow> ((string \<times> string) \<times> regime_obs) list" where
  "snapshot_grid dt = sort_key fst (dt_last dt)"

section \<open>The scheduler\<close>

definition DEFAULT_INSTRUMENTS :: string where
  "DEFAULT_INSTRUMENTS = ''EUR_USD,GBP_USD,USD_JPY,USD_CHF,AUD_USD,USD_CAD,NZD_USD,EUR_GBP''"

definition DEFAULT_GRANULARITIES :: string where
  "DEFAULT_GRANULARITIES = ''H1,H4''"

definition parse_list :: "string option \<Rightarrow> string \<Rightarrow> string list" where
  "parse_list raw default_list = filter (\<lambda>x. x \<noteq> []) (map strip (split_on (CHR '','')
     (case raw of Some (c # cs) \<Rightarrow> c # cs | _ \<Rightarrow> default_list)))"

record scheduler =
  rs_instruments :: "string list"
  rs_granularities :: "string list"
  rs_refresh :: int

definition scheduler_of :: "secrets \<Rightarrow> scheduler" where
  "scheduler_of secrets = \<lparr>rs_instruments = parse_list (sec_get secrets ''REGIME_INSTRUMENTS'') DEFAULT_INSTRUMENTS,
     rs_granularities = parse_list (sec_get secrets ''REGIME_GRANULARITIES'') DEFAULT_GRANULARITIES,
     rs_refresh = max 5 (sec_int secrets ''REGIME_REFRESH_SEC'' 60)\<rparr>"

text \<open>The sweep over the watch-list; \<open>stopped\<close> reads the stop event.\<close>

fun sweep_pairs :: "('s \<Rightarrow> bool) \<Rightarrow> (string \<Rightarrow> string \<Rightarrow> ('s, 'o) act) \<Rightarrow> (string \<times> string) list \<Rightarrow> nat \<Rightarrow> 's \<Rightarrow> 's \<times> nat" where
  "sweep_pairs stopped det [] n s = (s, n)"
| "sweep_pairs stopped det ((i, g) # ps) n s = (if stopped s then (s, n)
     else case det i g s of
       (s1, Inr obs) \<Rightarrow> sweep_pairs stopped det ps (Suc n) s1
     | (s1, Inl e) \<Rightarrow> sweep_pairs stopped det ps n s1)"

definition sweep_once :: "('s \<Rightarrow> bool) \<Rightarrow> (string \<Rightarrow> string \<Rightarrow> ('s, 'o) act) \<Rightarrow> scheduler \<Rightarrow> 's \<Rightarrow> 's \<times> nat" where
  "sweep_once stopped det sch s =
     sweep_pairs stopped det (List.product (rs_instruments sch) (rs_granularities sch)) 0 s"

end
