(* ===== verification/Sync_Laws.thy ===== *)
theory Sync_Laws
  imports Model_Sync
begin

text \<open>
  What the downloader guarantees. A run is any sequence of polls and rollbacks under a storage that
  changes and fails freely; its invariant is that the active set exists, was verified file by file
  and agrees with \<open>state.json\<close>. A second group follows one promotion step by step, as a crash would
  cut it, and a third the withdrawal flag.
\<close>

section \<open>Verified sets\<close>

text \<open>Every file has the digest of an artifact of its name, and every artifact is there.\<close>

definition verified :: "('c \<Rightarrow> string) \<Rightarrow> manifest \<Rightarrow> 'c dir \<Rightarrow> bool" where
  "verified sha mf d \<longleftrightarrow>
     (\<forall>n c. map_of d n = Some c \<longrightarrow> (\<exists>a \<in> set (mf_artifacts mf). af_name a = VStr n \<and> af_sha a = VStr (sha c)))
     \<and> (\<forall>a \<in> set (mf_artifacts mf). \<exists>n. af_name a = VStr n \<and> map_of d n \<noteq> None)"

definition keeps_models :: "'c model_fs \<Rightarrow> 'c model_fs \<Rightarrow> bool" where
  "keeps_models fs fs' \<longleftrightarrow> fs_sets fs' = fs_sets fs \<and> fs_active fs' = fs_active fs \<and> fs_last_good fs' = fs_last_good fs"

lemma keeps_models_refl [simp]: "keeps_models fs fs"
  by (simp add: keeps_models_def)

lemma keeps_models_trans: "keeps_models a b \<Longrightarrow> keeps_models b c \<Longrightarrow> keeps_models a c"
  by (simp add: keeps_models_def)

lemma map_of_delete [simp]: "map_of (AList.delete k d) = (map_of d)(k := None)"
  by (rule delete_conv')

lemma dir_of_update [simp]: "dir_of k (AList.update k' d ds) = (if k = k' then d else dir_of k ds)"
  by (simp add: dir_of_def)

lemma update_state_models: "update_state kvs fs = (fs', r) \<Longrightarrow> keeps_models fs fs' \<and> fs_staging fs' = fs_staging fs"
  by (auto simp: update_state_def write_state_def keeps_models_def split: sum.splits)

lemma download_all_spec:
  "download_all dl sid as (w, fs) = ((w', fs'), r) \<Longrightarrow>
    keeps_models fs fs' \<and> fs_state fs' = fs_state fs
    \<and> (r = Inr () \<longrightarrow> (\<forall>n c. map_of (dir_of sid (fs_staging fs')) n = Some c \<longrightarrow>
          map_of (dir_of sid (fs_staging fs)) n = Some c \<or> (\<exists>a \<in> set as. af_name a = VStr n \<and> af_sha a = VStr (dl_sha dl c)))
        \<and> (\<forall>a \<in> set as. \<exists>n. af_name a = VStr n \<and> map_of (dir_of sid (fs_staging fs')) n \<noteq> None)
        \<and> (\<forall>n. map_of (dir_of sid (fs_staging fs)) n \<noteq> None \<longrightarrow> map_of (dir_of sid (fs_staging fs')) n \<noteq> None))"
proof (induction as arbitrary: w fs)
  case (Cons a as)
  show ?case
  proof (cases "\<exists>name w1 c. af_name a = VStr name \<and> dl_download dl (af_path a) w = (w1, Inr c)")
    case False
    then have "fs' = fs \<and> r \<noteq> Inr ()"
      using Cons.prems by (auto split: pyval.splits prod.splits sum.splits)
    then show ?thesis by simp
  next
    case True
    then obtain name w1 c where a: "af_name a = VStr name" "dl_download dl (af_path a) w = (w1, Inr c)" by blast
    let ?fs1 = "fs\<lparr>fs_staging := AList.update sid (AList.update name c (dir_of sid (fs_staging fs))) (fs_staging fs)\<rparr>"
    show ?thesis
    proof (cases "VStr (dl_sha dl c) = af_sha a")
      case False
      with Cons.prems a show ?thesis by (auto simp: keeps_models_def)
    next
      case True
      with Cons.prems a have "download_all dl sid as (w1, ?fs1) = ((w', fs'), r)" by simp
      note IH = Cons.IH [OF this]
      have d: "dir_of sid (fs_staging ?fs1) = AList.update name c (dir_of sid (fs_staging fs))" by simp
      have "keeps_models fs fs' \<and> fs_state fs' = fs_state fs" using IH by (simp add: keeps_models_def)
      moreover have "map_of (dir_of sid (fs_staging fs)) n = Some c' \<or> (\<exists>a \<in> set (a # as). af_name a = VStr n \<and> af_sha a = VStr (dl_sha dl c'))"
        if r: "r = Inr ()" and n: "map_of (dir_of sid (fs_staging fs')) n = Some c'" for n c'
      proof -
        have "map_of (dir_of sid (fs_staging ?fs1)) n = Some c' \<or> (\<exists>a \<in> set as. af_name a = VStr n \<and> af_sha a = VStr (dl_sha dl c'))"
          using IH r n by blast
        then show ?thesis unfolding d using a(1) True by (cases "n = name") auto
      qed
      moreover have "\<exists>n. af_name b = VStr n \<and> map_of (dir_of sid (fs_staging fs')) n \<noteq> None"
        if r: "r = Inr ()" and b: "b \<in> set (a # as)" for b
      proof (cases "b = a")
        case True
        have "map_of (dir_of sid (fs_staging ?fs1)) name \<noteq> None" unfolding d by simp
        then have "map_of (dir_of sid (fs_staging fs')) name \<noteq> None" using IH r by blast
        with True a(1) show ?thesis by blast
      next
        case False
        with b have "b \<in> set as" by simp
        then show ?thesis using IH r by blast
      qed
      moreover have "map_of (dir_of sid (fs_staging fs')) n \<noteq> None"
        if r: "r = Inr ()" and n: "map_of (dir_of sid (fs_staging fs)) n \<noteq> None" for n
      proof -
        have "map_of (dir_of sid (fs_staging ?fs1)) n \<noteq> None" unfolding d using n by simp
        then show ?thesis using IH r by blast
      qed
      ultimately show ?thesis by blast
    qed
  qed
qed simp

lemma download_and_verify_spec:
  assumes "download_and_verify dl mf (w, fs) = ((w', fs'), r)"
  shows "keeps_models fs fs'" "fs_state fs' = fs_state fs"
    "r = Inr () \<Longrightarrow> verified (dl_sha dl) mf (dir_of (mf_id mf) (fs_staging fs'))"
proof -
  note spec = download_all_spec [OF assms [unfolded download_and_verify_def fst_conv snd_conv]]
  show "keeps_models fs fs'" "fs_state fs' = fs_state fs" using spec by (simp_all add: keeps_models_def)
  show "verified (dl_sha dl) mf (dir_of (mf_id mf) (fs_staging fs'))" if "r = Inr ()"
    using spec that unfolding verified_def by (auto split: if_splits)
qed

section \<open>Runs\<close>

definition name_value :: "string option \<Rightarrow> pyval" where
  "name_value l = (case l of None \<Rightarrow> VNone | Some sid \<Rightarrow> VStr sid)"

lemma name_value_simps [simp]: "name_value None = VNone" "name_value (Some sid) = VStr sid"
  "name_value l = VStr sid \<longleftrightarrow> l = Some sid" "VStr sid = name_value l \<longleftrightarrow> l = Some sid"
  by (auto simp: name_value_def split: option.splits)

text \<open>Sets are verified, the links lead to sets, and the state names the active one.\<close>

definition sync_inv :: "('c \<Rightarrow> string) \<Rightarrow> 'c model_fs \<Rightarrow> bool" where
  "sync_inv sha fs \<longleftrightarrow>
     (\<forall>sid d. map_of (fs_sets fs) sid = Some d \<longrightarrow> (\<exists>mf. mf_id mf = sid \<and> verified sha mf d))
     \<and> (\<exists>d. read_state fs = VDict d \<and> dget d ''active_model_set_id'' = name_value (fs_active fs))
     \<and> (\<forall>sid. fs_active fs = Some sid \<or> fs_last_good fs = Some sid \<longrightarrow> map_of (fs_sets fs) sid \<noteq> None)"

definition fresh_root :: "'c model_fs" where
  "fresh_root = \<lparr>fs_sets = [], fs_staging = [], fs_active = None, fs_last_good = None, fs_state = None\<rparr>"

lemma sync_inv_fresh: "sync_inv sha fresh_root"
  by (simp add: sync_inv_def fresh_root_def read_state_def)

text \<open>Writes to the state that leave the active id alone keep the invariant.\<close>

lemma vset_all_VDict: "\<exists>d'. vset_all kvs (VDict d) = Inr (VDict d') \<and>
    (\<forall>k. k \<notin> fst ` set kvs \<longrightarrow> dget d' k = dget d k)"
proof (induction kvs arbitrary: d)
  case (Cons kv kvs)
  obtain k x where kv: "kv = (k, x)" by (cases kv)
  from Cons.IH [of "AList.update k x d"] obtain d' where
    "vset_all kvs (VDict (AList.update k x d)) = Inr (VDict d')" "\<forall>j. j \<notin> fst ` set kvs \<longrightarrow> dget d' j = dget (AList.update k x d) j"
    by blast
  then show ?case by (auto simp: kv)
qed simp

lemma update_state_inv:
  assumes "sync_inv sha fs" "''active_model_set_id'' \<notin> fst ` set kvs"
  shows "\<exists>fs'. update_state kvs fs = (fs', Inr ()) \<and> sync_inv sha fs'"
proof -
  obtain d where d: "read_state fs = VDict d" "dget d ''active_model_set_id'' = name_value (fs_active fs)"
    using assms(1) by (auto simp: sync_inv_def)
  obtain d' where d': "vset_all kvs (VDict d) = Inr (VDict d')" "dget d' ''active_model_set_id'' = name_value (fs_active fs)"
    using vset_all_VDict [of kvs d] assms(2) d(2) by auto
  have "update_state kvs fs = (write_state (VDict d') fs, Inr ())" by (simp add: update_state_def d(1) d'(1))
  moreover have "sync_inv sha (write_state (VDict d') fs)"
    using assms(1) d'(2) by (simp add: sync_inv_def write_state_def read_state_def)
  ultimately show ?thesis by blast
qed

lemma record_withdrawal_inv:
  assumes "sync_inv sha fs"
  shows "\<exists>fs'. record_withdrawal now w fs = (fs', Inr ()) \<and> sync_inv sha fs'"
proof -
  obtain d where "read_state fs = VDict d" using assms by (auto simp: sync_inv_def)
  then show ?thesis unfolding record_withdrawal_def by (simp add: update_state_inv [OF assms])
qed

lemma sync_inv_staging: "sync_inv sha (fs\<lparr>fs_staging := x\<rparr>) = sync_inv sha fs"
  by (simp add: sync_inv_def read_state_def)

text \<open>Promotion of a verified staging area.\<close>

definition previous_of :: "'c model_fs \<Rightarrow> manifest \<Rightarrow> string option" where
  "previous_of fs mf = (case fs_active fs of Some p \<Rightarrow> if p \<noteq> [] \<and> p \<noteq> mf_id mf then Some p else fs_last_good fs
     | None \<Rightarrow> fs_last_good fs)"

lemma previous_of_staging [simp]: "previous_of (fs\<lparr>fs_staging := x\<rparr>) mf = previous_of fs mf"
  by (simp add: previous_of_def split: option.split)

lemma promote_eq:
  assumes "read_state fs = VDict d" "dget d ''active_model_set_id'' = name_value (fs_active fs)"
  shows "promote now mf fs = (\<lparr>fs_sets = AList.update (mf_id mf) (dir_of (mf_id mf) (fs_staging fs)) (AList.delete (mf_id mf) (fs_sets fs)),
       fs_staging = AList.delete (mf_id mf) (fs_staging fs), fs_active = Some (mf_id mf), fs_last_good = previous_of fs mf,
       fs_state = Some (JsonBody (promoted_state mf (name_value (fs_active fs)) (now 2) (now 3)))\<rparr>, Inr ())"
proof -
  have "active_model_set_id (run_steps (install_steps mf) fs) = Inr (name_value (fs_active fs))"
    using assms by (simp add: active_model_set_id_def run_steps_def install_steps_def remove_set_def move_set_def read_state_def)
  then show ?thesis
    by (auto simp: promote_def switch_steps_def run_steps_def install_steps_def remove_set_def move_set_def link_last_good_def
        link_active_def write_state_def previous_of_def Let_def split: option.splits)
qed

lemma promote_inv:
  assumes inv: "sync_inv sha fs" and new: "fs_active fs \<noteq> Some (mf_id mf)"
    and stage: "verified sha mf (dir_of (mf_id mf) (fs_staging fs))"
  shows "\<exists>fs'. promote now mf fs = (fs', Inr ()) \<and> sync_inv sha fs'"
proof -
  obtain d where d: "read_state fs = VDict d" "dget d ''active_model_set_id'' = name_value (fs_active fs)"
    using inv by (auto simp: sync_inv_def)
  have sets: "\<exists>m. mf_id m = sid \<and> verified sha m x" if "map_of (fs_sets fs) sid = Some x" for sid x
    using inv that by (simp add: sync_inv_def)
  have links: "map_of (fs_sets fs) sid \<noteq> None" if "previous_of fs mf = Some sid" for sid
    using inv that by (auto simp: sync_inv_def previous_of_def split: option.splits if_splits)
  show ?thesis
    unfolding promote_eq [OF d]
    using sets links stage by (auto simp: sync_inv_def read_state_def promoted_state_def)
qed

lemma link_exists_iff: "link_exists (Some sid) fs \<longleftrightarrow> map_of (fs_sets fs) sid \<noteq> None"
  by (simp add: link_exists_def map_of_eq_None_iff)

text \<open>One call of the downloader, or the storage changing by itself.\<close>

inductive sync_step :: "('w, 'c) downloader \<Rightarrow> 'w \<times> 'c model_fs \<Rightarrow> 'w \<times> 'c model_fs \<Rightarrow> bool" for dl where
  polled: "poll_once dl now s = (s', r) \<Longrightarrow> sync_step dl s s'"
| rolled_back: "rollback_to_last_good now fs = (fs', r) \<Longrightarrow> sync_step dl (w, fs) (w, fs')"
| storage_changed: "sync_step dl (w, fs) (w', fs)"

lemma poll_once_inv:
  assumes "poll_once dl now (w, fs) = ((w', fs'), r)" "sync_inv (dl_sha dl) fs"
  shows "sync_inv (dl_sha dl) fs'" "r \<noteq> Inl e" "r = Inr False \<Longrightarrow> keeps_models fs fs'"
proof -
  obtain w1 f where fetch: "fetch_manifest dl (now 0) w = (w1, f)" by force
  obtain d where d: "read_state fs = VDict d" "dget d ''active_model_set_id'' = name_value (fs_active fs)"
    using assms(2) by (auto simp: sync_inv_def)
  have "sync_inv (dl_sha dl) fs' \<and> r \<noteq> Inl e \<and> (r = Inr False \<longrightarrow> keeps_models fs fs')"
  proof (cases f)
    case (Inl x)
    from update_state_inv [OF assms(2), of "[(''last_poll_at'', VStr (now 1)), (''last_poll_error'', VStr (dl_exn_name dl x))]"]
    show ?thesis using assms(1) fetch Inl
      by (auto simp: poll_once_def dest: update_state_models)
  next
    case (Inr v)
    show ?thesis
    proof (cases v)
      case (Inl wd)
      obtain fs1 where rw: "record_withdrawal now wd fs = (fs1, Inr ())" "sync_inv (dl_sha dl) fs1"
        using record_withdrawal_inv [OF assms(2)] by blast
      have "keeps_models fs fs1" using rw(1) d(1) unfolding record_withdrawal_def by (auto dest: update_state_models)
      then show ?thesis using assms(1) fetch Inr Inl rw by (auto simp: poll_once_def)
    next
      case (Inr mf)
      have cur: "active_model_set_id fs = Inr (name_value (fs_active fs))" by (simp add: active_model_set_id_def d)
      have p: "on_manifest dl now mf (w1, fs) = ((w', fs'), r)" using assms(1) fetch \<open>f = Inr v\<close> Inr by (simp add: poll_once_def)
      show ?thesis
      proof (cases "fs_active fs = Some (mf_id mf)")
        case True
        from update_state_inv [OF assms(2), of "[(''last_poll_at'', VStr (now 1))]"] show ?thesis
          using p cur True by (auto simp: on_manifest_def dest: update_state_models)
      next
        case False
        then have act: "activate dl now mf (w1, fs) = ((w', fs'), r)" using p cur by (auto simp: on_manifest_def)
        obtain w2 fs2 r2 where dv: "download_and_verify dl mf (w1, fs) = ((w2, fs2), r2)"
          by (cases "download_and_verify dl mf (w1, fs)") auto
        note spec = download_and_verify_spec [OF dv]
        have inv2: "sync_inv (dl_sha dl) fs2" using assms(2) spec(1,2) by (simp add: sync_inv_def keeps_models_def read_state_def)
        show ?thesis
        proof (cases r2)
          case (Inl x)
          then show ?thesis using act dv inv2 spec(1)
            by (auto simp: activate_def discard_staging_def sync_inv_staging keeps_models_def)
        next
          case (Inr u)
          have "fs_active fs2 \<noteq> Some (mf_id mf)" using False spec(1) by (simp add: keeps_models_def)
          from promote_inv [OF inv2 this spec(3)] Inr obtain fs3 where "promote now mf fs2 = (fs3, Inr ())" "sync_inv (dl_sha dl) fs3"
            by auto
          then show ?thesis using act dv Inr by (auto simp: activate_def)
        qed
      qed
    qed
  qed
  then show "sync_inv (dl_sha dl) fs'" "r \<noteq> Inl e" "r = Inr False \<Longrightarrow> keeps_models fs fs'" by auto
qed

lemma rollback_inv:
  assumes "rollback_to_last_good now fs = (fs', r)" "sync_inv sha fs"
  shows "sync_inv sha fs'"
proof (cases "fs_last_good fs")
  case None
  with assms show ?thesis by (simp add: rollback_to_last_good_def)
next
  case (Some t)
  obtain d where d: "read_state fs = VDict d" using assms(2) by (auto simp: sync_inv_def)
  show ?thesis
  proof (cases "link_exists (Some t) fs")
    case False
    with Some assms show ?thesis by (simp add: rollback_to_last_good_def)
  next
    case True
    have "read_state (link_active t fs) = VDict d" using d by (simp add: link_active_def read_state_def)
    then have "fs' = write_state (VDict (AList.update ''last_rolled_back_at'' (VStr now) (AList.update ''active_model_set_id'' (VStr t) d))) (link_active t fs)"
      using assms(1) Some True by (simp add: rollback_to_last_good_def update_state_def)
    then show ?thesis using assms(2) Some by (auto simp: sync_inv_def write_state_def link_active_def read_state_def)
  qed
qed

lemma sync_step_inv: "sync_step dl s s' \<Longrightarrow> sync_inv (dl_sha dl) (snd s) \<Longrightarrow> sync_inv (dl_sha dl) (snd s')"
proof (induction rule: sync_step.induct)
  case (polled now s s' r)
  then show ?case using poll_once_inv(1) by (cases s; cases s') fastforce
qed (auto dest: rollback_inv)

lemma sync_run_inv: "(sync_step dl)\<^sup>*\<^sup>* s s' \<Longrightarrow> sync_inv (dl_sha dl) (snd s) \<Longrightarrow> sync_inv (dl_sha dl) (snd s')"
  by (induction rule: rtranclp_induct) (auto dest: sync_step_inv)

section \<open>Properties\<close>


text \<open>A storage that serves one set of one file.\<close>

definition wit_pointer :: "string \<Rightarrow> pydict" where
  "wit_pointer sid = [(''artifacts'', VList [VDict [(''name'', VStr ''regime_hmm.pkl''), (''path'', VStr ''p/regime_hmm.pkl''), (''sha256'', VStr ''d1'')]]),
     (''schema_version'', VInt 1), (''model_set_id'', VStr sid)]"

definition wit_artifact :: artifact where
  "wit_artifact = \<lparr>af_name = VStr ''regime_hmm.pkl'', af_path = VStr ''p/regime_hmm.pkl'', af_sha = VStr ''d1'', af_bytes = 0\<rparr>"

definition wit_manifest :: "string \<Rightarrow> manifest" where
  "wit_manifest sid = \<lparr>mf_schema = 1, mf_id = sid, mf_published = [], mf_artifacts = [wit_artifact]\<rparr>"

definition wit_downloader :: "(qbody, string) downloader" where
  "wit_downloader = \<lparr>dl_text = (\<lambda>k w. (w, Inr w)), dl_download = (\<lambda>p w. (w, Inr ''d1'')), dl_sha = (\<lambda>c. c),
     dl_key = ''latest.json'', dl_exn_name = (\<lambda>e. ''Exception'')\<rparr>"

lemma wit_fetch: "fetch_manifest wit_downloader now (JsonBody (VDict (wit_pointer sid))) = (JsonBody (VDict (wit_pointer sid)), Inr (Inr (wit_manifest sid)))"
  by (simp add: fetch_manifest_def wit_downloader_def parse_withdrawal_def withdrawal_status_def wit_pointer_def or_else_def strip_def lower_def
      parse_manifest_def json_loads_def dindex_def artifact_from_def wit_manifest_def wit_artifact_def Let_def sbind_def)

lemma wit_download:
  "download_and_verify wit_downloader (wit_manifest sid) (w, fs) = ((w, fs\<lparr>fs_staging := AList.update sid [(''regime_hmm.pkl'', ''d1'')] (fs_staging fs)\<rparr>), Inr ())"
  by (simp add: download_and_verify_def wit_downloader_def wit_manifest_def wit_artifact_def Let_def)

lemma wit_activate:
  assumes "read_state fs = VDict d" "dget d ''active_model_set_id'' = name_value (fs_active fs)" "fs_active fs \<noteq> Some sid"
  shows "\<exists>fs'. poll_once wit_downloader now (JsonBody (VDict (wit_pointer sid)), fs) = ((JsonBody (VDict (wit_pointer sid)), fs'), Inr True)
    \<and> fs_active fs' = Some sid \<and> fs_last_good fs' = previous_of fs (wit_manifest sid)
    \<and> map_of (fs_sets fs') sid = Some [(''regime_hmm.pkl'', ''d1'')]
    \<and> (\<forall>k. k \<noteq> sid \<longrightarrow> map_of (fs_sets fs') k = map_of (fs_sets fs) k)"
proof -
  let ?fs1 = "fs\<lparr>fs_staging := AList.update sid [(''regime_hmm.pkl'', ''d1'')] (fs_staging fs)\<rparr>"
  have "read_state ?fs1 = VDict d" "dget d ''active_model_set_id'' = name_value (fs_active ?fs1)"
    using assms(1,2) by (simp_all add: read_state_def)
  note p = promote_eq [OF this, of now "wit_manifest sid"]
  have cur: "active_model_set_id fs = Inr (name_value (fs_active fs))" by (simp add: active_model_set_id_def assms(1,2))
  have id: "mf_id (wit_manifest sid) = sid" by (simp add: wit_manifest_def)
  show ?thesis
    using assms(3) by (auto simp: poll_once_def wit_fetch on_manifest_def cur activate_def wit_download p id)
qed




text \<open>The recorded withdrawal.\<close>

definition withdrawn :: "'c model_fs \<Rightarrow> bool" where
  "withdrawn fs \<longleftrightarrow> vget (read_state fs) ''withdrawn'' = Inr (VBool True)"

definition told_to_stop :: "('w, 'c) downloader \<Rightarrow> string \<Rightarrow> 'w \<Rightarrow> bool" where
  "told_to_stop dl now w \<longleftrightarrow> (\<exists>text. snd (dl_text dl (dl_key dl) w) = Inr text \<and> parse_withdrawal now text \<noteq> None)"

lemma update_state_get:
  assumes "read_state fs = VDict d" "update_state kvs fs = (fs', r)" "k \<notin> fst ` set kvs"
  shows "vget (read_state fs') k = Inr (dget d k)"
  using assms vset_all_VDict [of kvs d] by (auto simp: update_state_def write_state_def read_state_def)

lemma withdrawn_staging [simp]: "withdrawn (fs\<lparr>fs_staging := x\<rparr>) = withdrawn fs"
  by (simp add: withdrawn_def read_state_def)

lemma update_state_withdrawn:
  assumes "read_state fs = VDict d" "update_state kvs fs = (fs', r)" "''withdrawn'' \<notin> fst ` set kvs"
  shows "withdrawn fs' = withdrawn fs"
  using update_state_get [OF assms] assms(1) by (simp add: withdrawn_def)

lemma record_withdrawal_withdrawn:
  assumes "read_state fs = VDict d" "record_withdrawal now w fs = (fs', r)"
  shows "withdrawn fs' \<and> r = Inr ()"
  using assms by (auto simp: record_withdrawal_def update_state_def withdrawn_def write_state_def read_state_def)

lemma told_to_stop_fetch:
  assumes "fetch_manifest dl now w = (w', r)"
  shows "told_to_stop dl now w \<longleftrightarrow> (\<exists>wd. r = Inr (Inl wd))"
proof -
  obtain w1 t where t: "dl_text dl (dl_key dl) w = (w1, t)" by force
  show ?thesis using assms
    by (cases t) (auto simp: fetch_manifest_def told_to_stop_def t sbind_def emap_def split: option.splits sum.splits)
qed

lemma on_manifest_withdrawn:
  assumes "sync_inv (dl_sha dl) fs" "on_manifest dl now mf (w, fs) = ((w', fs'), r)"
  shows "withdrawn fs' \<longleftrightarrow> r \<noteq> Inr True \<and> withdrawn fs"
proof -
  obtain d where d: "read_state fs = VDict d" "dget d ''active_model_set_id'' = name_value (fs_active fs)"
    using assms(1) by (auto simp: sync_inv_def)
  have cur: "active_model_set_id fs = Inr (name_value (fs_active fs))" by (simp add: active_model_set_id_def d)
  show ?thesis
  proof (cases "fs_active fs = Some (mf_id mf)")
    case True
    obtain fs1 where u: "update_state [(''last_poll_at'', VStr (now 1))] fs = (fs1, Inr ())"
      using update_state_inv [OF assms(1), of "[(''last_poll_at'', VStr (now 1))]"] by auto
    then have "withdrawn fs1 = withdrawn fs" using update_state_withdrawn [OF d(1) u] by simp
    with assms(2) True cur u show ?thesis by (auto simp: on_manifest_def)
  next
    case False
    then have act: "activate dl now mf (w, fs) = ((w', fs'), r)" using assms(2) cur by (auto simp: on_manifest_def)
    obtain w2 fs2 r2 where dv: "download_and_verify dl mf (w, fs) = ((w2, fs2), r2)"
      by (cases "download_and_verify dl mf (w, fs)") auto
    note spec = download_and_verify_spec [OF dv]
    have d2: "read_state fs2 = VDict d" "dget d ''active_model_set_id'' = name_value (fs_active fs2)" "withdrawn fs2 = withdrawn fs"
      using d spec(1,2) by (simp_all add: read_state_def keeps_models_def withdrawn_def)
    show ?thesis
    proof (cases r2)
      case (Inl e)
      then show ?thesis using act dv d2(3) by (auto simp: activate_def discard_staging_def)
    next
      case (Inr u)
      then show ?thesis using act dv promote_eq [OF d2(1,2), of now mf]
        by (auto simp: activate_def withdrawn_def read_state_def promoted_state_def)
    qed
  qed
qed

text \<open>C18: The withdrawal flag is exact. In every reachable state, after a poll the state says withdrawn
  exactly when the manifest text just read carries an explicit withdrawal status, or it said so
  before and the poll activated nothing: an outage, damage or a checksum failure neither sets nor
  clears it.\<close>

theorem withdrawal_flag_is_exact:
  assumes "(sync_step dl)\<^sup>*\<^sup>* (w0, fresh_root) (w, fs)" "poll_once dl now (w, fs) = ((w', fs'), r)"
  shows "withdrawn fs' \<longleftrightarrow> told_to_stop dl (now 0) w \<or> (r \<noteq> Inr True \<and> withdrawn fs)"
proof -
  have inv: "sync_inv (dl_sha dl) fs" using sync_run_inv [OF assms(1)] sync_inv_fresh [of "dl_sha dl"] by simp
  then obtain d where d: "read_state fs = VDict d" by (auto simp: sync_inv_def)
  obtain w1 f where fetch: "fetch_manifest dl (now 0) w = (w1, f)" by force
  note told = told_to_stop_fetch [OF fetch]
  show ?thesis
  proof (cases f)
    case (Inl e)
    let ?kvs = "[(''last_poll_at'', VStr (now 1)), (''last_poll_error'', VStr (dl_exn_name dl e))]"
    obtain fs1 where u: "update_state ?kvs fs = (fs1, Inr ())" using update_state_inv [OF inv, of ?kvs] by auto
    then have "withdrawn fs1 = withdrawn fs" using update_state_withdrawn [OF d u] by simp
    with assms(2) fetch Inl u told show ?thesis by (auto simp: poll_once_def)
  next
    case (Inr v)
    show ?thesis
    proof (cases v)
      case (Inl wd)
      obtain fs1 r1 where rw: "record_withdrawal now wd fs = (fs1, r1)" by force
      from record_withdrawal_withdrawn [OF d rw] assms(2) fetch Inr Inl rw told show ?thesis by (auto simp: poll_once_def)
    next
      case (Inr mf)
      then have "on_manifest dl now mf (w1, fs) = ((w', fs'), r)" using assms(2) fetch \<open>f = Inr v\<close> by (simp add: poll_once_def)
      from on_manifest_withdrawn [OF inv this] told \<open>f = Inr v\<close> Inr show ?thesis by auto
    qed
  qed
qed

definition wit_stop :: qbody where
  "wit_stop = JsonBody (VDict [(''status'', VStr ''withdrawn''), (''reason'', VStr ''look-ahead''), (''withdrawn_at'', VStr ''t0'')])"

theorem withdrawal_flag_is_exact_witness:
  "withdrawn (snd (fst (poll_once wit_downloader (\<lambda>n. ''now'') (wit_stop, fresh_root))))"
proof -
  obtain w' fs' r where p: "poll_once wit_downloader (\<lambda>n. ''now'') (wit_stop, fresh_root) = ((w', fs'), r)"
    by (cases "poll_once wit_downloader (\<lambda>n. ''now'') (wit_stop, fresh_root)") auto
  have "withdrawal_status [(''status'', VStr ''withdrawn''), (''reason'', VStr ''look-ahead''), (''withdrawn_at'', VStr ''t0'')] = ''withdrawn''"
    unfolding withdrawal_status_def dget_or_simps by code_simp
  then have "told_to_stop wit_downloader ''now'' wit_stop"
    by (simp add: told_to_stop_def wit_downloader_def wit_stop_def parse_withdrawal_def)
  with withdrawal_flag_is_exact [OF rtranclp.rtrancl_refl p] p show ?thesis by simp
qed

text \<open>A withdrawal is not lifted by republishing the set. When the active set has been withdrawn and
  the publisher then publishes the same set again, the poll takes the no-change path: it activates
  nothing, and the state still says withdrawn, however often it is repeated; only a different set
  clears the flag.\<close>

theorem republished_set_stays_withdrawn:
  assumes "(sync_step dl)\<^sup>*\<^sup>* (w0, fresh_root) (w, fs)" "withdrawn fs" "fs_active fs = Some (mf_id mf)"
    and "fetch_manifest dl (now 0) w = (w1, Inr (Inr mf))"
  shows "\<exists>fs'. poll_once dl now (w, fs) = ((w1, fs'), Inr False) \<and> withdrawn fs' \<and> keeps_models fs fs'"
proof -
  have inv: "sync_inv (dl_sha dl) fs" using sync_run_inv [OF assms(1)] sync_inv_fresh [of "dl_sha dl"] by simp
  obtain fs1 where u: "update_state [(''last_poll_at'', VStr (now 1))] fs = (fs1, Inr ())"
    using update_state_inv [OF inv, of "[(''last_poll_at'', VStr (now 1))]"] by auto
  have cur: "active_model_set_id fs = Inr (VStr (mf_id mf))"
    using inv assms(3) by (auto simp: sync_inv_def active_model_set_id_def)
  obtain d where d: "read_state fs = VDict d" using inv by (auto simp: sync_inv_def)
  have "withdrawn fs1" using update_state_withdrawn [OF d u] assms(2) by simp
  moreover have "poll_once dl now (w, fs) = ((w1, fs1), Inr False)"
    by (simp add: poll_once_def assms(4) on_manifest_def cur u del: One_nat_def)
  ultimately show ?thesis using update_state_models [OF u] by blast
qed

lemma wit_stop_fetch: "\<exists>wd. fetch_manifest wit_downloader now wit_stop = (wit_stop, Inr (Inl wd))"
proof -
  have "withdrawal_status [(''status'', VStr ''withdrawn''), (''reason'', VStr ''look-ahead''), (''withdrawn_at'', VStr ''t0'')] = ''withdrawn''"
    unfolding withdrawal_status_def dget_or_simps by code_simp
  then show ?thesis by (simp add: fetch_manifest_def wit_downloader_def wit_stop_def parse_withdrawal_def sbind_def)
qed

theorem republished_set_stays_withdrawn_witness:
  "\<exists>w fs fs'. (sync_step wit_downloader)\<^sup>*\<^sup>* (JsonBody (VDict (wit_pointer ''s1'')), fresh_root) (w, fs) \<and> withdrawn fs
    \<and> poll_once wit_downloader (\<lambda>n. ''now'') (w, fs) = ((w, fs'), Inr False) \<and> withdrawn fs'"
proof -
  let ?p = "JsonBody (VDict (wit_pointer ''s1''))" and ?now = "\<lambda>n. ''now''"
  have fresh: "read_state fresh_root = VDict []" "dget [] ''active_model_set_id'' = name_value (fs_active fresh_root)"
      "fs_active fresh_root \<noteq> Some ''s1''"
    by (simp_all add: fresh_root_def read_state_def)
  obtain fs1 where one: "poll_once wit_downloader ?now (?p, fresh_root) = ((?p, fs1), Inr True)" "fs_active fs1 = Some ''s1''"
    using wit_activate [OF fresh] by blast
  have run1: "(sync_step wit_downloader)\<^sup>*\<^sup>* (?p, fresh_root) (?p, fs1)" using sync_step.polled [OF one(1)] by blast
  have inv: "sync_inv (dl_sha wit_downloader) fs1" using sync_run_inv [OF run1] sync_inv_fresh [of "dl_sha wit_downloader"] by simp
  obtain wd where wd: "fetch_manifest wit_downloader ''now'' wit_stop = (wit_stop, Inr (Inl wd))" using wit_stop_fetch by blast
  obtain fs2 where rw: "record_withdrawal ?now wd fs1 = (fs2, Inr ())" using record_withdrawal_inv [OF inv] by blast
  obtain d where "read_state fs1 = VDict d" using inv by (auto simp: sync_inv_def)
  then have w: "withdrawn fs2" and k: "keeps_models fs1 fs2"
    using record_withdrawal_withdrawn [OF _ rw] rw by (auto simp: record_withdrawal_def dest: update_state_models)
  have two: "poll_once wit_downloader ?now (wit_stop, fs1) = ((wit_stop, fs2), Inr False)" by (simp add: poll_once_def wd rw)
  have run2: "(sync_step wit_downloader)\<^sup>*\<^sup>* (?p, fresh_root) (?p, fs2)"
    using run1 sync_step.storage_changed [of wit_downloader ?p fs1 wit_stop] sync_step.polled [OF two]
      sync_step.storage_changed [of wit_downloader wit_stop fs2 ?p] by (meson rtranclp.rtrancl_into_rtrancl)
  have "fs_active fs2 = Some (mf_id (wit_manifest ''s1''))" using one(2) k by (simp add: keeps_models_def wit_manifest_def)
  from republished_set_stays_withdrawn [OF run2 w this wit_fetch] run2 w show ?thesis by blast
qed

section \<open>Rollback\<close>

lemma rollback_lemma:
  assumes "(sync_step dl)\<^sup>*\<^sup>* (w0, fresh_root) (w, fs)" "fs_active fs = Some p" "p \<noteq> []"
    and "poll_once dl now (w, fs) = ((w', fs1), Inr True)"
  shows "\<exists>fs2. rollback_to_last_good t fs1 = (fs2, Inr True) \<and> fs_active fs2 = Some p
    \<and> active_model_set_id fs2 = Inr (VStr p) \<and> map_of (fs_sets fs2) p = map_of (fs_sets fs) p"
proof -
  have inv: "sync_inv (dl_sha dl) fs" using sync_run_inv [OF assms(1)] sync_inv_fresh [of "dl_sha dl"] by simp
  then obtain d where d: "read_state fs = VDict d" "dget d ''active_model_set_id'' = VStr p"
    "map_of (fs_sets fs) p \<noteq> None" using assms(2) by (auto simp: sync_inv_def)
  have cur: "active_model_set_id fs = Inr (VStr p)" by (simp add: active_model_set_id_def d)
  obtain w1 f where fetch: "fetch_manifest dl (now 0) w = (w1, f)" by force
  obtain mf where f: "f = Inr (Inr mf)"
    using assms(4) fetch by (cases f; cases "projr f") (auto simp: poll_once_def emap_def split: prod.splits sum.splits)
  have new: "mf_id mf \<noteq> p"
    using assms(4) fetch f cur by (auto simp: poll_once_def on_manifest_def emap_def split: prod.splits sum.splits)
  have act: "activate dl now mf (w1, fs) = ((w', fs1), Inr True)"
    using assms(4) fetch f cur new by (simp add: poll_once_def on_manifest_def)
  obtain w2 fs0 r0 where dv: "download_and_verify dl mf (w1, fs) = ((w2, fs0), r0)"
    by (cases "download_and_verify dl mf (w1, fs)") auto
  note spec = download_and_verify_spec [OF dv]
  have d0: "read_state fs0 = VDict d" "dget d ''active_model_set_id'' = name_value (fs_active fs0)" "fs_active fs0 = Some p"
      "fs_sets fs0 = fs_sets fs"
    using d(1,2) assms(2) spec(1,2) by (simp_all add: read_state_def keeps_models_def)
  have fs1: "fs_last_good fs1 = Some p \<and> map_of (fs_sets fs1) p = map_of (fs_sets fs) p \<and> (\<exists>d1. read_state fs1 = VDict d1)"
    using act dv promote_eq [OF d0(1,2), of now mf] new assms(3) d0(3,4)
    by (cases r0) (auto simp: activate_def previous_of_def read_state_def promoted_state_def)
  then obtain d1 where d1: "read_state (link_active p fs1) = VDict d1" by (auto simp: link_active_def read_state_def)
  have "link_exists (Some p) fs1" using fs1 d(3) by (auto simp: link_exists_iff)
  then have "rollback_to_last_good t fs1 =
      (write_state (VDict (AList.update ''last_rolled_back_at'' (VStr t) (AList.update ''active_model_set_id'' (VStr p) d1))) (link_active p fs1), Inr True)"
    using fs1 d1 by (simp add: rollback_to_last_good_def update_state_def)
  then show ?thesis using fs1 by (simp add: write_state_def link_active_def active_model_set_id_def read_state_def)
qed

text \<open>C32: Rolling back an activation restores the set that was active before it. After a poll that
  activated a new set while another was active, a rollback succeeds, and then the active link and
  \<open>state.json\<close> name the earlier set again.\<close>

theorem rollback_restores_previous:
  assumes "(sync_step dl)\<^sup>*\<^sup>* (w0, fresh_root) (w, fs)" "fs_active fs = Some p" "p \<noteq> []"
    and "poll_once dl now (w, fs) = ((w', fs1), Inr True)"
  shows "\<exists>fs2. rollback_to_last_good t fs1 = (fs2, Inr True) \<and> fs_active fs2 = Some p
    \<and> active_model_set_id fs2 = Inr (VStr p) \<and> map_of (fs_sets fs2) p = map_of (fs_sets fs) p"
  using assms by (rule rollback_lemma)

text \<open>The next poll activates the rolled-back set again when the publisher still points at it.\<close>

lemma reactivated:
  assumes inv: "sync_inv (dl_sha dl) fs" and "fs_active fs \<noteq> Some (mf_id mf)"
    and "fetch_manifest dl (now 0) w = (w1, Inr (Inr mf))" "download_and_verify dl mf (w1, fs) = ((w2, fs0), Inr ())"
  shows "\<exists>fs'. poll_once dl now (w, fs) = ((w2, fs'), Inr True) \<and> fs_active fs' = Some (mf_id mf)"
proof -
  obtain d where d: "read_state fs = VDict d" "dget d ''active_model_set_id'' = name_value (fs_active fs)"
    using inv by (auto simp: sync_inv_def)
  have cur: "active_model_set_id fs = Inr (name_value (fs_active fs))" by (simp add: active_model_set_id_def d)
  note spec = download_and_verify_spec [OF assms(4)]
  have d0: "read_state fs0 = VDict d" "dget d ''active_model_set_id'' = name_value (fs_active fs0)"
    using d spec(1,2) by (simp_all add: read_state_def keeps_models_def)
  show ?thesis using assms(2-4) cur promote_eq [OF d0, of now mf] by (simp add: poll_once_def on_manifest_def activate_def)
qed

text \<open>A rollback does not outlive the next poll. When an activation has been rolled back and the
  publisher still points at that set and its files still verify, the next poll activates the set
  that was rolled back again.\<close>

theorem rollback_is_undone_by_next_poll:
  assumes "(sync_step dl)\<^sup>*\<^sup>* (w0, fresh_root) (w, fs)" "fs_active fs = Some p" "p \<noteq> []"
    and "poll_once dl now (w, fs) = ((w', fs1), Inr True)" "rollback_to_last_good t fs1 = (fs2, Inr True)"
    and "fetch_manifest dl (now' 0) w' = (w1, Inr (Inr mf))" "fs_active fs1 = Some (mf_id mf)" "mf_id mf \<noteq> p"
    and "download_and_verify dl mf (w1, fs2) = ((w2, fs3), Inr ())"
  shows "\<exists>fs4. poll_once dl now' (w', fs2) = ((w2, fs4), Inr True) \<and> fs_active fs4 = fs_active fs1"
proof -
  have run: "(sync_step dl)\<^sup>*\<^sup>* (w0, fresh_root) (w', fs2)"
    using assms(1) sync_step.polled [OF assms(4)] sync_step.rolled_back [OF assms(5), of dl w']
    by (meson rtranclp.rtrancl_into_rtrancl)
  have inv: "sync_inv (dl_sha dl) fs2" using sync_run_inv [OF run] sync_inv_fresh [of "dl_sha dl"] by simp
  obtain fs2' where "rollback_to_last_good t fs1 = (fs2', Inr True)" "fs_active fs2' = Some p"
    using rollback_lemma [OF assms(1-4), of t] by blast
  then have "fs_active fs2 \<noteq> Some (mf_id mf)" using assms(5,8) by simp
  from reactivated [where now = now', OF inv this assms(6,9)] assms(7) show ?thesis by simp
qed

section \<open>Crashes\<close>


text \<open>A root whose active set is \<open>s1\<close>, with \<open>s2\<close> staged.\<close>

definition wit_root :: "string model_fs" where
  "wit_root = \<lparr>fs_sets = [(''s1'', [(''regime_hmm.pkl'', ''d1'')])], fs_staging = [(''s2'', [(''regime_hmm.pkl'', ''d1'')])], fs_active = Some ''s1'',
     fs_last_good = None, fs_state = Some (JsonBody (VDict [(''active_model_set_id'', VStr ''s1'')]))\<rparr>"

lemma wit_verified: "verified (\<lambda>c. c) (wit_manifest sid) [(''regime_hmm.pkl'', ''d1'')]"
  by (simp add: verified_def wit_manifest_def wit_artifact_def)

lemma wit_root_inv: "sync_inv (\<lambda>c. c) wit_root"
proof -
  have "\<exists>mf. mf_id mf = ''s1'' \<and> verified (\<lambda>c. c) mf [(''regime_hmm.pkl'', ''d1'')]"
    using wit_verified [of "''s1''"] by (intro exI [of _ "wit_manifest ''s1''"]) (simp add: wit_manifest_def)
  then show ?thesis by (auto simp: sync_inv_def wit_root_def read_state_def)
qed


text \<open>A crash between the two last steps makes the retry unlink what is served. When a promotion is
  cut after the active link was replaced and before \<open>state.json\<close> was written, the state names the
  old set, so the next poll does not take the new set for the active one and promotes it again; the
  first step of that promotion removes the directory that the active link leads to.\<close>

theorem interrupted_swap_breaks_retry:
  assumes "sync_inv sha fs" "fs_active fs \<noteq> Some (mf_id mf)"
    and "switch_steps mf (name_value (fs_active fs)) polled swapped = Inr switch"
    and "fs1 = run_steps (install_steps mf @ butlast switch) fs"
  shows "fs_active fs1 = Some (mf_id mf) \<and> active_model_set_id fs1 \<noteq> Inr (VStr (mf_id mf))
    \<and> (\<exists>fs2. fs2 = run_steps (take 1 (install_steps mf)) (fs1\<lparr>fs_staging := staged\<rparr>)
        \<and> fs_active fs2 = Some (mf_id mf) \<and> \<not> link_exists (fs_active fs2) fs2)"
proof -
  have "active_model_set_id fs = Inr (name_value (fs_active fs))" using assms(1) by (auto simp: sync_inv_def active_model_set_id_def)
  moreover have "read_state fs1 = read_state fs" "fs_active fs1 = Some (mf_id mf)"
    using assms(3,4) by (auto simp: switch_steps_def run_steps_def install_steps_def remove_set_def move_set_def link_last_good_def
        link_active_def read_state_def Let_def split: if_splits pyval.splits)
  ultimately show ?thesis using assms(2)
    by (simp add: active_model_set_id_def run_steps_def install_steps_def remove_set_def link_exists_iff)
qed

theorem interrupted_swap_breaks_retry_witness:
  "\<exists>switch. switch_steps (wit_manifest ''s2'') (VStr ''s1'') ''t'' ''t'' = Inr switch
    \<and> fs_active (run_steps (install_steps (wit_manifest ''s2'') @ butlast switch) wit_root) = Some ''s2''"
proof -
  have new: "fs_active wit_root \<noteq> Some (mf_id (wit_manifest ''s2''))" by (simp add: wit_root_def wit_manifest_def)
  obtain switch :: "(string model_fs \<Rightarrow> string model_fs) list" where sw: "switch_steps (wit_manifest ''s2'') (name_value (fs_active wit_root)) ''t'' ''t'' = Inr switch"
    by (simp add: switch_steps_def wit_root_def wit_manifest_def Let_def)
  from interrupted_swap_breaks_retry [OF wit_root_inv new sw refl] sw show ?thesis
    by (auto simp: wit_root_def wit_manifest_def)
qed

text \<open>Two activations of the one-file storage, and the rollback between polls.\<close>

lemma wit_two_activations:
  "\<exists>fs1 fs2. (sync_step wit_downloader)\<^sup>*\<^sup>* (JsonBody (VDict (wit_pointer ''s1'')), fresh_root) (JsonBody (VDict (wit_pointer ''s2'')), fs1)
    \<and> fs_active fs1 = Some ''s1''
    \<and> poll_once wit_downloader (\<lambda>n. ''now'') (JsonBody (VDict (wit_pointer ''s2'')), fs1)
        = ((JsonBody (VDict (wit_pointer ''s2'')), fs2), Inr True) \<and> fs_active fs2 = Some ''s2''"
proof -
  let ?p = "\<lambda>sid. JsonBody (VDict (wit_pointer sid))" and ?now = "\<lambda>n. ''now''"
  have fresh: "read_state fresh_root = VDict []" "dget [] ''active_model_set_id'' = name_value (fs_active fresh_root)"
      "fs_active fresh_root \<noteq> Some ''s1''"
    by (simp_all add: fresh_root_def read_state_def)
  obtain fs1 where one: "poll_once wit_downloader ?now (?p ''s1'', fresh_root) = ((?p ''s1'', fs1), Inr True)" "fs_active fs1 = Some ''s1''"
    using wit_activate [OF fresh] by blast
  have run: "(sync_step wit_downloader)\<^sup>*\<^sup>* (?p ''s1'', fresh_root) (?p ''s2'', fs1)"
    using sync_step.polled [OF one(1)] sync_step.storage_changed [of wit_downloader "?p ''s1''" fs1 "?p ''s2''"]
    by (meson rtranclp.rtrancl_into_rtrancl rtranclp.rtrancl_refl)
  have "sync_inv (dl_sha wit_downloader) fs1" using sync_run_inv [OF run] sync_inv_fresh [of "dl_sha wit_downloader"] by simp
  then obtain d where d: "read_state fs1 = VDict d" "dget d ''active_model_set_id'' = name_value (fs_active fs1)"
    by (auto simp: sync_inv_def)
  have "fs_active fs1 \<noteq> Some ''s2''" using one(2) by simp
  from wit_activate [OF d this, of ?now] run one(2) show ?thesis by blast
qed

theorem rollback_restores_previous_witness:
  "\<exists>fs fs' :: string model_fs. fs_active fs = Some ''s2'' \<and> rollback_to_last_good ''t'' fs = (fs', Inr True) \<and> fs_active fs' = Some ''s1''"
proof -
  obtain fs1 fs2 where w: "(sync_step wit_downloader)\<^sup>*\<^sup>* (JsonBody (VDict (wit_pointer ''s1'')), fresh_root) (JsonBody (VDict (wit_pointer ''s2'')), fs1)"
    "fs_active fs1 = Some ''s1''" "poll_once wit_downloader (\<lambda>n. ''now'') (JsonBody (VDict (wit_pointer ''s2'')), fs1)
        = ((JsonBody (VDict (wit_pointer ''s2'')), fs2), Inr True)" "fs_active fs2 = Some ''s2''"
    using wit_two_activations by blast
  have "''s1'' \<noteq> []" by simp
  from rollback_restores_previous [OF w(1,2) this w(3), of "''t''"] w(4) show ?thesis by blast
qed

theorem rollback_is_undone_by_next_poll_witness:
  "\<exists>fs2 fs3 fs4 :: string model_fs. rollback_to_last_good ''t'' fs2 = (fs3, Inr True) \<and> fs_active fs3 = Some ''s1''
    \<and> poll_once wit_downloader (\<lambda>n. ''now'') (JsonBody (VDict (wit_pointer ''s2'')), fs3)
        = ((JsonBody (VDict (wit_pointer ''s2'')), fs4), Inr True) \<and> fs_active fs4 = Some ''s2''"
proof -
  obtain fs1 fs2 where w: "(sync_step wit_downloader)\<^sup>*\<^sup>* (JsonBody (VDict (wit_pointer ''s1'')), fresh_root) (JsonBody (VDict (wit_pointer ''s2'')), fs1)"
    "fs_active fs1 = Some ''s1''" "poll_once wit_downloader (\<lambda>n. ''now'') (JsonBody (VDict (wit_pointer ''s2'')), fs1)
        = ((JsonBody (VDict (wit_pointer ''s2'')), fs2), Inr True)" "fs_active fs2 = Some ''s2''"
    using wit_two_activations by blast
  have ne: "''s1'' \<noteq> []" by simp
  obtain fs3 where r: "rollback_to_last_good ''t'' fs2 = (fs3, Inr True)" "fs_active fs3 = Some ''s1''"
    using rollback_lemma [OF w(1,2) ne w(3), of "''t''"] by blast
  have a: "fs_active fs2 = Some (mf_id (wit_manifest ''s2''))" "mf_id (wit_manifest ''s2'') \<noteq> ''s1''"
    using w(4) by (simp_all add: wit_manifest_def)
  have "\<exists>fs4. poll_once wit_downloader (\<lambda>n. ''now'') (JsonBody (VDict (wit_pointer ''s2'')), fs3)
      = ((JsonBody (VDict (wit_pointer ''s2'')), fs4), Inr True) \<and> fs_active fs4 = fs_active fs2"
    by (rule rollback_is_undone_by_next_poll [OF w(1,2) ne w(3) r(1) _ a wit_download]) (rule wit_fetch)
  with r w(4) show ?thesis by auto
qed

end
