(* ===== verification/Regime_Laws.thy ===== *)
theory Regime_Laws
  imports Live_Regime Sync_Laws
begin

text \<open>
  The regime detector: the debouncer against a reference on the whole history, what smoothing
  guarantees of its runs, and the bundle cache over the artifact root the downloader maintains.
\<close>

section \<open>The debouncer against its history\<close>

text \<open>The published label as a function of the history, the latest observation first.\<close>

fun history_label :: "nat \<Rightarrow> pyfloat \<Rightarrow> (string \<times> pyfloat) list \<Rightarrow> string option" where
  "history_label w high [] = None"
| "history_label w high ((l, p) # older) =
     (case history_label w high older of
        None \<Rightarrow> Some l
      | Some a \<Rightarrow> if fl_le high p \<or> take w (l # map fst older) = replicate w l then Some l else Some a)"

definition leading :: "string \<Rightarrow> (string \<times> pyfloat) list \<Rightarrow> nat" where
  "leading l h = length (takeWhile (\<lambda>x. fst x = l) h)"

lemma leading_simps [simp]: "leading l [] = 0" "leading l (x # h) = (if fst x = l then Suc (leading l h) else 0)"
  by (simp_all add: leading_def)

lemma take_replicate_leading: "take n (map fst h) = replicate n l \<longleftrightarrow> n \<le> leading l h"
proof (induction h arbitrary: n)
  case Nil
  then show ?case by (cases n) auto
next
  case (Cons x h)
  then show ?case by (cases n) auto
qed

definition debounced :: "nat \<Rightarrow> debouncer \<Rightarrow> (string \<times> pyfloat) list \<Rightarrow> bool" where
  "debounced w d h \<longleftrightarrow> nat (dn_window d) = w \<and> dn_published d = history_label w (dn_high d) h
     \<and> (dn_published d = None \<longleftrightarrow> h = [])
     \<and> (case dn_candidate d of
          None \<Rightarrow> h = [] \<or> dn_published d = Some (fst (hd h))
        | Some c \<Rightarrow> dn_published d \<noteq> Some c \<and> 1 \<le> dn_count d \<and> dn_count d = int (leading c h))"

lemma debounced_step:
  assumes "debounced w d h"
  shows "debounced w (debounce l p d) ((l, p) # h) \<and> dn_high (debounce l p d) = dn_high d"
proof (cases "dn_published d")
  case None
  with assms show ?thesis by (auto simp: debounced_def debounce_def publish_label_def split: option.splits)
next
  case (Some a)
  let ?high = "dn_high d"
  have h: "h \<noteq> []" "history_label w ?high h = Some a" "nat (dn_window d) = w" using assms Some by (auto simp: debounced_def)
  have shift: "take w (l # map fst h) = replicate w l \<longleftrightarrow> w \<le> Suc (leading l h)"
    using take_replicate_leading [of w "(l, p) # h" l] by simp
  show ?thesis
  proof (cases "a = l")
    case True
    with h Some show ?thesis by (auto simp: debounced_def debounce_def publish_label_def)
  next
    case False
    define k where "k = (if dn_candidate d = Some l then dn_count d + 1 else 1)"
    have k: "k = int (Suc (leading l h))"
    proof (cases "dn_candidate d")
      case None
      with assms Some False h(1) show ?thesis by (cases h) (auto simp: debounced_def k_def)
    next
      case (Some c)
      with assms False h(1) show ?thesis by (cases h) (auto simp: debounced_def k_def split: if_splits)
    qed
    then have win: "dn_window d \<le> k \<longleftrightarrow> w \<le> Suc (leading l h)" using h(3) by linarith
    have step: "debounce l p d = (if dn_window d \<le> k \<or> fl_le ?high p
        then d\<lparr>dn_published := Some l, dn_candidate := None, dn_count := 0\<rparr>
        else d\<lparr>dn_candidate := Some l, dn_count := k\<rparr>)"
      using Some False by (auto simp: debounce_def publish_label_def k_def Let_def)
    show ?thesis unfolding step using Some False h win k by (auto simp: debounced_def shift)
  qed
qed

lemma debounced_run: "debounced w d h \<Longrightarrow>
    debounced w (fold (\<lambda>(l, p). debounce l p) obs d) (rev obs @ h) \<and> dn_high (fold (\<lambda>(l, p). debounce l p) obs d) = dn_high d"
proof (induction obs arbitrary: d h)
  case (Cons x obs)
  obtain l p where x: "x = (l, p)" by force
  from Cons.IH [of "debounce l p d" "(l, p) # h"] debounced_step [OF Cons.prems, of l p] show ?case by (simp add: x)
qed simp

text \<open>C20: The debouncer publishes what its history says. After any observations the published label is
  the reference label: the first one seen, replaced exactly when an observation reaches the
  high-confidence level or the last \<open>window\<close> labels all equal it, and held otherwise.\<close>

theorem debouncer_follows_history:
  "dn_published (fold (\<lambda>(l, p). debounce l p) obs (new_debouncer window high)) = history_label (nat window) high (rev obs)"
proof -
  have "debounced (nat window) (new_debouncer window high) []" by (simp add: debounced_def new_debouncer_def)
  from debounced_run [OF this, of obs] show ?thesis by (simp add: debounced_def new_debouncer_def)
qed

section \<open>Smoothing\<close>

text \<open>Every label that differs from the one before it starts \<open>m\<close> equal labels.\<close>

definition steady :: "nat \<Rightarrow> string \<Rightarrow> string list \<Rightarrow> bool" where
  "steady m p s \<longleftrightarrow> (\<forall>i < length s. (if i = 0 then p else s ! (i - 1)) \<noteq> s ! i \<longrightarrow>
     i + m \<le> length s \<and> (\<forall>j < m. s ! (i + j) = s ! i))"

lemma run_length_pos: "xs \<noteq> [] \<Longrightarrow> 0 < run_length xs"
  by (cases xs) (simp_all add: run_length_def)

lemma run_length_le: "run_length xs \<le> length xs"
  by (simp add: run_length_def length_takeWhile_le)

lemma steady_append:
  assumes "0 < n" "p \<noteq> l \<Longrightarrow> m \<le> n" "steady m l s"
  shows "steady m p (replicate n l @ s)"
  unfolding steady_def
proof (intro allI impI)
  fix i let ?t = "replicate n l @ s"
  assume i: "i < length ?t" "(if i = 0 then p else ?t ! (i - 1)) \<noteq> ?t ! i"
  show "i + m \<le> length ?t \<and> (\<forall>j < m. ?t ! (i + j) = ?t ! i)"
  proof (cases "i < n")
    case True
    then have "i = 0" "p \<noteq> l" using i assms(1) by (auto simp: nth_append split: if_splits)
    with assms(1,2) show ?thesis by (auto simp: nth_append)
  next
    case False
    define k where "k = i - n"
    have k: "i = n + k" "k < length s" using False i(1) by (auto simp: k_def)
    have "(if k = 0 then l else s ! (k - 1)) \<noteq> s ! k"
      using i(2) assms(1) k by (auto simp: nth_append split: if_splits)
    with assms(3) k(2) have "k + m \<le> length s \<and> (\<forall>j < m. s ! (k + j) = s ! k)" by (auto simp: steady_def)
    then show ?thesis using k by (auto simp: nth_append)
  qed
qed

lemma smooth_Some_steady: "steady m p (smooth_segments m (Some p) xs)"
proof (induction "length xs" arbitrary: p xs rule: less_induct)
  case less
  show ?case
  proof (cases "xs = []")
    case True
    then show ?thesis by (simp add: smooth_segments.simps steady_def)
  next
    case False
    let ?n = "run_length xs" and ?l = "if run_length xs < m then p else hd xs"
    have eq: "smooth_segments m (Some p) xs = replicate ?n ?l @ smooth_segments m (Some ?l) (drop ?n xs)"
      using False by (subst smooth_segments.simps) (simp add: Let_def)
    have "steady m ?l (smooth_segments m (Some ?l) (drop ?n xs))"
      using less.hyps run_length_pos [OF False] False by simp
    then show ?thesis unfolding eq using run_length_pos [OF False] by (intro steady_append) (auto split: if_splits)
  qed
qed

lemma smooth_None: "xs \<noteq> [] \<Longrightarrow> smooth_segments m None xs =
    replicate (run_length xs) (hd xs) @ smooth_segments m (Some (hd xs)) (drop (run_length xs) xs)"
  by (subst smooth_segments.simps) (simp add: Let_def)

lemma length_smooth: "length (smooth_segments m prev xs) = length xs"
proof (induction "length xs" arbitrary: prev xs rule: less_induct)
  case less
  show ?case
  proof (cases "xs = []")
    case False
    then show ?thesis using less.hyps run_length_pos [OF False] run_length_le [of xs]
      by (subst smooth_segments.simps) (simp add: Let_def)
  qed (simp add: smooth_segments.simps)
qed

lemma run_length_split: "s \<noteq> [] \<Longrightarrow> s = replicate (run_length s) (hd s) @ drop (run_length s) s
    \<and> (run_length s < length s \<longrightarrow> s ! run_length s \<noteq> hd s)"
proof -
  assume "s \<noteq> []"
  let ?P = "\<lambda>x. x = hd s"
  have "takeWhile ?P s = replicate (length (takeWhile ?P s)) (hd s)"
    by (rule replicate_eqI) (auto dest: set_takeWhileD)
  moreover have "drop (run_length s) s = dropWhile ?P s" by (simp add: run_length_def dropWhile_eq_drop)
  moreover have "takeWhile ?P s @ dropWhile ?P s = s" by (rule takeWhile_dropWhile_id)
  ultimately have "s = replicate (run_length s) (hd s) @ drop (run_length s) s" by (simp add: run_length_def)
  then show ?thesis using nth_length_takeWhile [of ?P s] by (simp add: run_length_def)
qed

lemma steady_start: "steady m p s \<Longrightarrow> s \<noteq> [] \<Longrightarrow> steady m (s ! 0) s"
  by (auto simp: steady_def)

lemma steady_drop:
  assumes "steady m p s" "0 < k" "k < length s"
  shows "steady m (s ! (k - 1)) (drop k s)"
  unfolding steady_def
proof (intro allI impI)
  fix i assume i: "i < length (drop k s)" "(if i = 0 then s ! (k - 1) else drop k s ! (i - 1)) \<noteq> drop k s ! i"
  have "s ! (k + i - 1) \<noteq> s ! (k + i)" using i assms(2,3) by (cases i) auto
  then have "k + i + m \<le> length s \<and> (\<forall>j < m. s ! (k + i + j) = s ! (k + i))"
    using assms i(1) by (auto simp: steady_def)
  then show "i + m \<le> length (drop k s) \<and> (\<forall>j < m. drop k s ! (i + j) = drop k s ! i)"
    using i(1) assms(3) by (auto simp: add.assoc)
qed

lemma length_persistence_smooth: "length (persistence_smooth labels m) = length labels"
  using run_length_le [of "smooth_segments m None labels"]
  by (auto simp: persistence_smooth_def Let_def length_smooth)

definition long_runs :: "nat \<Rightarrow> string list \<Rightarrow> bool" where
  "long_runs m s \<longleftrightarrow> ((\<forall>i < length s. s ! i = s ! 0) \<or> (m \<le> length s \<and> (\<forall>j < m. s ! j = s ! 0)))
     \<and> (\<forall>i. 0 < i \<and> i < length s \<and> s ! (i - 1) \<noteq> s ! i \<longrightarrow> i + m \<le> length s \<and> (\<forall>j < m. s ! (i + j) = s ! i))"

lemma long_runs_intro: "steady m (s ! 0) s \<Longrightarrow> (\<forall>i < length s. s ! i = s ! 0) \<or> (m \<le> length s \<and> (\<forall>j < m. s ! j = s ! 0)) \<Longrightarrow> long_runs m s"
  unfolding long_runs_def steady_def by (metis (no_types, lifting) less_not_refl)

text \<open>Smoothing leaves no flicker. The result has the input's length, and when its labels are not
  all equal, the first \<open>min_bars\<close> of them are equal and every label that differs from its predecessor
  starts at least \<open>min_bars\<close> equal ones.\<close>

theorem smoothed_runs_are_long:
  "length (persistence_smooth labels m) = length labels \<and> long_runs m (persistence_smooth labels m)"
proof (cases "labels = []")
  case True
  then show ?thesis by (simp add: persistence_smooth_def smooth_segments.simps long_runs_def)
next
  case False
  define s where "s = persistence_smooth labels m"
  define t where "t = smooth_segments m None labels"
  define k where "k = run_length t"
  have t: "t \<noteq> []" "length t = length labels" using False length_smooth [of m None labels] by (auto simp: t_def)
  have steady_t: "steady m (t ! 0) t"
    unfolding t_def smooth_None [OF False]
    using run_length_pos [OF False] smooth_Some_steady by (intro steady_append) (auto simp: nth_append)
  have k: "0 < k" "k \<le> length t" using run_length_pos [OF t(1)] run_length_le by (auto simp: k_def)
  have split: "t = replicate k (hd t) @ drop k t" "k < length t \<Longrightarrow> t ! k \<noteq> hd t"
    using run_length_split [OF t(1)] by (auto simp: k_def)
  have first: "t ! j = t ! 0" if "j < k" for j
    using that split(1) k by (metis hd_conv_nth nth_append nth_replicate length_replicate t(1))
  have s: "s = (if k < m \<and> k < length t then replicate k (t ! k) @ drop k t else t)"
    using t(1) by (simp add: s_def persistence_smooth_def t_def [symmetric] k_def Let_def)
  have len: "length s = length labels" using k t(2) by (simp add: s)
  have "steady m (s ! 0) s \<and> ((\<forall>i < length s. s ! i = s ! 0) \<or> (m \<le> length s \<and> (\<forall>j < m. s ! j = s ! 0)))"
  proof (cases "k < m \<and> k < length t")
    case True
    then have s': "s = replicate k (t ! k) @ drop k t" by (simp add: s)
    have "t ! (k - 1) \<noteq> t ! k" using split(2) True first [of "k - 1"] k t(1) by (simp add: hd_conv_nth)
    then have long: "k + m \<le> length t" "\<forall>j < m. t ! (k + j) = t ! k" using steady_t True k by (auto simp: steady_def)
    have s0: "s ! 0 = t ! k" using k by (simp add: s' nth_append)
    have "steady m (t ! k) (drop k t)" using steady_start [OF steady_drop [OF steady_t k(1)]] True by simp
    then have "steady m (s ! 0) s" unfolding s0 unfolding s' using k(1) by (intro steady_append) auto
    moreover have "\<forall>j < m. s ! j = s ! 0"
    proof (intro allI impI)
      fix j assume that: "j < m"
      show "s ! j = s ! 0"
      proof (cases "j < k")
        case True
        then show ?thesis unfolding s0 by (simp add: s' nth_append)
      next
        case False
        then have "s ! j = t ! (k + (j - k))" using that long(1) by (simp add: s' nth_append)
        moreover have "t ! (k + (j - k)) = t ! k" using long(2) that False by (meson less_imp_diff_less)
        ultimately show ?thesis by (simp add: s0)
      qed
    qed
    moreover have "m \<le> length s" using long(1) k True by (simp add: s')
    ultimately show ?thesis by blast
  next
    case False
    then have "s = t" by (simp only: s if_False)
    moreover have "(\<forall>i < length t. t ! i = t ! 0) \<or> (m \<le> length t \<and> (\<forall>j < m. t ! j = t ! 0))"
    proof (cases "k < length t")
      case True
      then have "m \<le> k" using False by simp
      then show ?thesis using first k(2) by (meson le_trans less_le_trans)
    next
      case False
      then have "length t = k" using k(2) by simp
      then show ?thesis using first by blast
    qed
    ultimately show ?thesis using steady_t by simp
  qed
  then have "long_runs m s" by (elim conjE) (rule long_runs_intro)
  then show ?thesis using len by (simp add: s_def)
qed

lemma takeWhile_run: "a \<noteq> b \<Longrightarrow> takeWhile (\<lambda>x. x = a) (replicate n a @ b # r) = replicate n a"
  by (induction n) auto

lemma takeWhile_least: "n \<le> length (takeWhile (\<lambda>x. x = a) (replicate n a @ r))"
  by (induction n) auto

text \<open>Smoothing looks ahead. After \<open>m > 1\<close> bars of one label the smoothed label of the next bar is the
  old one if the history ends there, and the new one if \<open>m - 1\<close> more bars of it follow: the value at
  a bar depends on later bars.\<close>

theorem smoothing_looks_ahead:
  assumes "1 < m" "a \<noteq> b"
  shows "persistence_smooth (replicate m a @ [b]) m ! m = a
    \<and> persistence_smooth (replicate m a @ [b] @ replicate (m - 1) b) m ! m = b"
proof -
  have run: "run_length (replicate m a @ b # r) = m" for r
    using takeWhile_run [OF assms(2), of m r] assms(1) by (simp add: run_length_def hd_append)
  have run': "run_length (replicate n x) = n" for n and x :: string by (cases n) (simp_all add: run_length_def)
  have hd: "hd (replicate m a @ r) = a" for r using assms(1) by (cases m) auto
  have tail: "smooth_segments m (Some a) (b # replicate n b) = replicate (Suc n) (if Suc n < m then a else b)" for n
    using run' [of "Suc n" b] by (subst smooth_segments.simps) (simp add: Let_def smooth_segments.simps [of _ _ "[]"])
  have seg: "smooth_segments m None (replicate m a @ b # replicate n b) = replicate m a @ replicate (Suc n) (if Suc n < m then a else b)" for n
    by (subst smooth_None) (simp_all add: run hd tail)
  have ps: "persistence_smooth (replicate m a @ b # replicate n b) m = replicate m a @ replicate (Suc n) (if Suc n < m then a else b)" for n
  proof -
    let ?s = "replicate m a @ replicate (Suc n) (if Suc n < m then a else b)"
    have "m \<le> run_length ?s"
      using takeWhile_least [of m a] assms(1) by (simp add: run_length_def hd_append)
    then show ?thesis by (simp add: persistence_smooth_def seg Let_def)
  qed
  from ps [of 0] ps [of "m - 1"] assms show ?thesis by (auto simp: nth_append)
qed

theorem smoothing_looks_ahead_witness:
  "persistence_smooth [''A'', ''A'', ''A'', ''B''] 3 ! 3 = ''A''"
  using smoothing_looks_ahead [of 3 "''A''" "''B''"] by (simp add: numeral_3_eq_3)

section \<open>The bundle cache over the artifact root\<close>

lemma withdrawal_of_reachable:
  assumes "sync_inv sha fs"
  shows "withdrawal_of fs = Inr (withdrawn fs)"
proof -
  obtain d where "read_state fs = VDict d" using assms by (auto simp: sync_inv_def)
  then show ?thesis by (auto simp: withdrawal_of_def withdrawn_def read_state_def split: option.splits qbody.splits)
qed

lemma on_disk_keeps_models: "keeps_models fs fs' \<Longrightarrow> on_disk_set_id fs' = on_disk_set_id fs"
  by (simp add: keeps_models_def on_disk_set_id_def link_exists_def cong: option.case_cong)

lemma find_artifact_Some:
  assumes "find_artifact link fs = Some c"
  obtains sid d n where "link = Some sid" "map_of (fs_sets fs) sid = Some d" "n \<in> set ARTIFACT_CANDIDATES" "map_of d n = Some c"
proof -
  obtain sid d where sd: "link = Some sid" "map_of (fs_sets fs) sid = Some d"
    using assms by (auto simp: find_artifact_def split: option.splits)
  then obtain n where n: "List.find (\<lambda>n. map_of d n \<noteq> None) ARTIFACT_CANDIDATES = Some n" "c = the (map_of d n)"
    using assms by (auto simp: find_artifact_def)
  then have "n \<in> set ARTIFACT_CANDIDATES" "map_of d n \<noteq> None" by (auto simp: find_Some_iff)
  with sd n(2) that show ?thesis by (metis option.collapse)
qed

text \<open>The bundle of a detector was read from a file of a verified set.\<close>

definition from_verified :: "('c \<Rightarrow> string) \<Rightarrow> ('c \<Rightarrow> 'm regime_bundle res) \<Rightarrow> 'c model_fs \<Rightarrow> 'm detector \<Rightarrow> bool" where
  "from_verified sha load fs dt \<longleftrightarrow> (\<exists>sid d mf a n c b. dt_set dt = Some sid \<and> map_of (fs_sets fs) sid = Some d
     \<and> mf_id mf = sid \<and> verified sha mf d \<and> a \<in> set (mf_artifacts mf) \<and> af_name a = VStr n \<and> af_sha a = VStr (sha c)
     \<and> n \<in> set ARTIFACT_CANDIDATES \<and> map_of d n = Some c \<and> load c = Inr b \<and> check_bundle b = Inr () \<and> dt_bundle dt = Some b)"

lemma try_source_verified:
  assumes "try_source load source link fs dt = Some dt'" "sync_inv sha fs"
  shows "from_verified sha load fs dt'"
proof -
  obtain c where c: "find_artifact link fs = Some c" using assms(1) by (auto simp: try_source_def split: option.splits)
  then obtain b where b: "load c = Inr b" "check_bundle b = Inr ()"
      "dt' = dt\<lparr>dt_bundle := Some b, dt_source := Some source, dt_set := link\<rparr>"
    using assms(1) by (auto simp: try_source_def res_iffs split: sum.splits)
  obtain sid d n where n: "link = Some sid" "map_of (fs_sets fs) sid = Some d" "n \<in> set ARTIFACT_CANDIDATES" "map_of d n = Some c"
    using c by (rule find_artifact_Some)
  obtain mf where mf: "mf_id mf = sid" "verified sha mf d" using assms(2) n(2) by (auto simp: sync_inv_def)
  then obtain a where "a \<in> set (mf_artifacts mf)" "af_name a = VStr n" "af_sha a = VStr (sha c)"
    using n(4) unfolding verified_def by blast
  with n mf b show ?thesis unfolding from_verified_def by auto
qed


text \<open>A root with one verified set, and a bundle that asks for nothing.\<close>

definition fresh_detector :: "'m detector" where
  "fresh_detector = \<lparr>dt_bundle = None, dt_source = None, dt_set = None, dt_seen = None, dt_debouncers = [], dt_last = []\<rparr>"

definition wit_bundle :: "unit regime_bundle" where
  "wit_bundle = \<lparr>bn_models = Some [], bn_features = Some [], bn_direction = None, bn_weights = None\<rparr>"

abbreviation wit_text :: qbody where
  "wit_text \<equiv> JsonBody (VDict (wit_pointer ''s1''))"

lemma wit_active_root:
  obtains fs where "(sync_step wit_downloader)\<^sup>*\<^sup>* (wit_text, fresh_root) (wit_text, fs)" "fs_active fs = Some ''s1''"
    "map_of (fs_sets fs) ''s1'' = Some [(''regime_hmm.pkl'', ''d1'')]" "\<not> withdrawn fs"
proof -
  have fresh: "read_state fresh_root = VDict []" "dget [] ''active_model_set_id'' = name_value (fs_active fresh_root)"
      "fs_active fresh_root \<noteq> Some ''s1''"
    by (simp_all add: fresh_root_def read_state_def)
  obtain fs where fs: "poll_once wit_downloader (\<lambda>n. ''now'') (wit_text, fresh_root) = ((wit_text, fs), Inr True)"
      "fs_active fs = Some ''s1''" "map_of (fs_sets fs) ''s1'' = Some [(''regime_hmm.pkl'', ''d1'')]"
    using wit_activate [OF fresh, of "\<lambda>n. ''now''"] by blast
  then have "on_manifest wit_downloader (\<lambda>n. ''now'') (wit_manifest ''s1'') (wit_text, fresh_root) = ((wit_text, fs), Inr True)"
    by (simp add: poll_once_def wit_fetch)
  then have "\<not> withdrawn fs" using on_manifest_withdrawn sync_inv_fresh by metis
  moreover have "(sync_step wit_downloader)\<^sup>*\<^sup>* (wit_text, fresh_root) (wit_text, fs)"
    using sync_step.polled [OF fs(1)] by blast
  ultimately show ?thesis using fs that by blast
qed


text \<open>A detector that holds no bundle serves nothing from a withdrawn root. In every reachable root
  that is withdrawn, detection does not raise, loads no bundle, fetches no candle and returns an
  observation marked stale.\<close>

theorem withdrawn_root_is_refused:
  assumes "(sync_step dl)\<^sup>*\<^sup>* (w0, fresh_root) (w, fs)" "withdrawn fs" "dt_bundle dt = None"
  shows "\<exists>dt' obs. detect env fs instrument granularity (dt, v) = ((dt', v), Inr obs) \<and> ro_stale obs \<and> dt_bundle dt' = None"
proof -
  have inv: "sync_inv (dl_sha dl) fs" using sync_run_inv [OF assms(1)] sync_inv_fresh [of "dl_sha dl"] by simp
  let ?dt = "dt\<lparr>dt_seen := on_disk_set_id fs, dt_bundle := None, dt_source := None\<rparr>"
  have "load_bundle (re_load env) False fs dt = (?dt, Inr False)"
    using assms(2,3) withdrawal_of_reachable [OF inv] by (simp add: load_bundle_def Let_def)
  then have "detect env fs instrument granularity (dt, v) =
      ((?dt, v), Inr (stale_obs env (instrument, granularity) granularity ''no model bundle'' ?dt))"
    by (simp add: detect_def Let_def)
  moreover have "ro_stale (stale_obs env key g msg x)" for key g msg and x :: "'c detector"
    by (simp add: stale_obs_def split: option.split)
  ultimately show ?thesis by simp
qed

lemma wit_stop_told: "told_to_stop wit_downloader now wit_stop"
  using wit_stop_fetch told_to_stop_fetch by metis

definition wit_env :: "(string, unit, unit, unit, unit) regime_env" where
  "wit_env = \<lparr>re_load = (\<lambda>c. Inr wit_bundle), re_fetch = (\<lambda>i g n w. (w, Inr ())), re_matrix = (\<lambda>b k. Inr None),
     re_posterior = (\<lambda>m w x. Inr []), re_lookback = 120, re_window = 3, re_high = Fin (9 / 10), re_exn_name = (\<lambda>e. ''Exception'')\<rparr>"

theorem withdrawn_root_is_refused_witness:
  "\<exists>(fs :: string model_fs) dt' obs. withdrawn fs \<and> detect wit_env fs ''EUR_USD'' ''H1'' (fresh_detector, ()) = ((dt', ()), Inr obs) \<and> ro_stale obs"
proof -
  obtain wd where wd: "fetch_manifest wit_downloader ''now'' wit_stop = (wit_stop, Inr (Inl wd))" using wit_stop_fetch by blast
  obtain fs :: "string model_fs" where rw: "record_withdrawal (\<lambda>n. ''now'') wd fresh_root = (fs, Inr ())"
    using record_withdrawal_inv [OF sync_inv_fresh [of "\<lambda>c. c"]] by blast
  have "read_state (fresh_root :: string model_fs) = VDict []" by (simp add: fresh_root_def read_state_def)
  from record_withdrawal_withdrawn [OF this rw] have w: "withdrawn fs" by simp
  have "poll_once wit_downloader (\<lambda>n. ''now'') (wit_stop, fresh_root) = ((wit_stop, fs), Inr False)" by (simp add: poll_once_def wd rw)
  then have run: "(sync_step wit_downloader)\<^sup>*\<^sup>* (wit_stop, fresh_root) (wit_stop, fs)" using sync_step.polled by blast
  have "dt_bundle (fresh_detector :: unit detector) = None" by (simp add: fresh_detector_def)
  from withdrawn_root_is_refused [where env = wit_env and v = "()", OF run w this] w show ?thesis by blast
qed

text \<open>A cached bundle outlives the withdrawal of its set. When the detector has loaded a bundle and
  the publisher then withdraws, the poll records the withdrawal but moves no link, so the cache
  check succeeds before the withdrawal is looked at: loading reports success and the detector keeps
  the withdrawn bundle.\<close>

theorem cached_bundle_outlives_withdrawal:
  assumes "(sync_step dl)\<^sup>*\<^sup>* (w0, fresh_root) (w, fs)" "dt_bundle dt = Some b" "dt_seen dt = on_disk_set_id fs"
    and "told_to_stop dl (now 0) w" "poll_once dl now (w, fs) = ((w', fs'), r)"
  shows "withdrawn fs' \<and> load_bundle load False fs' dt = (dt, Inr True)"
proof -
  have inv: "sync_inv (dl_sha dl) fs" using sync_run_inv [OF assms(1)] sync_inv_fresh [of "dl_sha dl"] by simp
  obtain d where d: "read_state fs = VDict d" using inv by (auto simp: sync_inv_def)
  obtain w1 f where f: "fetch_manifest dl (now 0) w = (w1, f)" by force
  then obtain wd where wd: "f = Inr (Inl wd)" using told_to_stop_fetch [OF f] assms(4) by blast
  obtain fs1 r1 where rw: "record_withdrawal now wd fs = (fs1, r1)" by force
  have "fs' = fs1" using assms(5) f wd rw by (auto simp: poll_once_def)
  moreover have "keeps_models fs fs1" using rw d by (auto simp: record_withdrawal_def dest: update_state_models)
  moreover have "withdrawn fs1" using record_withdrawal_withdrawn [OF d rw] by simp
  ultimately have kw: "keeps_models fs fs'" "withdrawn fs'" by blast+
  have same: "on_disk_set_id fs' = dt_seen dt" using on_disk_keeps_models [OF kw(1)] assms(3) by simp
  show ?thesis by (simp add: load_bundle_def assms(2) same kw(2))
qed

theorem cached_bundle_outlives_withdrawal_witness:
  "\<exists>fs :: string model_fs. withdrawn fs \<and> fs_active fs = Some ''s1'' \<and> load_bundle (\<lambda>c. Inr wit_bundle) False fs
       (fresh_detector\<lparr>dt_bundle := Some wit_bundle, dt_seen := Some ''s1''\<rparr>)
     = (fresh_detector\<lparr>dt_bundle := Some wit_bundle, dt_seen := Some ''s1''\<rparr>, Inr True)"
proof -
  let ?dt = "fresh_detector\<lparr>dt_bundle := Some wit_bundle, dt_seen := Some ''s1''\<rparr>"
  obtain fs where fs: "(sync_step wit_downloader)\<^sup>*\<^sup>* (wit_text, fresh_root) (wit_text, fs)" "fs_active fs = Some ''s1''"
    "map_of (fs_sets fs) ''s1'' = Some [(''regime_hmm.pkl'', ''d1'')]" by (rule wit_active_root)
  have run: "(sync_step wit_downloader)\<^sup>*\<^sup>* (wit_text, fresh_root) (wit_stop, fs)"
    using fs(1) by (rule rtranclp.rtrancl_into_rtrancl) (rule sync_step.storage_changed)
  have inv: "sync_inv (dl_sha wit_downloader) fs"
    using sync_run_inv [OF fs(1)] sync_inv_fresh [of "dl_sha wit_downloader"] by simp
  obtain d where d: "read_state fs = VDict d" using inv by (auto simp: sync_inv_def)
  obtain wd where wd: "fetch_manifest wit_downloader ''now'' wit_stop = (wit_stop, Inr (Inl wd))" using wit_stop_fetch by blast
  obtain fs' where rw: "record_withdrawal (\<lambda>n. ''now'') wd fs = (fs', Inr ())"
    using record_withdrawal_inv [OF inv] by blast
  have active: "fs_active fs' = Some ''s1''"
    using rw d fs(2) by (auto simp: record_withdrawal_def keeps_models_def dest!: update_state_models)
  have poll: "poll_once wit_downloader (\<lambda>n. ''now'') (wit_stop, fs) = ((wit_stop, fs'), Inr False)" by (simp add: poll_once_def wd rw)
  have "dt_bundle ?dt = Some wit_bundle" "dt_seen ?dt = on_disk_set_id fs"
    using fs(2,3) by (simp_all add: on_disk_set_id_def link_exists_iff)
  from cached_bundle_outlives_withdrawal [where load = "\<lambda>c :: string. Inr wit_bundle", OF run this wit_stop_told poll] active
  show ?thesis by blast
qed

text \<open>A failed reload is reported once. When the set on disk has changed, is not withdrawn and neither
  source can be loaded, loading reports failure but keeps the old bundle, and every later load
  against the same root reports success with it: observations from the old model set are no longer
  marked stale.\<close>

theorem failed_reload_serves_old_bundle:
  assumes "dt_bundle dt = Some b" "withdrawal_of fs = Inr False" "load_bundle load force fs dt = (dt1, Inr False)"
  shows "dt_bundle dt1 = Some b \<and> dt_set dt1 = dt_set dt \<and> load_bundle load False fs dt1 = (dt1, Inr True)"
proof -
  have "load_sources load fs (dt\<lparr>dt_seen := on_disk_set_id fs\<rparr>) = (dt1, False)"
    using assms(2,3) by (auto simp: load_bundle_def Let_def split: if_splits prod.splits)
  then have "dt1 = dt\<lparr>dt_seen := on_disk_set_id fs\<rparr>" by (auto simp: load_sources_def split: option.splits)
  then show ?thesis using assms(1) by (simp add: load_bundle_def Let_def)
qed

theorem failed_reload_serves_old_bundle_witness:
  "load_bundle (\<lambda>c. Inl ValueError) True (fresh_root :: string model_fs) (fresh_detector\<lparr>dt_bundle := Some wit_bundle\<rparr>)
      = (fresh_detector\<lparr>dt_bundle := Some wit_bundle\<rparr>, Inr False)
    \<and> load_bundle (\<lambda>c. Inl ValueError) False (fresh_root :: string model_fs) (fresh_detector\<lparr>dt_bundle := Some wit_bundle\<rparr>)
      = (fresh_detector\<lparr>dt_bundle := Some wit_bundle\<rparr>, Inr True)"
proof -
  let ?dt = "fresh_detector\<lparr>dt_bundle := Some wit_bundle\<rparr>" and ?fs = "fresh_root :: string model_fs"
  have one: "load_bundle (\<lambda>c. Inl ValueError) True ?fs ?dt = (?dt, Inr False)"
    by (simp add: load_bundle_def load_sources_def try_source_def find_artifact_def withdrawal_of_def fresh_root_def
        fresh_detector_def on_disk_set_id_def link_exists_def Let_def)
  have "dt_bundle ?dt = Some wit_bundle" "withdrawal_of ?fs = Inr False"
    by (simp_all add: withdrawal_of_def fresh_root_def)
  from failed_reload_serves_old_bundle [OF this one] one show ?thesis by blast
qed

end
