(* ===== verification/Lifecycle.thy ===== *)
theory Lifecycle
  imports Outbound_Consumer Close_Tracker Safety_Mode
begin

text \<open>
  \<open>execution/lifecycle.py\<close>: the emergency stop, the runtime's tick, startup reconcile, run loop and
  shutdown, and the two hooks of the production assembly that are written in this file.

  As in the code the components are injected: their operations are fields of \<open>runtime\<close>, functions on
  the rest \<open>'x\<close> of the state that may raise, and those that register or close trades also on the
  position manager's trades. A signal is what the environment has delivered when the latch is read.
\<close>

section \<open>The emergency stop\<close>

type_synonym trades = "(string \<times> managed_trade) list"

text \<open>The latch with its reason, the shutdown flag, the managed trades and everything else.\<close>

record 'x rt_state =
  rs_stop :: "string option"
  rs_done :: bool
  rs_trades :: trades
  rs_rest :: 'x

record 'x broker_ops =
  bk_open_trades :: "('x, pyval) act"
  bk_close :: "string \<Rightarrow> ('x, pyval) act"

record 'x runtime =
  rt_signal :: "'x \<Rightarrow> string option"
  rt_sentinel :: "string option"
  rt_exists :: "string \<Rightarrow> 'x \<Rightarrow> bool"
  rt_now :: "'x \<Rightarrow> instant"
  rt_evaluate :: "instant \<Rightarrow> ('x, safety_state) act"
  rt_poll :: "(trades \<times> 'x, (string \<times> nat) list) act"
  rt_prices :: "('x, (string \<times> pyfloat) list option) act option"
  rt_manage :: "(string \<times> pyfloat) list \<Rightarrow> (trades \<times> 'x, (string \<times> string list) list) act"
  rt_sweep :: "(trades \<times> 'x, unit) act option"
  rt_adapter :: "'x broker_ops option"
  rt_reconcile :: "(pyval \<Rightarrow> ('x, managed_trade option) act) option"
  rt_scheduler :: "(('x, unit) act \<times> ('x, unit) act) option"
  rt_flush :: "('x, nat) act"
  rt_emit_close :: "(managed_trade \<Rightarrow> pyval \<Rightarrow> string \<Rightarrow> ('x, bool) act) option"
  rt_control :: "string \<Rightarrow> pydict \<Rightarrow> ('x, unit) act"
  rt_flatten :: bool

definition trigger :: "string \<Rightarrow> 'x rt_state \<Rightarrow> 'x rt_state" where
  "trigger reason st = (if rs_stop st = None then st\<lparr>rs_stop := Some reason\<rparr> else st)"

definition deliver_signal :: "'x runtime \<Rightarrow> 'x rt_state \<Rightarrow> 'x rt_state" where
  "deliver_signal rt st = (case rt_signal rt (rs_rest st) of None \<Rightarrow> st | Some name \<Rightarrow> trigger (''signal:'' @ name) st)"

definition is_stopped :: "'x runtime \<Rightarrow> 'x rt_state \<Rightarrow> 'x rt_state \<times> bool" where
  "is_stopped rt st0 = (let st = deliver_signal rt st0 in
     if rs_stop st \<noteq> None then (st, True)
     else case rt_sentinel rt of
       Some path \<Rightarrow> if rt_exists rt path (rs_rest st) then (trigger (''sentinel:'' @ path) st, True) else (st, False)
     | None \<Rightarrow> (st, False))"

section \<open>One tick\<close>

text \<open>Running an operation on the rest of the state, or on it together with the trades.\<close>

definition on_rest :: "('x, 'a) act \<Rightarrow> ('x rt_state, 'a) act" where
  "on_rest m st = (case m (rs_rest st) of (x, r) \<Rightarrow> (st\<lparr>rs_rest := x\<rparr>, r))"

definition on_trades :: "(trades \<times> 'x, 'a) act \<Rightarrow> ('x rt_state, 'a) act" where
  "on_trades m st = (case m (rs_trades st, rs_rest st) of ((ts, x), r) \<Rightarrow> (st\<lparr>rs_trades := ts, rs_rest := x\<rparr>, r))"

datatype tick_result =
    Stopped "string option"
  | Ticked safety_state "(string \<times> nat) list" "(string \<times> string list) list"

definition manage_positions :: "'x runtime \<Rightarrow> ('x rt_state, (string \<times> string list) list) act" where
  "manage_positions rt = (case rt_prices rt of
      None \<Rightarrow> sret []
    | Some source \<Rightarrow> sbind (on_rest source) (\<lambda>prices. case prices of
          Some (p # ps) \<Rightarrow> on_trades (rt_manage rt (p # ps))
        | _ \<Rightarrow> sret []))"

definition sweep_closes :: "'x runtime \<Rightarrow> ('x rt_state, unit) act" where
  "sweep_closes rt = (case rt_sweep rt of None \<Rightarrow> sret ()
     | Some closes \<Rightarrow> scatch (\<lambda>_. True) (on_trades closes) (\<lambda>_. sret ()))"

definition running_tick :: "'x runtime \<Rightarrow> ('x rt_state, tick_result) act" where
  "running_tick rt st = sbind (on_rest (rt_evaluate rt (rt_now rt (rs_rest st)))) (\<lambda>state.
     sbind (on_trades (rt_poll rt)) (\<lambda>stats. sbind (manage_positions rt) (\<lambda>managed.
     sbind (sweep_closes rt) (\<lambda>_. sret (Ticked state stats managed))))) st"

definition tick :: "'x runtime \<Rightarrow> ('x rt_state, tick_result) act" where
  "tick rt st = (case is_stopped rt st of
      (st1, True) \<Rightarrow> (st1, Inr (Stopped (rs_stop st1)))
    | (st1, False) \<Rightarrow> running_tick rt st1)"

section \<open>Startup\<close>

text \<open>A trade that cannot be rebuilt is skipped; its id is read in the handler, which raises itself
  when the trade is not a dictionary.\<close>

fun adopt :: "(pyval \<Rightarrow> ('x, managed_trade option) act) \<Rightarrow> pyval list \<Rightarrow> nat \<Rightarrow> ('x rt_state, nat) act" where
  "adopt rebuild [] n st = (st, Inr n)"
| "adopt rebuild (t # ts) n st = (case on_rest (rebuild t) st of
      (st1, Inl e) \<Rightarrow> (case vget t ''id'' of Inl e' \<Rightarrow> (st1, Inl e') | Inr _ \<Rightarrow> adopt rebuild ts n st1)
    | (st1, Inr None) \<Rightarrow> adopt rebuild ts n st1
    | (st1, Inr (Some m)) \<Rightarrow> adopt rebuild ts (Suc n) (st1\<lparr>rs_trades := register m (rs_trades st1)\<rparr>))"

definition startup_reconcile :: "'x runtime \<Rightarrow> ('x rt_state, nat) act" where
  "startup_reconcile rt st = (case (rt_adapter rt, rt_reconcile rt) of
      (Some bk, Some rebuild) \<Rightarrow> (case on_rest (bk_open_trades bk) st of
          (st1, Inl e) \<Rightarrow> (st1, Inr 0)
        | (st1, Inr v) \<Rightarrow> (case py_iter v of Inl e \<Rightarrow> (st1, Inl e) | Inr ts \<Rightarrow> adopt rebuild ts 0 st1))
    | _ \<Rightarrow> (st, Inr 0))"

section \<open>Shutdown\<close>

datatype shutdown_result = Already | Shut string nat nat

text \<open>The flatten loop: the trades after it, the rest of the state and the number closed.\<close>

fun flatten_trades :: "'x runtime \<Rightarrow> 'x broker_ops \<Rightarrow> trades \<Rightarrow> 'x \<Rightarrow> trades \<times> 'x \<times> nat" where
  "flatten_trades rt bk [] x = ([], x, 0)"
| "flatten_trades rt bk ((tid, t) # ts) x =
     (if mt_closed t then (case flatten_trades rt bk ts x of (ts1, x1, n) \<Rightarrow> ((tid, t) # ts1, x1, n))
      else case bk_close bk tid x of
        (x1, Inl e) \<Rightarrow> (case flatten_trades rt bk ts x1 of (ts1, x2, n) \<Rightarrow> ((tid, t) # ts1, x2, n))
      | (x1, Inr resp) \<Rightarrow>
          (let t1 = t\<lparr>mt_closed := True\<rparr>;
               x2 = (case rt_emit_close rt of None \<Rightarrow> x1 | Some em \<Rightarrow> fst (em t1 resp ''flatten'' x1))
           in case flatten_trades rt bk ts x2 of (ts1, x3, n) \<Rightarrow> ((tid, t1) # ts1, x3, Suc n)))"

definition ignore_errors :: "('x, 'a) act \<Rightarrow> 'a \<Rightarrow> 'x rt_state \<Rightarrow> 'x rt_state \<times> 'a" where
  "ignore_errors m d st = (case on_rest m st of (st1, Inl e) \<Rightarrow> (st1, d) | (st1, Inr a) \<Rightarrow> (st1, a))"

definition flatten_all :: "'x runtime \<Rightarrow> 'x rt_state \<Rightarrow> 'x rt_state \<times> nat" where
  "flatten_all rt st = (case (rt_flatten rt, rt_adapter rt) of
      (True, Some bk) \<Rightarrow> (case flatten_trades rt bk (rs_trades st) (rs_rest st) of
          (ts, x, n) \<Rightarrow> (st\<lparr>rs_trades := ts, rs_rest := x\<rparr>, n))
    | _ \<Rightarrow> (st, 0))"

definition shutdown :: "'x runtime \<Rightarrow> string \<Rightarrow> 'x rt_state \<Rightarrow> 'x rt_state \<times> shutdown_result" where
  "shutdown rt reason st0 =
     (if rs_done st0 then (st0, Already)
      else (let st1 = st0\<lparr>rs_done := True\<rparr>;
                st2 = (case rt_scheduler rt of None \<Rightarrow> st1 | Some (start, stop) \<Rightarrow> fst (ignore_errors stop () st1));
                (st3, flushed) = ignore_errors (rt_flush rt) 0 st2;
                (st4, flattened) = flatten_all rt st3;
                (st5, u) = ignore_errors (rt_control rt ''STOPPED''
                  [(''reason'', VStr reason), (''flattened'', VInt (int flattened))]) () st4
            in (st5, Shut reason flushed flattened)))"

section \<open>The run loop\<close>

text \<open>The ticks until the stop, the given number of ticks or an exception; \<open>None\<close> when the fuel runs
  out, which only a loop without a tick limit can do.\<close>

fun run_loop :: "nat \<Rightarrow> 'x runtime \<Rightarrow> nat option \<Rightarrow> nat \<Rightarrow> 'x rt_state \<Rightarrow> ('x rt_state \<times> unit res) option" where
  "run_loop 0 rt max_ticks n st = None"
| "run_loop (Suc fuel) rt max_ticks n st = (case is_stopped rt st of
      (st1, True) \<Rightarrow> Some (st1, Inr ())
    | (st1, False) \<Rightarrow>
        if (case max_ticks of None \<Rightarrow> False | Some m \<Rightarrow> m \<le> n) then Some (st1, Inr ())
        else (case tick rt st1 of (st2, Inl e) \<Rightarrow> Some (st2, Inl e) | (st2, Inr res) \<Rightarrow> run_loop fuel rt max_ticks (Suc n) st2))"

text \<open>Shutdown follows the loop; it is not in a \<open>finally\<close>.\<close>

definition run :: "nat \<Rightarrow> 'x runtime \<Rightarrow> nat option \<Rightarrow> 'x rt_state \<Rightarrow> ('x rt_state \<times> unit res) option" where
  "run fuel rt max_ticks st = (case startup_reconcile rt st of
      (st1, Inl e) \<Rightarrow> Some (st1, Inl e)
    | (st1, Inr adopted) \<Rightarrow>
        (let st2 = (case rt_scheduler rt of None \<Rightarrow> st1 | Some (start, stop) \<Rightarrow> fst (ignore_errors start () st1)) in
         map_option (\<lambda>(st3, r). case r of
             Inl e \<Rightarrow> (st3, Inl e)
           | Inr u \<Rightarrow> (fst (shutdown rt (case rs_stop st3 of None \<Rightarrow> ''loop_exit''
                 | Some reason \<Rightarrow> if reason = [] then ''loop_exit'' else reason) st3), Inr ()))
           (run_loop fuel rt max_ticks 0 st2)))"

section \<open>The assembly\<close>

text \<open>Reading an attribute of the validator: its fields, and nothing else.\<close>

definition validator_attribute :: "order_validator \<Rightarrow> string \<Rightarrow> pyval res" where
  "validator_attribute ov name =
     (if name = ''require_stop_loss'' then Inr (VBool (ov_require_sl ov))
      else if name = ''max_units_per_pair'' then Inr (VFloat (ov_max_units ov))
      else if name = ''max_total_notional'' then Inr (VFloat (ov_max_notional ov))
      else if name = ''max_leverage'' then Inr (VFloat (ov_max_leverage ov))
      else if name = ''tradeable_instruments'' then
        Inr (case ov_tradeable ov of None \<Rightarrow> VNone | Some xs \<Rightarrow> VList (map VStr xs))
      else Inl AttributeError)"

text \<open>A quote that is there and not zero, and the conversion to the account currency: the currency is
  read before anything is asked of the broker.\<close>

definition usable :: "pyfloat option \<Rightarrow> pyfloat option" where
  "usable q = (if q = Some (Fin 0) then None else q)"

definition acct_ccy_per_base :: "order_validator \<Rightarrow> (string \<Rightarrow> ('x, pyfloat option) act) \<Rightarrow> string \<Rightarrow> ('x, pyfloat option) act" where
  "acct_ccy_per_base ov quote instrument =
     (let base = hd (split_on (CHR ''_'') instrument) in
      sbind (slift (validator_attribute ov ''account_currency'')) (\<lambda>ccy.
        if ccy = VStr base then sret (Some (Fin 1))
        else sbind (quote (base @ ''_'' @ py_str ccy)) (\<lambda>direct. case usable direct of
            Some d \<Rightarrow> sret (Some d)
          | None \<Rightarrow> sbind (quote (py_str ccy @ ''_'' @ base)) (\<lambda>inverse. case usable inverse of
                None \<Rightarrow> sret None | Some i \<Rightarrow> slift (emap Some (fl_div (Fin 1) i))))))"

text \<open>The validation hook: \<open>validate\<close> has no parameter \<open>acct_ccy_per_base\<close>, so a call that gets as far
  as making it raises a \<open>TypeError\<close>.\<close>

definition wired_validate :: "order_validator \<Rightarrow> (string \<Rightarrow> ('x, pyfloat option) act) \<Rightarrow> constructed_order \<Rightarrow> ('x, bool \<times> string) act" where
  "wired_validate ov quote c = sbind (acct_ccy_per_base ov quote (co_instrument c)) (\<lambda>rate. sraise TypeError)"

text \<open>The emit hook: the fill is published first, and the registration cannot fail the fill path.\<close>

definition wired_emit :: "(approved_order \<Rightarrow> fill_result \<Rightarrow> ('x, unit) act) \<Rightarrow> ('x \<Rightarrow> instant) \<Rightarrow> approved_order \<Rightarrow>
    constructed_order \<Rightarrow> fill_result \<Rightarrow> (trades \<times> 'x, unit) act" where
  "wired_emit send now ord c fill st = (case send ord fill (snd st) of
      (x, Inl e) \<Rightarrow> ((fst st, x), Inl e)
    | (x, Inr u) \<Rightarrow> (case managed_trade_from_fill (now x) ord (Some c) fill of
          Inr (Some t) \<Rightarrow> ((register t (fst st), x), Inr ())
        | _ \<Rightarrow> ((fst st, x), Inr ())))"

definition open_instruments :: "trades \<Rightarrow> string list" where
  "open_instruments trades = map (mt_instrument \<circ> snd) (filter (\<lambda>x. \<not> mt_closed (snd x)) trades)"

text \<open>The engine behind the consumer and the monitor: the inbound queue, the processed ledger, the
  consumer's lag, the safety monitor and whatever the hooks use. The world of the consumer's hooks
  is the trades, the monitor and that rest.\<close>

record ('q, 's, 'z) engine =
  en_queue :: 'q
  en_store :: 's
  en_lag :: consumer_lag
  en_monitor :: monitor
  en_rest :: 'z

definition wired_evaluate :: "instant \<Rightarrow> (('q, 's, 'z) engine, safety_state) act" where
  "wired_evaluate now en = (case evaluate is_in_session (lg_message (en_lag en)) now (en_monitor en) of
      Inl e \<Rightarrow> (en, Inl e) | Inr m \<Rightarrow> (en\<lparr>en_monitor := m\<rparr>, Inr (sm_state m)))"

text \<open>The consumer with the gate, the heartbeat and the open instruments of the assembly.\<close>

definition wire_consumer :: "('q, 's, trades \<times> monitor \<times> 'z, 'f) consumer \<Rightarrow> ('q, 's, trades \<times> monitor \<times> 'z, 'f) consumer" where
  "wire_consumer oc = oc\<lparr>
     oc_gate := Some (\<lambda>w. can_submit (fst (snd w))),
     oc_heartbeat := Some (\<lambda>sent w. case record_heartbeat (oc_clock oc w) (Some sent) (fst (snd w)) of
         (m, credited) \<Rightarrow> ((fst w, m, snd (snd w)), Inr credited)),
     oc_open := (\<lambda>w. (w, Inr (open_instruments (fst w))))\<rparr>"

definition wired_poll :: "('q, 's, trades \<times> monitor \<times> 'z, 'f) consumer \<Rightarrow> (trades \<times> ('q, 's, 'z) engine, (string \<times> nat) list) act" where
  "wired_poll oc te = (case poll_once (wire_consumer oc) \<lparr>cs_queue = en_queue (snd te), cs_store = en_store (snd te),
        cs_world = (fst te, en_monitor (snd te), en_rest (snd te)), cs_lag = en_lag (snd te)\<rparr> of
      (st, r) \<Rightarrow> (case cs_world st of (ts, m, z) \<Rightarrow>
        ((ts, \<lparr>en_queue = cs_queue st, en_store = cs_store st, en_lag = cs_lag st, en_monitor = m, en_rest = z\<rparr>), r)))"

text \<open>The runtime with its first two steps as assembled; no price source is passed to it.\<close>

definition wire_runtime :: "('q, 's, trades \<times> monitor \<times> 'z, 'f) consumer \<Rightarrow> ('q, 's, 'z) engine runtime \<Rightarrow> ('q, 's, 'z) engine runtime" where
  "wire_runtime oc rt = rt\<lparr>rt_evaluate := wired_evaluate, rt_poll := wired_poll oc, rt_prices := None\<rparr>"

end
