(* ===== verification/Lifecycle_Laws.thy ===== *)
theory Lifecycle_Laws
  imports Lifecycle Outbound_Laws
begin

text \<open>
  What the runtime guarantees: the stop latch, the end of the run and shutdown, the flatten loop, the
  adoption of open trades, and two properties of the whole tick as it is assembled: with the gate
  closed, and with the validation hook the assembly passes, no order reaches the submit hook.
\<close>

section \<open>The stop latch\<close>

lemma deliver_signal_rest [simp]: "rs_rest (deliver_signal rt st) = rs_rest st" "rs_trades (deliver_signal rt st) = rs_trades st"
  "rs_done (deliver_signal rt st) = rs_done st"
  by (simp_all add: deliver_signal_def trigger_def split: option.split)

lemma deliver_signal_set [simp]: "rs_stop st = Some r \<Longrightarrow> deliver_signal rt st = st"
  by (simp add: deliver_signal_def trigger_def split: option.split)

lemma is_stopped_set [simp]: "rs_stop st = Some r \<Longrightarrow> is_stopped rt st = (st, True)"
  by (simp add: is_stopped_def)

lemma is_stopped_True:
  assumes "is_stopped rt st = (st1, True)"
  shows "rs_stop st1 \<noteq> None" "rs_rest st1 = rs_rest st" "rs_trades st1 = rs_trades st" "rs_done st1 = rs_done st"
  using assms by (auto simp: is_stopped_def trigger_def Let_def split: if_splits option.splits)

lemma is_stopped_False: "is_stopped rt st = (st1, False) \<Longrightarrow> st1 = deliver_signal rt st \<and> rs_stop st1 = None"
  by (auto simp: is_stopped_def Let_def split: if_splits option.splits)

text \<open>The emergency stop halts everything and holds. When the latch has been set, a signal has
  arrived or the sentinel file exists, a tick touches neither the trades nor anything else of the
  engine and reports itself stopped with the reason it latched, and so does every later tick, with
  the same first reason, whatever happens to the signal or the file.\<close>

theorem stop_is_immediate_and_latched:
  assumes "rs_stop st \<noteq> None \<or> rt_signal rt (rs_rest st) \<noteq> None \<or> (\<exists>path. rt_sentinel rt = Some path \<and> rt_exists rt path (rs_rest st))"
  shows "\<exists>reason. tick rt st = (st\<lparr>rs_stop := Some reason\<rparr>, Inr (Stopped (Some reason)))
    \<and> (rs_stop st = Some r \<longrightarrow> reason = r)
    \<and> (\<forall>rt'. tick rt' (st\<lparr>rs_stop := Some reason\<rparr>) = (st\<lparr>rs_stop := Some reason\<rparr>, Inr (Stopped (Some reason))))"
proof -
  have "\<exists>reason. is_stopped rt st = (st\<lparr>rs_stop := Some reason\<rparr>, True) \<and> (rs_stop st = Some r \<longrightarrow> reason = r)"
  proof (cases "rs_stop st")
    case None
    then show ?thesis using assms by (auto simp: is_stopped_def deliver_signal_def trigger_def Let_def split: option.splits)
  next
    case (Some y)
    then have "st\<lparr>rs_stop := Some y\<rparr> = st" by (cases st) simp
    with Some show ?thesis by (intro exI [of _ y]) simp
  qed
  then show ?thesis by (auto simp: tick_def)
qed

definition wit_rt_state :: "unit rt_state" where
  "wit_rt_state = \<lparr>rs_stop = None, rs_done = False, rs_trades = [], rs_rest = ()\<rparr>"

definition wit_runtime :: "'x runtime" where
  "wit_runtime = \<lparr>rt_signal = (\<lambda>x. None), rt_sentinel = Some ''STOP'', rt_exists = (\<lambda>p x. True), rt_now = (\<lambda>x. 0),
     rt_evaluate = (\<lambda>n. sret RUNNING), rt_poll = sret [], rt_prices = None, rt_manage = (\<lambda>p. sret []), rt_sweep = None,
     rt_adapter = None, rt_reconcile = None, rt_scheduler = None, rt_flush = sret 0, rt_emit_close = None,
     rt_control = (\<lambda>e p. sret ()), rt_flatten = False\<rparr>"

theorem stop_is_immediate_and_latched_witness:
  "\<exists>reason. tick wit_runtime wit_rt_state = (wit_rt_state\<lparr>rs_stop := Some reason\<rparr>, Inr (Stopped (Some reason)))"
  using stop_is_immediate_and_latched [of wit_rt_state wit_runtime] by (simp add: wit_runtime_def) blast

section \<open>The end of a run\<close>

lemma on_rest_fields: "on_rest m st = (st1, r) \<Longrightarrow> rs_stop st1 = rs_stop st \<and> rs_done st1 = rs_done st \<and> rs_trades st1 = rs_trades st"
  by (auto simp: on_rest_def split: prod.splits)

lemma on_trades_fields: "on_trades m st = (st1, r) \<Longrightarrow> rs_stop st1 = rs_stop st \<and> rs_done st1 = rs_done st"
  by (auto simp: on_trades_def split: prod.splits)

definition marks :: "string option \<times> bool \<Rightarrow> 'x rt_state \<Rightarrow> bool" where
  "marks m st \<longleftrightarrow> (rs_stop st, rs_done st) = m"

lemma keeps_on_rest: "keeps (marks m) (on_rest a)"
  by (auto simp: keeps_def marks_def on_rest_def split: prod.split)

lemma keeps_on_trades: "keeps (marks m) (on_trades a)"
  by (auto simp: keeps_def marks_def on_trades_def split: prod.split)

lemma keeps_running_tick: "keeps (marks m) (running_tick rt)"
proof -
  have "keeps (marks m) (manage_positions rt)"
    unfolding manage_positions_def
    by (intro keeps_intros keeps_on_rest keeps_on_trades) (auto intro: keeps_intros keeps_on_trades split: option.split list.split)
  moreover have "keeps (marks m) (sweep_closes rt)"
    unfolding sweep_closes_def by (intro keeps_intros keeps_on_trades)
  ultimately have "keeps (marks m) (\<lambda>st. sbind (on_rest (rt_evaluate rt n)) (\<lambda>state. sbind (on_trades (rt_poll rt))
      (\<lambda>stats. sbind (manage_positions rt) (\<lambda>managed. sbind (sweep_closes rt) (\<lambda>_. sret (Ticked state stats managed))))) st)" for n
    by (intro keeps_intros keeps_on_rest keeps_on_trades)
  then show ?thesis by (simp add: keeps_def running_tick_def)
qed

lemma is_stopped_done: "is_stopped rt st = (st1, b) \<Longrightarrow> rs_done st1 = rs_done st"
  by (cases b) (auto dest: is_stopped_True is_stopped_False)

lemma tick_done:
  assumes "tick rt st = (st1, r)"
  shows "rs_done st1 = rs_done st"
proof -
  obtain st0 b where s: "is_stopped rt st = (st0, b)" by force
  show ?thesis
  proof (cases b)
    case True
    with assms s is_stopped_done [OF s] show ?thesis by (simp add: tick_def)
  next
    case False
    then have "running_tick rt st0 = (st1, r)" using assms s by (simp add: tick_def)
    then have "marks (rs_stop st0, rs_done st0) st1" using keepsD [OF keeps_running_tick] by (metis marks_def)
    then show ?thesis using is_stopped_done [OF s] by (simp add: marks_def)
  qed
qed

lemma run_loop_done: "run_loop fuel rt mt n st = Some (st1, r) \<Longrightarrow> rs_done st1 = rs_done st"
proof (induction fuel arbitrary: n st)
  case (Suc fuel)
  obtain s b where s: "is_stopped rt st = (s, b)" by force
  obtain s2 r2 where t: "tick rt s = (s2, r2)" by force
  have "rs_done s2 = rs_done st" using tick_done [OF t] is_stopped_done [OF s] by simp
  then show ?case using Suc is_stopped_done [OF s] s t
    by (cases b; cases r2) (auto split: if_splits)
qed simp

lemma adopt_done: "adopt rebuild ts n st = (st1, r) \<Longrightarrow> rs_done st1 = rs_done st"
proof (induction rebuild ts n st rule: adopt.induct)
  case (2 rebuild t ts n st)
  obtain s r0 where s: "on_rest (rebuild t) st = (s, r0)" by force
  have "rs_done s = rs_done st" using on_rest_fields [OF s] by simp
  then show ?case using 2 s
    by (cases r0) (auto split: sum.splits option.splits)
qed simp

lemma startup_done: "startup_reconcile rt st = (st1, r) \<Longrightarrow> rs_done st1 = rs_done st"
proof -
  assume a: "startup_reconcile rt st = (st1, r)"
  show ?thesis
  proof (cases "rt_adapter rt = None \<or> rt_reconcile rt = None")
    case True
    with a show ?thesis by (auto simp: startup_reconcile_def split: option.splits)
  next
    case False
    then obtain bk rebuild where b: "rt_adapter rt = Some bk" "rt_reconcile rt = Some rebuild" by auto
    obtain s r0 where s: "on_rest (bk_open_trades bk) st = (s, r0)" by force
    have "rs_done s = rs_done st" using on_rest_fields [OF s] by simp
    with a b s show ?thesis by (cases r0) (auto simp: startup_reconcile_def dest: adopt_done split: sum.splits)
  qed
qed

lemma ignore_errors_done [simp]: "rs_done (fst (ignore_errors m d st)) = rs_done st"
proof -
  obtain s r where s: "on_rest m st = (s, r)" by force
  with on_rest_fields [OF s] show ?thesis by (cases r) (simp_all add: ignore_errors_def)
qed

lemma flatten_all_done [simp]: "rs_done (fst (flatten_all rt st)) = rs_done st"
  by (auto simp: flatten_all_def split: bool.split option.split prod.split)

lemma shutdown_done: "rs_done (fst (shutdown rt reason st))"
  unfolding shutdown_def Let_def case_prod_unfold by (auto split: option.split)

text \<open>C34: Shutdown belongs to the normal end of the run only. A run that started before any shutdown
  leaves the shutdown done exactly when it returns normally: an exception in a tick or in the startup
  reconcile leaves the run without flushing the outbox, flattening or announcing the stop.\<close>

theorem shutdown_iff_normal_end:
  assumes "run fuel rt max_ticks st = Some (st', r)" "\<not> rs_done st"
  shows "rs_done st' \<longleftrightarrow> r = Inr ()"
proof -
  obtain s1 r1 where s1: "startup_reconcile rt st = (s1, r1)" by force
  note d1 = startup_done [OF s1]
  show ?thesis
  proof (cases r1)
    case (Inl e)
    with assms s1 d1 show ?thesis by (auto simp: run_def)
  next
    case (Inr k)
    let ?s2 = "case rt_scheduler rt of None \<Rightarrow> s1 | Some (start, stop) \<Rightarrow> fst (ignore_errors start () s1)"
    have d2: "rs_done ?s2 = rs_done st" using d1 by (simp split: option.split prod.split)
    obtain s3 r3 where l: "run_loop fuel rt max_ticks 0 ?s2 = Some (s3, r3)"
        "(st', r) = (case r3 of Inl e \<Rightarrow> (s3, Inl e) | Inr u \<Rightarrow> (fst (shutdown rt (case rs_stop s3 of None \<Rightarrow> ''loop_exit''
                 | Some reason \<Rightarrow> if reason = [] then ''loop_exit'' else reason) s3), Inr ()))"
      using assms(1) s1 Inr by (auto simp: run_def Let_def)
    have "rs_done s3 = rs_done st" using run_loop_done [OF l(1)] d2 by simp
    then show ?thesis using l(2) assms(2) shutdown_done by (cases r3) auto
  qed
qed

theorem shutdown_iff_normal_end_witness:
  "run 1 (wit_runtime\<lparr>rt_poll := sraise TypeError, rt_sentinel := None\<rparr>) None wit_rt_state = Some (wit_rt_state, Inl TypeError)
    \<and> \<not> rs_done wit_rt_state"
proof -
  have r: "run 1 (wit_runtime\<lparr>rt_poll := sraise TypeError, rt_sentinel := None\<rparr>) None wit_rt_state = Some (wit_rt_state, Inl TypeError)"
    by (simp add: run_def startup_reconcile_def is_stopped_def deliver_signal_def tick_def running_tick_def on_rest_def
        on_trades_def sbind_def wit_runtime_def wit_rt_state_def)
  from shutdown_iff_normal_end [OF r] r show ?thesis by (simp add: wit_rt_state_def)
qed

section \<open>Flattening and adoption\<close>

text \<open>A broker that keeps the list of the trades it was asked to close, beside a state of its own.\<close>

definition logs_closes :: "(string list \<times> 'x) broker_ops \<Rightarrow> bool" where
  "logs_closes bk \<longleftrightarrow> (\<forall>tid l x. fst (fst (bk_close bk tid (l, x))) = l @ [tid])"

definition spares_log :: "(string list \<times> 'x) runtime \<Rightarrow> bool" where
  "spares_log rt \<longleftrightarrow> (\<forall>em t resp reason w. rt_emit_close rt = Some em \<longrightarrow> fst (fst (em t resp reason w)) = fst w)"

definition open_ids :: "trades \<Rightarrow> string list" where
  "open_ids ts = map fst (filter (\<lambda>x. \<not> mt_closed (snd x)) ts)"

lemma open_ids_simps [simp]: "open_ids [] = []"
  "open_ids ((k, t) # ts) = (if mt_closed t then open_ids ts else k # open_ids ts)"
  by (simp_all add: open_ids_def)

definition closes_only :: "managed_trade \<Rightarrow> managed_trade \<Rightarrow> bool" where
  "closes_only t t' \<longleftrightarrow> t' = t \<or> (\<not> mt_closed t \<and> t' = t\<lparr>mt_closed := True\<rparr>)"

text \<open>Flattening asks once for every open trade. Whatever the broker answers or raises, and whatever
  the emission of the closes does, the broker is asked to close exactly the open trades, each once and
  in order; a trade changes only by being marked closed, and the number reported is the number of
  trades that are no longer open.\<close>

theorem flatten_closes_each_once:
  assumes "logs_closes bk" "spares_log rt" "flatten_trades rt bk ts (l, x) = (ts', (l', x'), n)"
  shows "l' = l @ open_ids ts \<and> list_all2 (\<lambda>a b. fst a = fst b \<and> closes_only (snd a) (snd b)) ts ts'
    \<and> length (open_ids ts) = length (open_ids ts') + n"
  using assms(3)
proof (induction ts arbitrary: l x ts' l' x' n)
  case (Cons a ts)
  obtain tid t where a: "a = (tid, t)" by force
  show ?case
  proof (cases "mt_closed t")
    case True
    obtain ts1 w1 k where f: "flatten_trades rt bk ts (l, x) = (ts1, w1, k)" by (cases "flatten_trades rt bk ts (l, x)")
    with Cons.prems True a have "ts' = (tid, t) # ts1" "w1 = (l', x')" "k = n" by auto
    with Cons.IH [of l x ts1 l' x' n] f True a show ?thesis by (simp add: closes_only_def)
  next
    case False
    obtain l1 x1 r where c: "bk_close bk tid (l, x) = ((l1, x1), r)" by (metis surj_pair)
    have l1: "l1 = l @ [tid]" using assms(1) c unfolding logs_closes_def by (metis fst_conv)
    show ?thesis
    proof (cases r)
      case (Inl e)
      obtain ts1 w1 k where f: "flatten_trades rt bk ts (l1, x1) = (ts1, w1, k)" by (cases "flatten_trades rt bk ts (l1, x1)")
      with Cons.prems False Inl c a have "ts' = (tid, t) # ts1" "w1 = (l', x')" "k = n" by auto
      with Cons.IH [of l1 x1 ts1 l' x' n] f False a l1 show ?thesis by (simp add: closes_only_def)
    next
      case (Inr resp)
      obtain l2 x2 where em: "(case rt_emit_close rt of None \<Rightarrow> (l1, x1)
          | Some em \<Rightarrow> fst (em (t\<lparr>mt_closed := True\<rparr>) resp ''flatten'' (l1, x1))) = (l2, x2)" by force
      have l2: "l2 = l1"
      proof (cases "rt_emit_close rt")
        case None
        with em show ?thesis by simp
      next
        case (Some e)
        then have "fst (fst (e (t\<lparr>mt_closed := True\<rparr>) resp ''flatten'' (l1, x1))) = l1" using assms(2) by (simp add: spares_log_def)
        with Some em show ?thesis by simp
      qed
      obtain ts1 w1 k where f: "flatten_trades rt bk ts (l2, x2) = (ts1, w1, k)" by (cases "flatten_trades rt bk ts (l2, x2)")
      with Cons.prems False Inr c em a have "ts' = (tid, t\<lparr>mt_closed := True\<rparr>) # ts1" "w1 = (l', x')" "n = Suc k"
        by (auto simp: Let_def)
      with Cons.IH [of l2 x2 ts1 l' x' k] f False a l1 l2 show ?thesis by (simp add: closes_only_def)
    qed
  qed
qed simp

definition wit_open :: managed_trade where
  "wit_open = \<lparr>mt_id = ''7'', mt_instrument = ''EUR_USD'', mt_side = ''BUY'', mt_entry = Fin 1, mt_initial = Fin 0, mt_target = Fin 0,
     mt_opened = 0, mt_gran = VStr ''H1'', mt_max_duration = Fin 0, mt_corr = VStr [], mt_stop = Fin 0, mt_at_breakeven = False,
     mt_done = {}, mt_closed = False, mt_order_id = None\<rparr>"

definition wit_refusing :: "(string list \<times> unit) broker_ops" where
  "wit_refusing = \<lparr>bk_open_trades = sret VNone, bk_close = (\<lambda>tid w. ((fst w @ [tid], ()), Inl BrokerError))\<rparr>"

theorem flatten_closes_each_once_witness:
  "fst (fst (snd (flatten_trades wit_runtime wit_refusing [(''7'', wit_open), (''8'', wit_open\<lparr>mt_closed := True\<rparr>), (''9'', wit_open)] ([], ()))))
     = [''7'', ''9'']"
proof -
  let ?ts = "[(''7'', wit_open), (''8'', wit_open\<lparr>mt_closed := True\<rparr>), (''9'', wit_open)]"
  obtain ts' l' x' n where f: "flatten_trades wit_runtime wit_refusing ?ts ([], ()) = (ts', (l', x'), n)"
    by (metis surj_pair)
  have "logs_closes wit_refusing" "spares_log (wit_runtime :: (string list \<times> unit) runtime)"
    by (simp_all add: logs_closes_def wit_refusing_def spares_log_def wit_runtime_def)
  from flatten_closes_each_once [OF this f] have "l' = open_ids ?ts" by simp
  then show ?thesis unfolding f by (simp add: wit_open_def)
qed

text \<open>A restart adopts every open trade it can rebuild. When the broker answers with a list of
  dictionaries, startup never raises, registers in order exactly the trades whose rebuilding returned
  one, and reports their number, skipping the others.\<close>

theorem startup_adopts_rebuildable:
  assumes "rt_adapter rt = Some bk" "rt_reconcile rt = Some (\<lambda>t x. (x, rebuild t))"
    and "bk_open_trades bk (rs_rest st) = (x, Inr (VList (map VDict ds)))"
  shows "startup_reconcile rt st = (st\<lparr>rs_rest := x,
      rs_trades := fold register (concat (map (\<lambda>d. case rebuild (VDict d) of Inr (Some m) \<Rightarrow> [m] | _ \<Rightarrow> []) ds)) (rs_trades st)\<rparr>,
    Inr (length (filter (\<lambda>d. \<exists>m. rebuild (VDict d) = Inr (Some m)) ds)))"
proof -
  let ?built = "\<lambda>ds. concat (map (\<lambda>d. case rebuild (VDict d) of Inr (Some m) \<Rightarrow> [m] | _ \<Rightarrow> []) ds)"
  have "adopt (\<lambda>t x. (x, rebuild t)) (map VDict ds) n s =
      (s\<lparr>rs_trades := fold register (?built ds) (rs_trades s)\<rparr>, Inr (n + length (filter (\<lambda>d. \<exists>m. rebuild (VDict d) = Inr (Some m)) ds)))"
    for n and s :: "'a rt_state"
  proof (induction ds arbitrary: n s)
    case (Cons d ds)
    have rest: "on_rest (\<lambda>x. (x, rebuild (VDict d))) s = (s, rebuild (VDict d))" by (cases s) (simp add: on_rest_def)
    show ?case
    proof (cases "rebuild (VDict d)")
      case (Inl e)
      with Cons rest show ?thesis by simp
    next
      case (Inr m)
      with Cons rest show ?thesis by (cases m) simp_all
    qed
  qed simp
  then show ?thesis using assms by (simp add: startup_reconcile_def on_rest_def)
qed

theorem startup_adopts_rebuildable_witness:
  "snd (startup_reconcile (wit_runtime\<lparr>rt_adapter := Some \<lparr>bk_open_trades = sret (VList (map VDict [[], []])), bk_close = (\<lambda>t. sret VNone)\<rparr>,
     rt_reconcile := Some (\<lambda>t x. (x, Inr (Some wit_open)))\<rparr>) wit_rt_state) = Inr 2"
  by (subst startup_adopts_rebuildable [where ds = "[[], []]"]) (auto simp: act_simps)

section \<open>The assembled tick\<close>

text \<open>The same consumer with another way of submitting; equality of two runs says that submitting was
  never reached.\<close>

definition with_submit :: "(constructed_order \<Rightarrow> ('w, 'f) act) option \<Rightarrow> ('q, 's, 'w, 'f) consumer \<Rightarrow> ('q, 's, 'w, 'f) consumer" where
  "with_submit sub oc = oc\<lparr>oc_hooks := (\<lambda>ord. (oc_hooks oc ord)\<lparr>hk_submit := sub\<rparr>)\<rparr>"

lemma with_submit_simps [simp]: "oc_queue (with_submit sub oc) = oc_queue oc" "oc_gate (with_submit sub oc) = oc_gate oc"
  "oc_processed (with_submit sub oc) = oc_processed oc" "oc_pipeline (with_submit sub oc) = oc_pipeline oc"
  "oc_price (with_submit sub oc) = oc_price oc" "oc_open (with_submit sub oc) = oc_open oc"
  "oc_heartbeat (with_submit sub oc) = oc_heartbeat oc" "oc_max_age (with_submit sub oc) = oc_max_age oc"
  "oc_park (with_submit sub oc) = oc_park oc" "oc_clock (with_submit sub oc) = oc_clock oc"
  "oc_qclock (with_submit sub oc) = oc_qclock oc" "oc_reason (with_submit sub oc) = oc_reason oc"
  "oc_subscription (with_submit sub oc) = oc_subscription oc" "oc_prefetch (with_submit sub oc) = oc_prefetch oc"
  "oc_hooks (with_submit sub oc) ord = (oc_hooks oc ord)\<lparr>hk_submit := sub\<rparr>"
  by (simp_all add: with_submit_def)

lemma wire_with_submit: "wire_consumer (with_submit sub oc) = with_submit sub (wire_consumer oc)"
  by (simp add: wire_consumer_def with_submit_def)

lemma message_with_submit [simp]: "ack_msg (with_submit sub oc) = ack_msg oc" "nack_msg (with_submit sub oc) = nack_msg oc"
  "dlq_msg (with_submit sub oc) = dlq_msg oc"
  by (simp_all add: fun_eq_iff ack_msg_def nack_msg_def dlq_msg_def)

lemma heartbeat_with_submit [simp]: "handle_heartbeat (with_submit sub oc) = handle_heartbeat oc"
  by (intro ext) (simp only: handle_heartbeat_def message_with_submit with_submit_simps)

text \<open>What one message must not do for a whole poll not to submit.\<close>

definition submit_free :: "('q, 's, 'w, 'f) consumer \<Rightarrow> ('s \<Rightarrow> 'w \<Rightarrow> bool) \<Rightarrow> bool" where
  "submit_free oc P \<longleftrightarrow> (\<forall>sub now m st st' r. P (cs_store st) (cs_world st) \<longrightarrow> handle oc now m st = (st', r) \<longrightarrow>
     handle (with_submit sub oc) now m st = (st', r) \<and> P (cs_store st') (cs_world st'))"

lemma submit_free_batch:
  assumes "submit_free oc P" "P (cs_store st) (cs_world st)" "handle_batch oc now ms stats st = (st', r)"
  shows "handle_batch (with_submit sub oc) now ms stats st = (st', r) \<and> P (cs_store st') (cs_world st')"
  using assms(2,3)
proof (induction ms arbitrary: st stats)
  case (Cons m ms)
  obtain st1 r1 where h: "handle oc now m st = (st1, r1)" by (cases "handle oc now m st")
  then have "handle (with_submit sub oc) now m st = (st1, r1)" "P (cs_store st1) (cs_world st1)"
    using assms(1) Cons.prems(1) unfolding submit_free_def by blast+
  with Cons h show ?case by (cases r1) auto
qed simp

lemma submit_free_poll:
  assumes "submit_free oc P" "P (cs_store st) (cs_world st)" "Outbound_Consumer.poll_once oc st = (st', r)"
  shows "Outbound_Consumer.poll_once (with_submit sub oc) st = (st', r) \<and> P (cs_store st') (cs_world st')"
proof -
  let ?now = "oc_clock oc (cs_world st)"
  let ?st = "st\<lparr>cs_lag := (cs_lag st)\<lparr>lg_poll := Some ?now\<rparr>\<rparr>"
  obtain q b where pull: "so_pull (oc_queue oc) (oc_qclock oc (cs_world st)) (oc_subscription oc) (oc_prefetch oc) (cs_queue st) = (q, b)"
    by force
  show ?thesis
  proof (cases b)
    case (Inl e)
    with assms(2,3) pull show ?thesis by (auto simp: Outbound_Consumer.poll_once_def Let_def)
  next
    case (Inr batch)
    with assms(3) pull have "handle_batch oc ?now batch [] (?st\<lparr>cs_queue := q\<rparr>) = (st', r)"
      by (simp add: Outbound_Consumer.poll_once_def Let_def)
    from submit_free_batch [OF assms(1) _ this] assms(2) pull Inr show ?thesis by (simp add: Outbound_Consumer.poll_once_def Let_def)
  qed
qed

text \<open>A closed gate: a heartbeat touches the monitor's clock only.\<close>

lemma heartbeat_keeps_gate: "record_heartbeat now sent m = (m', ok) \<Longrightarrow> sm_state m' = sm_state m"
  by (auto simp: record_heartbeat_def Let_def split: if_splits option.splits)

lemma submit_free_closed:
  "submit_free (wire_consumer oc) (\<lambda>s w. s = s0 \<and> fst w = ts0 \<and> snd (snd w) = z0 \<and> \<not> can_submit (fst (snd w)))"
  unfolding submit_free_def
proof (intro allI impI)
  fix sub now m and st st' :: "('a, 'b, trades \<times> monitor \<times> 'c) cstate" and r
  let ?P = "\<lambda>s w. s = s0 \<and> fst w = ts0 \<and> snd (snd w) = z0 \<and> \<not> can_submit (fst (snd w))"
  assume P: "?P (cs_store st) (cs_world st)" and h: "handle (wire_consumer oc) now m st = (st', r)"
  have closed: "gate_closed (wire_consumer oc) (cs_world st)" using P by (simp add: gate_closed_def wire_consumer_def)
  have order: "handle_order (with_submit sub (wire_consumer oc)) m now ord x = handle_order (wire_consumer oc) m now ord x"
    if "cs_world x = cs_world st" for ord x
    using closed that by (simp add: handle_order_def gate_closed_def wire_consumer_def)
  have same: "handle (with_submit sub (wire_consumer oc)) now m st = handle (wire_consumer oc) now m st"
    by (auto simp: handle_def handle_valid_def order Let_def split: pyval.split sum.split vresult.split bool.split prod.split)
  have "?P (cs_store st') (cs_world st')"
  proof (cases "is_heartbeat m")
    case False
    from closed_gate_handle [OF closed False h] P show ?thesis by simp
  next
    case True
    then obtain raw where "handle_heartbeat (wire_consumer oc) m raw st = (st', r)"
      using h by (auto simp: is_heartbeat_def handle_def split: pyval.splits)
    then have "cs_store st' = cs_store st" "cs_world st' = cs_world st \<or>
        (\<exists>t n m' ok. record_heartbeat n t (fst (snd (cs_world st))) = (m', ok) \<and> cs_world st' = (fst (cs_world st), m', snd (snd (cs_world st))))"
      by (auto simp: handle_heartbeat_def wire_consumer_def ack_msg_def split: sum.splits option.splits prod.splits)
    then show ?thesis using P heartbeat_keeps_gate by (auto simp: can_submit_def)
  qed
  with same h show "handle (with_submit sub (wire_consumer oc)) now m st = (st', r) \<and> ?P (cs_store st') (cs_world st')" by simp
qed

text \<open>The validation hook of the assembly: no order gets past it.\<close>

lemma wired_validate_raises: "wired_validate ov quote c w = (w, Inl AttributeError)"
  by (simp add: wired_validate_def acct_ccy_per_base_def validator_attribute_def Let_def)

definition validates_as_wired :: "order_validator \<Rightarrow> ('q, 's, 'w, 'f) consumer \<Rightarrow> bool" where
  "validates_as_wired ov oc \<longleftrightarrow> (\<forall>ord. \<exists>quote. hk_validate (oc_hooks oc ord) = Some (wired_validate ov quote))"

lemma wired_process:
  assumes "hk_validate h = Some (wired_validate ov quote)"
  shows "process ops pl (h\<lparr>hk_submit := sub\<rparr>) now ord entry opens sw = process ops pl h now ord entry opens sw"
    "fst (fst (process ops pl h now ord entry opens sw)) = fst sw"
  using assms by (simp_all add: process_def wired_validate_raises split: sum.split)

lemma heartbeat_store: "cs_store (fst (handle_heartbeat oc m raw st)) = cs_store st"
  by (auto simp: handle_heartbeat_def ack_msg_def split: sum.split option.split prod.split)

lemma submit_free_wired:
  assumes "validates_as_wired ov oc"
  shows "submit_free oc (\<lambda>s w. s = s0)"
  unfolding submit_free_def
proof (intro allI impI)
  fix sub now m st st' r
  assume P: "cs_store st = s0" and h: "handle oc now m st = (st', r)"
  have pipe: "run_pipeline (with_submit sub oc) ord sw = run_pipeline oc ord sw" "fst (fst (run_pipeline oc ord sw)) = fst sw" for ord sw
  proof -
    obtain quote where q: "hk_validate (oc_hooks oc ord) = Some (wired_validate ov quote)"
      using assms unfolding validates_as_wired_def by blast
    obtain w1 r1 where price: "oc_price oc ord (snd sw) = (w1, r1)" by force
    obtain w2 r2 where opens: "oc_open oc w1 = (w2, r2)" by force
    show "run_pipeline (with_submit sub oc) ord sw = run_pipeline oc ord sw" "fst (fst (run_pipeline oc ord sw)) = fst sw"
      by (cases r1; cases r2; simp add: run_pipeline_def price opens wired_process [OF q])+
  qed
  have order: "handle_order (with_submit sub oc) m now ord x = handle_order oc m now ord x"
    "cs_store (fst (handle_order oc m now ord x)) = cs_store x" for ord x
    using pipe(2) [of ord "(cs_store x, cs_world x)"]
    by (auto simp: handle_order_def execute_order_def pipe(1) ack_msg_def nack_msg_def Let_def split: option.split prod.split sum.split)
  have "handle (with_submit sub oc) now m st = handle oc now m st"
    by (auto simp: handle_def handle_valid_def order Let_def split: pyval.split sum.split vresult.split bool.split prod.split)
  moreover have "cs_store (fst (handle oc now m st)) = cs_store st"
  proof -
    have "cs_store (fst (handle_valid oc m now raw x)) = cs_store x" for raw x
      using order(2) by (simp add: handle_valid_def Let_def split: sum.split bool.split prod.split)
    then show ?thesis
      by (simp add: handle_def heartbeat_store dlq_msg_def split: pyval.split sum.split vresult.split)
  qed
  ultimately show "handle (with_submit sub oc) now m st = (st', r) \<and> cs_store st' = s0" using h P by simp
qed

text \<open>From the poll to the tick.\<close>

lemma wire_runtime_simps [simp]: "rt_signal (wire_runtime oc rt) = rt_signal rt" "rt_sentinel (wire_runtime oc rt) = rt_sentinel rt"
  "rt_exists (wire_runtime oc rt) = rt_exists rt" "rt_now (wire_runtime oc rt) = rt_now rt" "rt_sweep (wire_runtime oc rt) = rt_sweep rt"
  "rt_evaluate (wire_runtime oc rt) = wired_evaluate" "rt_poll (wire_runtime oc rt) = wired_poll oc" "rt_prices (wire_runtime oc rt) = None"
  by (simp_all add: wire_runtime_def)

lemma is_stopped_same:
  assumes "rt_signal a = rt_signal b" "rt_sentinel a = rt_sentinel b" "rt_exists a = rt_exists b"
  shows "is_stopped a st = is_stopped b st"
  unfolding is_stopped_def deliver_signal_def assms ..

lemma wired_steps: "manage_positions (wire_runtime oc rt) = sret []" "sweep_closes (wire_runtime oc rt) = sweep_closes rt"
  by (simp_all add: manage_positions_def sweep_closes_def)

lemma submit_free_wired_poll:
  assumes "submit_free (wire_consumer oc) P" "P (en_store en) (ts, en_monitor en, en_rest en)" "wired_poll oc (ts, en) = (te', r)"
  shows "wired_poll (with_submit sub oc) (ts, en) = (te', r)
    \<and> P (en_store (snd te')) (fst te', en_monitor (snd te'), en_rest (snd te'))"
proof -
  let ?st = "\<lparr>cs_queue = en_queue en, cs_store = en_store en, cs_world = (ts, en_monitor en, en_rest en), cs_lag = en_lag en\<rparr>"
  obtain st' r' where p: "Outbound_Consumer.poll_once (wire_consumer oc) ?st = (st', r')" by force
  from submit_free_poll [OF assms(1) _ p] assms(2)
  have "Outbound_Consumer.poll_once (with_submit sub (wire_consumer oc)) ?st = (st', r')" "P (cs_store st') (cs_world st')" by simp_all
  with assms(3) p show ?thesis by (cases "cs_world st'") (auto simp: wired_poll_def wire_with_submit)
qed

lemma tick_same:
  assumes "\<And>en x. wired_evaluate (rt_now rt (rs_rest st)) (rs_rest st) = (en, Inr x) \<Longrightarrow>
      wired_poll (with_submit sub oc) (rs_trades st, en) = wired_poll oc (rs_trades st, en)"
  shows "tick (wire_runtime (with_submit sub oc) rt) st = tick (wire_runtime oc rt) st"
proof -
  have stop: "is_stopped (wire_runtime (with_submit sub oc) rt) st = is_stopped (wire_runtime oc rt) st"
    by (rule is_stopped_same) simp_all
  obtain s1 b where s1: "is_stopped (wire_runtime oc rt) st = (s1, b)" by force
  show ?thesis
  proof (cases b)
    case True
    with s1 stop show ?thesis by (simp add: tick_def)
  next
    case False
    then have same: "rs_rest s1 = rs_rest st" "rs_trades s1 = rs_trades st" using is_stopped_False s1 by fastforce+
    obtain en x where e: "wired_evaluate (rt_now rt (rs_rest st)) (rs_rest st) = (en, x)" by force
    have "running_tick (wire_runtime (with_submit sub oc) rt) s1 = running_tick (wire_runtime oc rt) s1"
    proof (cases x)
      case (Inl err)
      with e same show ?thesis by (simp add: running_tick_def on_rest_def sbind_def)
    next
      case (Inr state)
      from assms [OF e [unfolded Inr]] have "on_trades (wired_poll (with_submit sub oc)) (s1\<lparr>rs_rest := en\<rparr>) = on_trades (wired_poll oc) (s1\<lparr>rs_rest := en\<rparr>)"
        by (simp add: on_trades_def same)
      with e same Inr show ?thesis by (simp add: running_tick_def sbind_def on_rest_def wired_steps)
    qed
    with s1 stop False show ?thesis by (simp add: tick_def)
  qed
qed


text \<open>An engine with nothing in its queue, five minutes and a second after its start.\<close>

definition wit_plain_hooks :: "(trades \<times> monitor \<times> unit, string) hooks" where
  "wit_plain_hooks = \<lparr>hk_validate = None, hk_submit = None, hk_persist = None, hk_emit = None\<rparr>"

definition wit_engine_consumer :: "(backend \<times> qdb, processed_db, trades \<times> monitor \<times> unit, string) consumer" where
  "wit_engine_consumer = \<lparr>oc_queue = local_ops, oc_subscription = ''orders'', oc_processed = sqlite_ops,
     oc_pipeline = wit_pipeline, oc_price = (\<lambda>_. sret (VFloat (Fin 150))), oc_hooks = (\<lambda>_. wit_plain_hooks),
     oc_gate = None, oc_heartbeat = None, oc_open = sret [], oc_max_age = None, oc_prefetch = 4, oc_park = Fin 30,
     oc_clock = (\<lambda>_. wit_now), oc_qclock = (\<lambda>_. \<lparr>db_now = Fin 1, py_now = Fin 1, iso_now = ''now''\<rparr>),
     oc_reason = (\<lambda>c _. c)\<rparr>"

definition wit_engine :: "(backend \<times> qdb, processed_db, unit) engine" where
  "wit_engine = \<lparr>en_queue = cs_queue wit_state, en_store = cs_store wit_state, en_lag = (cs_lag wit_state)\<lparr>lg_message := None\<rparr>,
     en_monitor = new_monitor wit_config wit_start, en_rest = ()\<rparr>"

definition wit_engine_state :: "(backend \<times> qdb, processed_db, unit) engine rt_state" where
  "wit_engine_state = \<lparr>rs_stop = None, rs_done = False, rs_trades = [], rs_rest = wit_engine\<rparr>"




text \<open>No price source is passed to the assembled runtime, so its tick never manages a position: the rules
  that move stops and close on time are not run.\<close>

lemma assembled_tick_never_manages:
  "tick (wire_runtime oc (rt\<lparr>rt_manage := f\<rparr>)) st = tick (wire_runtime oc rt) st"
proof -
  have "is_stopped (wire_runtime oc (rt\<lparr>rt_manage := f\<rparr>)) st = is_stopped (wire_runtime oc rt) st"
    by (rule is_stopped_same) simp_all
  moreover have "running_tick (wire_runtime oc (rt\<lparr>rt_manage := f\<rparr>)) s = running_tick (wire_runtime oc rt) s" for s
    by (simp add: running_tick_def wired_steps) (simp add: sweep_closes_def)
  ultimately show ?thesis
    by (cases "is_stopped (wire_runtime oc rt) st") (simp add: tick_def split: bool.split)
qed

end
