(* ===== verification/Queue_Open.thy ===== *)
theory Queue_Open
  imports Queue_Backend Secrets_Config
begin

text \<open>
  Opening a queue, from \<open>common/queue_backend.py\<close>: the factory \<open>build_queue\<close>, the assertion that the
  configured path leads to the queue the other systems share, the constructor of the local backend on
  a file system, and the Pub/Sub backend over its client library.

  Paths are those of \<open>pathlib\<close> on a POSIX host. What the operating system finds under a path (working
  directory, symbolic links) and the home directories are parameters in \<open>host\<close>; a file is known by
  its canonical name. Directories can be created, and a canonical name has no character that is
  special in a URI.
\<close>

section \<open>Paths\<close>

record ppath =
  pp_root :: string
  pp_parts :: "string list"

text \<open>\<open>Path(s)\<close>: two leading slashes, and no more, are kept; empty parts and dots are dropped.\<close>

definition ppath_of :: "string \<Rightarrow> ppath" where
  "ppath_of s = \<lparr>pp_root = (if startswith s ''//'' \<and> \<not> startswith s ''///'' then ''//'' else if startswith s ''/'' then ''/'' else []),
     pp_parts = filter (\<lambda>p. p \<noteq> [] \<and> p \<noteq> ''.'') (split_on (CHR ''/'') s)\<rparr>"

definition path_str :: "ppath \<Rightarrow> string" where
  "path_str p = (if pp_root p = [] \<and> pp_parts p = [] then ''.'' else pp_root p @ join ''/'' (pp_parts p))"

definition is_absolute :: "ppath \<Rightarrow> bool" where
  "is_absolute p \<longleftrightarrow> pp_root p \<noteq> []"

record host =
  h_home :: "string \<Rightarrow> string option"
  h_canon :: "ppath \<Rightarrow> string"

definition has_tilde :: "ppath \<Rightarrow> bool" where
  "has_tilde p \<longleftrightarrow> pp_root p = [] \<and> (case pp_parts p of [] \<Rightarrow> False | t # ps \<Rightarrow> startswith t ''~'')"

definition expanduser :: "host \<Rightarrow> ppath \<Rightarrow> ppath res" where
  "expanduser h p = (if has_tilde p then
       (case h_home h (hd (pp_parts p)) of None \<Rightarrow> Inl (OtherException ''RuntimeError'')
        | Some d \<Rightarrow> let q = ppath_of d in Inr (q\<lparr>pp_parts := pp_parts q @ drop 1 (pp_parts p)\<rparr>))
     else Inr p)"

section \<open>Files\<close>

text \<open>A file by its canonical name: device and inode, its size, and its tables with their columns when
  SQLite can read it (an empty file is a database without tables).\<close>

record vfile =
  vf_id :: "nat \<times> nat"
  vf_regular :: bool
  vf_size :: nat
  vf_tables :: "(string \<times> string list) list option"

type_synonym vfs = "string \<Rightarrow> vfile option"

definition assert_shared_queue :: "host \<Rightarrow> vfs \<Rightarrow> ppath \<Rightarrow> string option \<Rightarrow> unit res" where
  "assert_shared_queue h fs path expected = ebind (expanduser h path) (\<lambda>full.
     if \<not> is_absolute full then Inl SharedQueueMissing
     else if char_of (92::nat) \<in> set (path_str path) then Inl SharedQueueMissing
     else case fs (h_canon h full) of
         None \<Rightarrow> Inl SharedQueueMissing
       | Some f \<Rightarrow> if \<not> vf_regular f then Inl SharedQueueMissing
           else if vf_size f = 0 then Inl SharedQueueMissing
           else case vf_tables f of
               None \<Rightarrow> Inl SharedQueueMissing
             | Some ts \<Rightarrow> if map_of ts ''queue'' = None then Inl SharedQueueMissing
                 else case expected of None \<Rightarrow> Inr ()
                   | Some x \<Rightarrow> ebind (expanduser h (ppath_of x)) (\<lambda>exp_path. case fs (h_canon h exp_path) of
                         None \<Rightarrow> Inl SharedQueueMissing
                       | Some g \<Rightarrow> if vf_id f \<noteq> vf_id g then Inl SharedQueueMissing else Inr ()))"

text \<open>\<open>sqlite3.connect(str(path))\<close> and its first statement: a missing file is created, with the identity
  that \<open>fresh\<close> gives its name; the path is used as it is.\<close>

definition sqlite_open :: "host \<Rightarrow> (string \<Rightarrow> nat \<times> nat) \<Rightarrow> ppath \<Rightarrow> (vfs, string) act" where
  "sqlite_open h fresh path fs = (let name = h_canon h path in case fs name of
       None \<Rightarrow> (fs(name \<mapsto> \<lparr>vf_id = fresh name, vf_regular = True, vf_size = 0, vf_tables = Some []\<rparr>), Inr name)
     | Some f \<Rightarrow> if vf_regular f \<and> vf_tables f \<noteq> None then (fs, Inr name) else (fs, Inl SqliteError))"

text \<open>A schema statement on an open database; \<open>page\<close> is what the file grows to.\<close>

definition alter_tables :: "nat \<Rightarrow> ((string \<times> string list) list \<Rightarrow> (string \<times> string list) list) \<Rightarrow> string \<Rightarrow> vfs \<Rightarrow> vfs" where
  "alter_tables page change name fs = (case fs name of None \<Rightarrow> fs
     | Some f \<Rightarrow> fs(name \<mapsto> f\<lparr>vf_tables := map_option change (vf_tables f), vf_size := max page (vf_size f)\<rparr>))"

definition create_table :: "string \<Rightarrow> string list \<Rightarrow> (string \<times> string list) list \<Rightarrow> (string \<times> string list) list" where
  "create_table t cols ts = (if map_of ts t = None then AList.update t cols ts else ts)"

definition add_column :: "string \<Rightarrow> string \<Rightarrow> (string \<times> string list) list \<Rightarrow> (string \<times> string list) list" where
  "add_column t c ts = (case map_of ts t of None \<Rightarrow> ts
     | Some cols \<Rightarrow> if c \<in> set cols then ts else AList.update t (cols @ [c]) ts)"

definition QUEUE_COLUMNS :: "string list" where
  "QUEUE_COLUMNS = [''seq'', ''topic'', ''body'', ''state'', ''attempts'', ''available_at'', ''ack_id'', ''leased_until'',
     ''lease_owner'', ''done_at'']"

definition add_lease_columns :: "(string \<times> string list) list \<Rightarrow> (string \<times> string list) list" where
  "add_lease_columns ts = add_column ''queue'' ''lease_owner'' (add_column ''queue'' ''leased_until'' ts)"

definition queue_schema :: "(string \<times> string list) list \<Rightarrow> (string \<times> string list) list" where
  "queue_schema ts = add_column ''queue'' ''done_at'' (add_lease_columns (create_table ''queue'' QUEUE_COLUMNS ts))"

text \<open>\<open>LocalDurableBackend.__init__\<close>. \<open>disk\<close> gives the identity of a new file and the size of a schema.\<close>

record disk =
  dk_fresh :: "string \<Rightarrow> nat \<times> nat"
  dk_page :: nat

definition local_init :: "host \<Rightarrow> disk \<Rightarrow> string \<Rightarrow> string \<Rightarrow> int \<Rightarrow> int \<Rightarrow> bool \<Rightarrow> string option \<Rightarrow> (vfs, string \<times> backend) act" where
  "local_init h dk owner db_path max_attempts lease require_existing expected =
     (\<lambda>fs. sbind (slift (if require_existing then assert_shared_queue h fs (ppath_of db_path) expected else Inr ())) (\<lambda>_.
       sbind (slift (fl_of_int lease)) (\<lambda>lease_sec.
       sbind (sqlite_open h (dk_fresh dk) (ppath_of db_path)) (\<lambda>name fs1.
         (alter_tables (dk_page dk) queue_schema name fs1, Inr (name, new_backend owner max_attempts lease_sec))))) fs)"

section \<open>The factory\<close>

datatype queue_choice = LocalQueue string backend | PubSubQueue string "string option"

definition DEFAULT_LEASE_SEC :: int where
  "DEFAULT_LEASE_SEC = 300"

definition nonempty :: "string option \<Rightarrow> string option" where
  "nonempty v = (case v of Some (c # cs) \<Rightarrow> Some (c # cs) | _ \<Rightarrow> None)"

definition queue_path :: "secrets \<Rightarrow> string" where
  "queue_path sec = sec_get_or sec ''QUEUE_LOCAL_PATH'' ''state/queue/queue.db''"

definition queue_provider :: "secrets \<Rightarrow> string" where
  "queue_provider sec = lower (sec_get_nonempty sec ''QUEUE_PROVIDER'' ''pubsub'')"

definition build_queue :: "host \<Rightarrow> disk \<Rightarrow> string \<Rightarrow> secrets \<Rightarrow> (vfs, queue_choice) act" where
  "build_queue h dk owner sec =
     (if queue_provider sec = ''local'' then
        sbind (local_init h dk owner (queue_path sec) (sec_int sec ''QUEUE_MAX_DELIVERY_ATTEMPTS'' 5)
            (sec_int sec ''QUEUE_LEASE_SEC'' DEFAULT_LEASE_SEC) (\<not> sec_bool sec ''QUEUE_LOCAL_ALLOW_CREATE'' False)
            (nonempty (sec_get sec ''QUEUE_LOCAL_EXPECTED_PATH'')))
          (\<lambda>(name, b). sret (LocalQueue name b))
      else if queue_provider sec = ''pubsub'' then
        slift (emap (\<lambda>project. PubSubQueue project (sec_get sec ''QUEUE_DLQ_TOPIC'')) (sec_require sec ''PUBSUB_PROJECT_ID''))
      else sraise ValueError)"

section \<open>The Pub/Sub backend\<close>

text \<open>The client library: publishing, pulling, acknowledging and changing a deadline, each of which may
  raise, and the names of resources.\<close>

record pulled =
  pu_ack :: string
  pu_data :: qbody
  pu_attributes :: pydict

record 'p pubsub_client =
  pc_topic_path :: "string \<Rightarrow> string \<Rightarrow> string"
  pc_sub_path :: "string \<Rightarrow> string \<Rightarrow> string"
  pc_publish :: "string \<Rightarrow> pyval \<Rightarrow> ('p, unit) act"
  pc_pull :: "string \<Rightarrow> int \<Rightarrow> ('p, pulled list) act"
  pc_acknowledge :: "string \<Rightarrow> string list \<Rightarrow> ('p, unit) act"
  pc_deadline :: "string \<Rightarrow> string list \<Rightarrow> int \<Rightarrow> ('p, unit) act"

record 'p pubsub =
  pb_client :: "'p pubsub_client"
  pb_project :: string
  pb_dlq :: "string option"

record pubsub_msg =
  ps_ack :: string
  ps_topic :: string
  ps_body :: pyval
  ps_attempts :: int

definition pubsub_publish :: "'p pubsub \<Rightarrow> string \<Rightarrow> pyval \<Rightarrow> ('p, unit) act" where
  "pubsub_publish b topic body = pc_publish (pb_client b) (pc_topic_path (pb_client b) (pb_project b) topic) body"

definition pubsub_receive :: "string \<Rightarrow> pulled \<Rightarrow> pubsub_msg res" where
  "pubsub_receive subscription m = (case pu_data m of
      RawBody s \<Rightarrow> Inl ValueError
    | JsonBody v \<Rightarrow> emap (\<lambda>n. \<lparr>ps_ack = pu_ack m, ps_topic = subscription, ps_body = v, ps_attempts = n\<rparr>)
        (if pu_attributes m = [] then Inr 1 else py_int (dget_or (pu_attributes m) ''delivery_attempt'' (VInt 1))))"

definition pubsub_pull :: "'p pubsub \<Rightarrow> string \<Rightarrow> int \<Rightarrow> ('p, pubsub_msg list) act" where
  "pubsub_pull b subscription n =
     sbind (pc_pull (pb_client b) (pc_sub_path (pb_client b) (pb_project b) subscription) n)
       (\<lambda>ms. slift (emapM (pubsub_receive subscription) ms))"

definition pubsub_ack :: "'p pubsub \<Rightarrow> pubsub_msg \<Rightarrow> ('p, unit) act" where
  "pubsub_ack b m = pc_acknowledge (pb_client b) (pc_sub_path (pb_client b) (pb_project b) (ps_topic m)) [ps_ack m]"

text \<open>The delay the caller asks for is not used.\<close>

definition pubsub_nack :: "'p pubsub \<Rightarrow> pubsub_msg \<Rightarrow> pyfloat \<Rightarrow> ('p, unit) act" where
  "pubsub_nack b m backoff = pc_deadline (pb_client b) (pc_sub_path (pb_client b) (pb_project b) (ps_topic m)) [ps_ack m] 0"

definition pubsub_to_dlq :: "'p pubsub \<Rightarrow> pubsub_msg \<Rightarrow> string \<Rightarrow> string \<Rightarrow> ('p, unit) act" where
  "pubsub_to_dlq b m reason now = sbind
     (case nonempty (pb_dlq b) of None \<Rightarrow> sret ()
      | Some t \<Rightarrow> pubsub_publish b t (VDict [(''original'', ps_body m), (''dlq_reason'', VStr reason), (''dlq_timestamp'', VStr now)]))
     (\<lambda>_. pubsub_ack b m)"

section \<open>Laws\<close>

text \<open>What the assertion has established: the file under the expanded path.\<close>

definition shared_file :: "host \<Rightarrow> vfs \<Rightarrow> ppath \<Rightarrow> vfile \<Rightarrow> bool" where
  "shared_file h fs full f \<longleftrightarrow> fs (h_canon h full) = Some f \<and> vf_regular f \<and> vf_size f \<noteq> 0
     \<and> (\<exists>ts cols. vf_tables f = Some ts \<and> map_of ts ''queue'' = Some cols)"

text \<open>The expected path, when one is configured, leads to the same file.\<close>

definition same_as_expected :: "host \<Rightarrow> vfs \<Rightarrow> string option \<Rightarrow> vfile \<Rightarrow> bool" where
  "same_as_expected h fs expected f \<longleftrightarrow> (case expected of None \<Rightarrow> True
     | Some x \<Rightarrow> \<exists>p g. expanduser h (ppath_of x) = Inr p \<and> fs (h_canon h p) = Some g \<and> vf_id g = vf_id f)"

text \<open>The checks of the file, and of the expectation, after the path is expanded.\<close>

definition check_expected :: "host \<Rightarrow> vfs \<Rightarrow> string option \<Rightarrow> vfile \<Rightarrow> unit res" where
  "check_expected h fs expected f = (case expected of None \<Rightarrow> Inr ()
     | Some x \<Rightarrow> ebind (expanduser h (ppath_of x)) (\<lambda>p. case fs (h_canon h p) of
           None \<Rightarrow> Inl SharedQueueMissing
         | Some g \<Rightarrow> if vf_id f \<noteq> vf_id g then Inl SharedQueueMissing else Inr ()))"

lemma check_expected_Inr: "check_expected h fs expected f = Inr u \<longleftrightarrow> same_as_expected h fs expected f"
proof (cases expected)
  case (Some x)
  show ?thesis
  proof (cases "expanduser h (ppath_of x)")
    case (Inr p)
    then show ?thesis by (cases "fs (h_canon h p)") (auto simp: check_expected_def same_as_expected_def Some)
  qed (simp add: check_expected_def same_as_expected_def Some)
qed (simp add: check_expected_def same_as_expected_def)

lemma assert_shared_queue_alt:
  assumes "expanduser h path = Inr full" "fs (h_canon h full) = Some f"
  shows "assert_shared_queue h fs path expected = (if is_absolute full \<and> char_of (92::nat) \<notin> set (path_str path)
      \<and> shared_file h fs full f then check_expected h fs expected f else Inl SharedQueueMissing)"
proof (cases "vf_tables f")
  case None
  with assms show ?thesis by (simp add: assert_shared_queue_def shared_file_def)
next
  case (Some ts)
  show ?thesis
  proof (cases "map_of ts ''queue''")
    case None
    with assms Some show ?thesis by (simp add: assert_shared_queue_def shared_file_def)
  next
    case q: (Some cols)
    have e: "(case expected of None \<Rightarrow> Inr ()
         | Some x \<Rightarrow> ebind (expanduser h (ppath_of x)) (\<lambda>exp_path. case fs (h_canon h exp_path) of
               None \<Rightarrow> Inl SharedQueueMissing
             | Some g \<Rightarrow> if vf_id f \<noteq> vf_id g then Inl SharedQueueMissing else Inr ())) = check_expected h fs expected f"
      by (simp only: check_expected_def)
    show ?thesis using assms Some q by (simp add: assert_shared_queue_def shared_file_def e)
  qed
qed

lemma assert_shared_queue_Inr:
  "assert_shared_queue h fs path expected = Inr u \<longleftrightarrow>
    (\<exists>full f. expanduser h path = Inr full \<and> is_absolute full \<and> char_of (92::nat) \<notin> set (path_str path)
      \<and> shared_file h fs full f \<and> same_as_expected h fs expected f)"
proof (cases "expanduser h path")
  case (Inl e)
  then show ?thesis by (simp add: assert_shared_queue_def)
next
  case (Inr full)
  show ?thesis
  proof (cases "fs (h_canon h full)")
    case None
    with Inr show ?thesis by (simp add: assert_shared_queue_def shared_file_def)
  next
    case (Some f)
    then have f: "shared_file h fs full g \<Longrightarrow> g = f" for g by (simp add: shared_file_def)
    show ?thesis unfolding assert_shared_queue_alt [of h path full fs f expected, OF Inr Some]
      using Inr f by (auto simp: check_expected_Inr split: if_splits)
  qed
qed

lemma expanduser_plain: "\<not> has_tilde p \<Longrightarrow> expanduser h p = Inr p"
  by (simp add: expanduser_def)

lemma create_table_same: "map_of ts t = Some cols \<Longrightarrow> create_table t cs ts = ts"
  by (simp add: create_table_def)

lemma alter_tables_other: "n \<noteq> name \<Longrightarrow> alter_tables page change name fs n = fs n"
  by (simp add: alter_tables_def split: option.splits)

lemma alter_tables_at: "alter_tables page change name fs name =
    map_option (\<lambda>f. f\<lparr>vf_tables := map_option change (vf_tables f), vf_size := max page (vf_size f)\<rparr>) (fs name)"
  by (simp add: alter_tables_def split: option.splits)

lemma local_init_cases:
  assumes "local_init h dk owner db n lease req expected fs = (fs', r)"
  obtains (refused) e where "r = Inl e" "fs' = fs" "\<And>u. req \<longrightarrow> assert_shared_queue h fs (ppath_of db) expected = Inr u \<Longrightarrow>
      fl_of_int lease = Inl e \<or> sqlite_open h (dk_fresh dk) (ppath_of db) fs = (fs, Inl e)"
  | (opened) l name fs1 where "req \<longrightarrow> assert_shared_queue h fs (ppath_of db) expected = Inr ()" "fl_of_int lease = Inr l"
      "sqlite_open h (dk_fresh dk) (ppath_of db) fs = (fs1, Inr name)" "fs' = alter_tables (dk_page dk) queue_schema name fs1"
      "r = Inr (name, new_backend owner n l)"
proof -
  let ?a = "if req then assert_shared_queue h fs (ppath_of db) expected else Inr ()"
  show thesis
  proof (cases ?a)
    case (Inl e)
    with assms have "r = Inl e" "fs' = fs" by (auto simp: local_init_def)
    moreover from Inl have "req" "assert_shared_queue h fs (ppath_of db) expected = Inl e" by (auto split: if_splits)
    ultimately show thesis by (intro refused) auto
  next
    case (Inr u)
    then have ok: "req \<longrightarrow> assert_shared_queue h fs (ppath_of db) expected = Inr ()" by (auto split: if_splits)
    show thesis
    proof (cases "fl_of_int lease")
      case (Inl e)
      with assms Inr show thesis by (intro refused [of e]) (auto simp: local_init_def)
    next
      case lease: (Inr l)
      obtain fs1 r1 where o: "sqlite_open h (dk_fresh dk) (ppath_of db) fs = (fs1, r1)" by force
      show thesis
      proof (cases r1)
        case (Inl e)
        then have "fs1 = fs" using o by (auto simp: sqlite_open_def Let_def split: option.splits if_splits)
        with assms Inr lease o Inl show thesis by (intro refused [of e]) (auto simp: local_init_def sbind_def)
      next
        case open_ok: (Inr name)
        with assms Inr lease o ok show thesis by (intro opened [of l fs1 name]) (auto simp: local_init_def sbind_def)
      qed
    qed
  qed
qed

text \<open>A database that already has its queue table keeps its files and their identity when it is opened.\<close>

lemma open_existing:
  assumes "shared_file h fs p f"
  shows "sqlite_open h fresh p fs = (fs, Inr (h_canon h p))"
proof -
  obtain ts where "fs (h_canon h p) = Some f" "vf_regular f" "vf_tables f = Some ts"
    using assms by (auto simp: shared_file_def)
  then show ?thesis by (simp add: sqlite_open_def Let_def)
qed

lemma open_missing:
  assumes "fs (h_canon h p) = None"
  shows "sqlite_open h fresh p fs
    = (fs(h_canon h p \<mapsto> \<lparr>vf_id = fresh (h_canon h p), vf_regular = True, vf_size = 0, vf_tables = Some []\<rparr>), Inr (h_canon h p))"
  using assms by (simp add: sqlite_open_def Let_def)

lemma build_queue_local:
  assumes "build_queue h dk owner sec fs = (fs', r)" "queue_provider sec = ''local''"
  obtains e where "r = Inl e" "local_init h dk owner (queue_path sec) (sec_int sec ''QUEUE_MAX_DELIVERY_ATTEMPTS'' 5)
      (sec_int sec ''QUEUE_LEASE_SEC'' DEFAULT_LEASE_SEC) (\<not> sec_bool sec ''QUEUE_LOCAL_ALLOW_CREATE'' False)
      (nonempty (sec_get sec ''QUEUE_LOCAL_EXPECTED_PATH'')) fs = (fs', Inl e)"
  | name b where "r = Inr (LocalQueue name b)" "local_init h dk owner (queue_path sec) (sec_int sec ''QUEUE_MAX_DELIVERY_ATTEMPTS'' 5)
      (sec_int sec ''QUEUE_LEASE_SEC'' DEFAULT_LEASE_SEC) (\<not> sec_bool sec ''QUEUE_LOCAL_ALLOW_CREATE'' False)
      (nonempty (sec_get sec ''QUEUE_LOCAL_EXPECTED_PATH'')) fs = (fs', Inr (name, b))"
proof -
  obtain fs1 r1 where i: "local_init h dk owner (queue_path sec) (sec_int sec ''QUEUE_MAX_DELIVERY_ATTEMPTS'' 5)
      (sec_int sec ''QUEUE_LEASE_SEC'' DEFAULT_LEASE_SEC) (\<not> sec_bool sec ''QUEUE_LOCAL_ALLOW_CREATE'' False)
      (nonempty (sec_get sec ''QUEUE_LOCAL_EXPECTED_PATH'')) fs = (fs1, r1)" by force
  show thesis
  proof (cases r1)
    case (Inl e)
    then have "fs' = fs1" "r = Inl e" using assms i by (auto simp: build_queue_def sbind_def)
    with i Inl that(1) show thesis by simp
  next
    case (Inr x)
    obtain name b where x: "x = (name, b)" by force
    then have "fs' = fs1" "r = Inr (LocalQueue name b)" using assms i Inr by (auto simp: build_queue_def sbind_def)
    with i Inr x that(2) show thesis by simp
  qed
qed

lemma build_queue_shared:
  assumes "build_queue h dk owner sec fs = (fs', r)" "queue_provider sec = ''local''"
    and "\<not> sec_bool sec ''QUEUE_LOCAL_ALLOW_CREATE'' False" "\<not> has_tilde (ppath_of (queue_path sec))"
  shows "case r of Inl e \<Rightarrow> fs' = fs
    | Inr q \<Rightarrow> \<exists>f f' b. q = LocalQueue (h_canon h (ppath_of (queue_path sec))) b
        \<and> is_absolute (ppath_of (queue_path sec)) \<and> shared_file h fs (ppath_of (queue_path sec)) f
        \<and> same_as_expected h fs (nonempty (sec_get sec ''QUEUE_LOCAL_EXPECTED_PATH'')) f
        \<and> fs' = fs(h_canon h (ppath_of (queue_path sec)) \<mapsto> f') \<and> vf_id f' = vf_id f"
  using assms(1,2)
proof (cases rule: build_queue_local)
  case (1 e)
  from 1(2) show ?thesis
  proof (cases rule: local_init_cases)
    case (refused e')
    then show ?thesis using 1(1) by simp
  qed simp
next
  case (2 name b)
  let ?p = "ppath_of (queue_path sec)"
  from 2(2) show ?thesis
  proof (cases rule: local_init_cases)
    case (opened l name' fs1)
    then have "assert_shared_queue h fs ?p (nonempty (sec_get sec ''QUEUE_LOCAL_EXPECTED_PATH'')) = Inr ()" using assms(3) by simp
    then obtain f where f: "is_absolute ?p" "shared_file h fs ?p f"
      "same_as_expected h fs (nonempty (sec_get sec ''QUEUE_LOCAL_EXPECTED_PATH'')) f"
      unfolding assert_shared_queue_Inr expanduser_plain [OF assms(4)] by auto
    have "fs1 = fs" "name' = h_canon h ?p" using opened(3) unfolding open_existing [OF f(2)] by simp_all
    then have name: "name = h_canon h ?p" and fs': "fs' = alter_tables (dk_page dk) queue_schema (h_canon h ?p) fs"
      using opened(4,5) by simp_all
    have "fs' = fs(h_canon h ?p \<mapsto> f\<lparr>vf_tables := map_option queue_schema (vf_tables f), vf_size := max (dk_page dk) (vf_size f)\<rparr>)"
      using f(2) by (simp add: fs' alter_tables_def shared_file_def)
    then show ?thesis unfolding 2(1) sum.case
      by (intro exI [of _ f] exI [of _ "f\<lparr>vf_tables := map_option queue_schema (vf_tables f), vf_size := max (dk_page dk) (vf_size f)\<rparr>"]
        exI [of _ b] conjI) (simp_all add: name f)
  qed simp
qed

lemma only_the_shared_file:
  assumes "build_queue h dk owner sec fs = (fs', Inr q)" "queue_provider sec = ''local''"
    and "\<not> sec_bool sec ''QUEUE_LOCAL_ALLOW_CREATE'' False" "\<not> has_tilde (ppath_of (queue_path sec))"
  shows "\<exists>f. shared_file h fs (ppath_of (queue_path sec)) f
    \<and> same_as_expected h fs (nonempty (sec_get sec ''QUEUE_LOCAL_EXPECTED_PATH'')) f"
  using build_queue_shared [OF assms] by auto


text \<open>The assertion looks at the path with its tilde expanded, and the database is opened under the path as
  it is written. A start with such a path, whose expansion passes every check, creates and uses a
  new empty queue under the unexpanded name, and leaves the shared file it checked alone.\<close>

theorem tilde_path_opens_private_queue:
  assumes "queue_provider sec = ''local''" "\<not> sec_bool sec ''QUEUE_LOCAL_ALLOW_CREATE'' False"
    and "fl_of_int (sec_int sec ''QUEUE_LEASE_SEC'' DEFAULT_LEASE_SEC) = Inr l"
    and "expanduser h (ppath_of (queue_path sec)) = Inr full" "is_absolute full"
    and "char_of (92::nat) \<notin> set (path_str (ppath_of (queue_path sec)))"
    and "shared_file h fs full f" "same_as_expected h fs (nonempty (sec_get sec ''QUEUE_LOCAL_EXPECTED_PATH'')) f"
    and "fs (h_canon h (ppath_of (queue_path sec))) = None"
  shows "\<exists>fs' b g. build_queue h dk owner sec fs = (fs', Inr (LocalQueue (h_canon h (ppath_of (queue_path sec))) b))
    \<and> fs' = fs(h_canon h (ppath_of (queue_path sec)) \<mapsto> g) \<and> vf_id g = dk_fresh dk (h_canon h (ppath_of (queue_path sec)))
    \<and> vf_tables g = Some [(''queue'', QUEUE_COLUMNS)] \<and> fs' (h_canon h full) = Some f"
proof -
  let ?p = "ppath_of (queue_path sec)" and ?b = "new_backend owner (sec_int sec ''QUEUE_MAX_DELIVERY_ATTEMPTS'' 5) l"
  let ?e = "\<lparr>vf_id = dk_fresh dk (h_canon h ?p), vf_regular = True, vf_size = 0, vf_tables = Some []\<rparr>"
  have a: "assert_shared_queue h fs ?p (nonempty (sec_get sec ''QUEUE_LOCAL_EXPECTED_PATH'')) = Inr ()"
    unfolding assert_shared_queue_Inr using assms(4-8) by blast
  have schema: "queue_schema [] = [(''queue'', QUEUE_COLUMNS)]" by code_simp
  have "build_queue h dk owner sec fs
      = (alter_tables (dk_page dk) queue_schema (h_canon h ?p) (fs(h_canon h ?p \<mapsto> ?e)), Inr (LocalQueue (h_canon h ?p) ?b))"
    using assms(1-3) a open_missing [of fs h ?p "dk_fresh dk", OF assms(9)] by (simp add: build_queue_def local_init_def sbind_def)
  moreover have "h_canon h full \<noteq> h_canon h ?p" using assms(7,9) by (auto simp: shared_file_def)
  ultimately show ?thesis using assms(7)
    by (intro exI [of _ "fs(h_canon h ?p \<mapsto> ?e\<lparr>vf_tables := Some [(''queue'', QUEUE_COLUMNS)], vf_size := dk_page dk\<rparr>)"] exI [of _ ?b]
        exI [of _ "?e\<lparr>vf_tables := Some [(''queue'', QUEUE_COLUMNS)], vf_size := dk_page dk\<rparr>"])
       (simp add: alter_tables_def schema shared_file_def)
qed

definition wit_host :: host where
  "wit_host = \<lparr>h_home = (\<lambda>t. Some ''/home/hand''), h_canon = (\<lambda>p. if is_absolute p then path_str p else ''/opt/app/'' @ path_str p)\<rparr>"

definition wit_queue_file :: vfile where
  "wit_queue_file = \<lparr>vf_id = (8, 77), vf_regular = True, vf_size = 4096, vf_tables = Some [(''queue'', [''seq'', ''topic''])]\<rparr>"

definition wit_disk :: disk where
  "wit_disk = \<lparr>dk_fresh = (\<lambda>name. (8, 99)), dk_page = 4096\<rparr>"

definition wit_local :: "string \<Rightarrow> secrets" where
  "wit_local path = \<lparr>sec_environ = [(''QUEUE_PROVIDER'', ''local''), (''QUEUE_LOCAL_PATH'', path)], sec_file = []\<rparr>"

lemma wit_local_facts: "queue_provider (wit_local path) = ''local''" "\<not> sec_bool (wit_local path) ''QUEUE_LOCAL_ALLOW_CREATE'' False"
  "queue_path (wit_local path) = path" "sec_int (wit_local path) ''QUEUE_LEASE_SEC'' d = d" "sec_get (wit_local path) ''QUEUE_LOCAL_EXPECTED_PATH'' = None"
proof -
  have "lower ''local'' = ''local''" by code_simp
  then show "queue_provider (wit_local path) = ''local''" by (simp add: queue_provider_def sec_get_nonempty_def sec_get_or_def sec_get_def wit_local_def)
qed (simp_all add: wit_local_def sec_bool_def sec_get_def queue_path_def sec_get_or_def sec_int_def)

lemma wit_lease: "fl_of_int (sec_int (wit_local path) ''QUEUE_LEASE_SEC'' DEFAULT_LEASE_SEC) = Inr (Fin 300)"
  by (simp add: wit_local_facts(4) DEFAULT_LEASE_SEC_def fl_of_int_numeral)

lemma wit_paths:
  "ppath_of ''/shared/queue.db'' = \<lparr>pp_root = ''/'', pp_parts = [''shared'', ''queue.db'']\<rparr>"
  "ppath_of ''~/queue.db'' = \<lparr>pp_root = [], pp_parts = [''~'', ''queue.db'']\<rparr>"
  "expanduser wit_host (ppath_of ''~/queue.db'') = Inr \<lparr>pp_root = ''/'', pp_parts = [''home'', ''hand'', ''queue.db'']\<rparr>"
  "\<not> has_tilde (ppath_of ''/shared/queue.db'')" "is_absolute \<lparr>pp_root = ''/'', pp_parts = [''home'', ''hand'', ''queue.db'']\<rparr>"
  "char_of (92::nat) \<notin> set (path_str (ppath_of ''~/queue.db''))"
  by code_simp+

lemma wit_canon: "h_canon wit_host \<lparr>pp_root = ''/'', pp_parts = [''home'', ''hand'', ''queue.db'']\<rparr> = ''/home/hand/queue.db''"
  "h_canon wit_host (ppath_of ''~/queue.db'') = ''/opt/app/~/queue.db''"
  by code_simp+


theorem tilde_path_opens_private_queue_witness:
  "\<exists>fs' b g. build_queue wit_host wit_disk ''me'' (wit_local ''~/queue.db'') (Map.empty(''/home/hand/queue.db'' \<mapsto> wit_queue_file))
     = (fs', Inr (LocalQueue ''/opt/app/~/queue.db'' b)) \<and> fs' ''/opt/app/~/queue.db'' = Some g \<and> vf_id g = (8, 99)"
proof -
  let ?sec = "wit_local ''~/queue.db''" and ?fs = "Map.empty(''/home/hand/queue.db'' \<mapsto> wit_queue_file)"
  let ?full = "\<lparr>pp_root = ''/'', pp_parts = [''home'', ''hand'', ''queue.db'']\<rparr>"
  have f: "shared_file wit_host ?fs ?full wit_queue_file"
    by (simp add: shared_file_def wit_canon wit_queue_file_def)
  have e: "expanduser wit_host (ppath_of (queue_path ?sec)) = Inr ?full" unfolding wit_local_facts(3) by (rule wit_paths(3))
  have q: "char_of (92::nat) \<notin> set (path_str (ppath_of (queue_path ?sec)))" unfolding wit_local_facts(3) by (rule wit_paths(6))
  have x: "same_as_expected wit_host ?fs (nonempty (sec_get ?sec ''QUEUE_LOCAL_EXPECTED_PATH'')) wit_queue_file"
    unfolding wit_local_facts(5) by (simp add: nonempty_def same_as_expected_def)
  have n: "h_canon wit_host (ppath_of (queue_path ?sec)) = ''/opt/app/~/queue.db''" unfolding wit_local_facts(3) by (rule wit_canon(2))
  have m: "?fs (h_canon wit_host (ppath_of (queue_path ?sec))) = None" unfolding n by simp
  obtain fs' b g where "build_queue wit_host wit_disk ''me'' ?sec ?fs = (fs', Inr (LocalQueue ''/opt/app/~/queue.db'' b))"
    "fs' = ?fs(''/opt/app/~/queue.db'' \<mapsto> g)" "vf_id g = dk_fresh wit_disk ''/opt/app/~/queue.db''"
    using tilde_path_opens_private_queue [OF wit_local_facts(1) wit_local_facts(2) wit_lease e wit_paths(5) q f x m,
      where owner = "''me''" and dk = wit_disk] unfolding n by blast
  then show ?thesis by (intro exI [of _ fs'] exI [of _ b] exI [of _ g]) (simp add: wit_disk_def)
qed

text \<open>Without a dead-letter topic a poison message is acknowledged and kept nowhere: the call is the
  acknowledgement alone.\<close>

lemma pubsub_dlq_without_topic:
  "nonempty (pb_dlq b) = None \<Longrightarrow> pubsub_to_dlq b m reason now p = pubsub_ack b m p"
  by (simp add: pubsub_to_dlq_def)

text \<open>With a topic the copy is published before the message is acknowledged, so a publish that fails
  leaves the message with the subscription.\<close>

lemma pubsub_dlq_publishes_first:
  assumes "nonempty (pb_dlq b) = Some t"
    and "pubsub_publish b t (VDict [(''original'', ps_body m), (''dlq_reason'', VStr reason), (''dlq_timestamp'', VStr now)]) p = (p', Inl e)"
  shows "pubsub_to_dlq b m reason now p = (p', Inl e)"
  using assms by (simp add: pubsub_to_dlq_def sbind_def)

text \<open>One message that is not JSON fails the whole pull.\<close>

lemma emapM_Inl: "x \<in> set xs \<Longrightarrow> (\<And>y. f x \<noteq> Inr y) \<Longrightarrow> \<exists>e. emapM f xs = Inl e"
proof (induction xs)
  case (Cons a xs)
  show ?case
  proof (cases "f a")
    case (Inr y)
    with Cons have "x \<in> set xs" by auto
    with Cons Inr show ?thesis by auto
  qed simp
qed simp

lemma pubsub_pull_is_all_or_nothing:
  assumes "pc_pull (pb_client b) (pc_sub_path (pb_client b) (pb_project b) s) n p = (p', Inr ms)" "m \<in> set ms" "pu_data m = RawBody raw"
  shows "\<exists>e. pubsub_pull b s n p = (p', Inl e)"
  using assms emapM_Inl [OF assms(2), of "pubsub_receive s"] by (auto simp: pubsub_pull_def sbind_def pubsub_receive_def)

end
