(* ===== verification/Local_Store.thy ===== *)
theory Local_Store
  imports Oanda_Adapter "HOL-Library.Char_ord" "HOL-Library.List_Lexorder"
begin

text \<open>
  \<open>common/db.py\<close> and \<open>execution/trade_recorder.py\<close>: the configuration of the local datastore, the
  migration runner with its ledger, and the recorder's upsert of one execution outcome. Executing a
  script or a statement is the database's business and a parameter that may raise; a table with a
  primary key is modelled for the one statement the recorder builds.
\<close>

section \<open>Configuration\<close>

record db_config =
  dc_provider :: string
  dc_path :: string
  dc_dsn :: "string option"

definition db_config_from :: "secrets \<Rightarrow> db_config res" where
  "db_config_from sec = (let provider = lower (sec_get_nonempty sec ''DB_PROVIDER'' ''sqlite'') in
     if provider = ''postgres'' then emap (\<lambda>dsn. \<lparr>dc_provider = provider, dc_path = ''state/db/system2.db'', dc_dsn = Some dsn\<rparr>)
       (sec_require sec ''DB_DSN'')
     else if provider = ''sqlite'' then Inr \<lparr>dc_provider = provider,
       dc_path = sec_get_or sec ''DB_PATH'' ''state/db/system2.db'', dc_dsn = None\<rparr>
     else Inl ValueError)"

section \<open>Migrations\<close>

text \<open>The ledger \<open>schema_migrations\<close> and the rest of the database. A file is its name and its text.\<close>

record 'd migrated =
  md_ledger :: "string list"
  md_data :: 'd

text \<open>The ledger is read once, before the loop.\<close>

fun apply_files :: "(string \<Rightarrow> ('d, unit) act) \<Rightarrow> string list \<Rightarrow> (string \<times> string) list \<Rightarrow> ('d migrated, string list) act" where
  "apply_files run applied [] db = (db, Inr [])"
| "apply_files run applied ((name, sql) # fs) db =
     (if name \<in> set applied then apply_files run applied fs db
      else case run sql (md_data db) of
        (d, Inl e) \<Rightarrow> (db\<lparr>md_data := d\<rparr>, Inl e)
      | (d, Inr u) \<Rightarrow> (case apply_files run applied fs (db\<lparr>md_data := d, md_ledger := md_ledger db @ [name]\<rparr>) of
            (db1, r) \<Rightarrow> (db1, emap (\<lambda>newly. name # newly) r)))"

definition apply_migrations :: "(string \<Rightarrow> ('d, unit) act) \<Rightarrow> (string \<times> string) list \<Rightarrow> ('d migrated, string list) act" where
  "apply_migrations run dir db = apply_files run (md_ledger db) (sort_key fst dir) db"

section \<open>The recorder\<close>

type_synonym sql_row = "(string \<times> pyval) list"

text \<open>\<open>INSERT INTO t (cols) VALUES (row) ON CONFLICT (key) DO UPDATE SET \<dots>\<close>: the key's column and the row.\<close>

record upsert =
  up_table :: string
  up_key :: string
  up_row :: sql_row

record 'd recorder =
  rc_execute :: "upsert \<Rightarrow> ('d, unit) act"
  rc_table :: string
  rc_cols :: "(string \<times> string) list"

definition recorder_cols :: "string list \<Rightarrow> (string \<times> string) list" where
  "recorder_cols existing = fold (\<lambda>c m. AList.update (lower c) c m) existing []"

definition first_float :: "pyfloat option \<Rightarrow> pyfloat \<Rightarrow> pyval" where
  "first_float a b = (case a of Some x \<Rightarrow> VFloat x | None \<Rightarrow> VFloat b)"

definition candidate_row :: "string \<Rightarrow> constructed_order \<Rightarrow> fill_result \<Rightarrow> sql_row res" where
  "candidate_row now c f = ebind (fl_to_int (co_units c)) (\<lambda>units. emap (\<lambda>filled.
     [(''Order_ID'', VStr (co_key c)), (''Correlation_ID'', VStr (co_corr c)), (''Instrument'', VStr (co_instrument c)),
      (''Side'', VStr (co_side c)), (''Units'', VInt units), (''Requested_Price'', VFloat (co_entry c)),
      (''Broker_Order_ID'', case fr_order_id f of None \<Rightarrow> VNone | Some s \<Rightarrow> VStr s),
      (''Broker_Trade_ID'', case fr_trade_id f of None \<Rightarrow> VNone | Some s \<Rightarrow> VStr s),
      (''Fill_Price'', case fr_price f of None \<Rightarrow> VNone | Some x \<Rightarrow> VFloat x), (''Fill_Time'', fr_time f),
      (''Slippage_Pips'', case fr_slippage f of None \<Rightarrow> VNone | Some x \<Rightarrow> VFloat x),
      (''Realized_Status'', VStr (fr_status f)), (''Filled_Units'', VInt filled),
      (''Stop_Loss_Price'', first_float (fr_sl f) (co_sl c)), (''Take_Profit_Price'', first_float (fr_tp f) (co_tp c)),
      (''Model_Set_ID'', case fr_model_set f of None \<Rightarrow> VNone | Some s \<Rightarrow> VStr s), (''Reject_Reason'', fr_reason f),
      (''Updated_At'', VStr now)]) (fl_to_int (fr_units f)))"

definition stored_row :: "(string \<times> string) list \<Rightarrow> sql_row \<Rightarrow> sql_row" where
  "stored_row cols row = fold (\<lambda>(k, v) m. case map_of cols (lower k) of None \<Rightarrow> m | Some c \<Rightarrow> AList.update c v m) row []"

text \<open>The numbers are converted outside the \<open>try\<close>; a failed statement is logged only.\<close>

definition record_fill :: "'d recorder \<Rightarrow> string \<Rightarrow> constructed_order \<Rightarrow> fill_result \<Rightarrow> ('d, unit) act" where
  "record_fill rc now c f d = (case candidate_row now c f of
      Inl e \<Rightarrow> (d, Inl e)
    | Inr cand \<Rightarrow> (let row = stored_row (rc_cols rc) cand in
        case map_of (rc_cols rc) (lower ''Order_ID'') of
          None \<Rightarrow> (d, Inr ())
        | Some key \<Rightarrow> if row = [] then (d, Inr ())
            else scatch (\<lambda>_. True) (rc_execute rc \<lparr>up_table = rc_table rc, up_key = key, up_row = row\<rparr>) (\<lambda>_. sret ()) d))"

text \<open>The statement on a table whose key column is its primary key: the row of the same key gets the
  given columns, and a new key a new row.\<close>

definition row_key :: "string \<Rightarrow> sql_row \<Rightarrow> pyval option" where
  "row_key key row = map_of row key"

definition apply_upsert :: "upsert \<Rightarrow> sql_row list \<Rightarrow> sql_row list" where
  "apply_upsert up rows =
     (if list_ex (\<lambda>r. row_key (up_key up) r = row_key (up_key up) (up_row up)) rows
      then map (\<lambda>r. if row_key (up_key up) r = row_key (up_key up) (up_row up)
                    then fold (\<lambda>(c, v) m. AList.update c v m) (up_row up) r else r) rows
      else rows @ [up_row up])"

definition table_execute :: "upsert \<Rightarrow> (sql_row list, unit) act" where
  "table_execute up rows = (apply_upsert up rows, Inr ())"

section \<open>Laws\<close>

definition pending :: "string list \<Rightarrow> (string \<times> string) list \<Rightarrow> (string \<times> string) list" where
  "pending applied fs = filter (\<lambda>f. fst f \<notin> set applied) fs"

lemma pending_simps [simp]: "pending applied [] = []"
  "pending applied (f # fs) = (if fst f \<in> set applied then pending applied fs else f # pending applied fs)"
  by (simp_all add: pending_def)

lemma apply_files_ledger:
  assumes "apply_files run applied fs db = (db', r)"
  shows "\<exists>k. md_ledger db' = md_ledger db @ map fst (take k (pending applied fs))
    \<and> (\<forall>newly. r = Inr newly \<longrightarrow> newly = map fst (pending applied fs) \<and> k = length newly)"
  using assms
proof (induction fs arbitrary: db db' r)
  case (Cons f fs)
  obtain name sql where f: "f = (name, sql)" by force
  show ?case
  proof (cases "name \<in> set applied")
    case True
    with Cons f show ?thesis by simp
  next
    case False
    obtain d r1 where run: "run sql (md_data db) = (d, r1)" by force
    show ?thesis
    proof (cases r1)
      case (Inl e)
      with Cons.prems f False run show ?thesis by (intro exI [of _ 0]) auto
    next
      case (Inr u)
      let ?db = "db\<lparr>md_data := d, md_ledger := md_ledger db @ [name]\<rparr>"
      obtain db1 r2 where rest: "apply_files run applied fs ?db = (db1, r2)" by force
      obtain k where "md_ledger db1 = md_ledger ?db @ map fst (take k (pending applied fs))
          \<and> (\<forall>newly. r2 = Inr newly \<longrightarrow> newly = map fst (pending applied fs) \<and> k = length newly)"
        using Cons.IH [OF rest] by (rule exE)
      note k = this [THEN conjunct1] this [THEN conjunct2, rule_format]
      have "db' = db1" "r = emap (\<lambda>newly. name # newly) r2" using Cons.prems f False run Inr rest by auto
      note eqs = this
      have "md_ledger db' = md_ledger db @ map fst (take (Suc k) (pending applied (f # fs)))"
        unfolding eqs(1) k(1) using False by (simp add: f)
      moreover have "newly = map fst (pending applied (f # fs)) \<and> Suc k = length newly" if ok: "r = Inr newly" for newly
      proof -
        obtain n2 where n2: "r2 = Inr n2" "newly = name # n2" using ok eqs(2) by (cases r2) auto
        show ?thesis using k(2) [OF n2(1)] False by (simp add: f n2(2))
      qed
      ultimately show ?thesis by blast
    qed
  qed
qed simp

lemma apply_files_none: "fst ` set fs \<subseteq> set applied \<Longrightarrow> apply_files run applied fs db = (db, Inr [])"
  by (induction fs) auto

text \<open>Migrations run once. A successful run applies, in the order of their names, exactly the files the
  ledger did not list, and lists them; running again, with whatever the scripts would now do, applies
  nothing and changes nothing. A failed run has listed a prefix of the pending files.\<close>

theorem migrations_run_once:
  assumes "apply_migrations run dir db = (db', r)"
  shows "(\<exists>k. md_ledger db' = md_ledger db @ map fst (take k (pending (md_ledger db) (sort_key fst dir))))
    \<and> (r = Inr newly \<longrightarrow> newly = map fst (pending (md_ledger db) (sort_key fst dir))
        \<and> apply_migrations run' dir db' = (db', Inr []))"
proof -
  let ?fs = "sort_key fst dir"
  from apply_files_ledger [OF assms [unfolded apply_migrations_def]]
  obtain k where k: "md_ledger db' = md_ledger db @ map fst (take k (pending (md_ledger db) ?fs))"
      "\<forall>newly. r = Inr newly \<longrightarrow> newly = map fst (pending (md_ledger db) ?fs) \<and> k = length newly" by blast
  have "apply_migrations run' dir db' = (db', Inr [])" if "r = Inr newly"
  proof -
    have "md_ledger db' = md_ledger db @ map fst (pending (md_ledger db) ?fs)" using k that by auto
    then have "fst ` set ?fs \<subseteq> set (md_ledger db')" by (auto simp: pending_def)
    then show ?thesis unfolding apply_migrations_def by (rule apply_files_none)
  qed
  with k show ?thesis by blast
qed

theorem migrations_run_once_witness:
  "apply_migrations (\<lambda>sql d. (d @ [sql], Inr ())) [(''002.sql'', ''B''), (''001.sql'', ''A'')] \<lparr>md_ledger = [], md_data = []\<rparr>
     = (\<lparr>md_ledger = [''001.sql'', ''002.sql''], md_data = [''A'', ''B'']\<rparr>, Inr [''001.sql'', ''002.sql''])
   \<and> apply_migrations (\<lambda>sql d. (d @ [sql], Inr ())) [(''002.sql'', ''B''), (''001.sql'', ''A'')]
     \<lparr>md_ledger = [''001.sql'', ''002.sql''], md_data = [''A'', ''B'']\<rparr>
     = (\<lparr>md_ledger = [''001.sql'', ''002.sql''], md_data = [''A'', ''B'']\<rparr>, Inr [])"
proof -
  have sorted: "sort_key fst [(''002.sql'', ''B''), (''001.sql'', ''A'')] = [(''001.sql'', ''A''), (''002.sql'', ''B'')]" by code_simp
  have one: "apply_migrations (\<lambda>sql d. (d @ [sql], Inr ())) [(''002.sql'', ''B''), (''001.sql'', ''A'')] \<lparr>md_ledger = [], md_data = []\<rparr>
     = (\<lparr>md_ledger = [''001.sql'', ''002.sql''], md_data = [''A'', ''B'']\<rparr>, Inr [''001.sql'', ''002.sql''])"
    by (simp add: apply_migrations_def sorted)
  from migrations_run_once [OF one, of "[''001.sql'', ''002.sql'']"] one show ?thesis by blast
qed

text \<open>The rows of a table with a primary key.\<close>

definition keyed :: "string \<Rightarrow> sql_row list \<Rightarrow> bool" where
  "keyed key rows \<longleftrightarrow> distinct (map (row_key key) rows)"

lemma fold_update_key:
  assumes "map_of up key = Some v" "map_of m key = Some v" "distinct (map fst up)"
  shows "map_of (fold (\<lambda>(c, v) m. AList.update c v m) up m) key = Some v"
  using assms
proof (induction up arbitrary: m)
  case (Cons x up)
  show ?case
  proof (cases "fst x = key")
    case True
    then have "map_of up key = None" using Cons.prems(3) by (auto simp: map_of_eq_None_iff)
    have "map_of (fold (\<lambda>(c, v) m. AList.update c v m) up m') key = map_of m' key" if "key \<notin> fst ` set up" for m'
      using that by (induction up arbitrary: m') (auto simp: update_conv')
    then show ?thesis using Cons.prems True by (auto simp: update_conv' case_prod_unfold)
  next
    case False
    with Cons.prems show ?thesis by (cases x) (auto intro!: Cons.IH simp: update_conv')
  qed
qed simp

text \<open>An upsert keeps one row per key.\<close>

lemma apply_upsert_keyed:
  assumes "keyed key rows" "up_key up = key" "map_of (up_row up) key = Some v" "distinct (map fst (up_row up))"
  shows "keyed key (apply_upsert up rows)" "Some v \<in> row_key key ` set (apply_upsert up rows)"
    "\<And>r. r \<in> set rows \<Longrightarrow> row_key key r \<noteq> Some v \<Longrightarrow> r \<in> set (apply_upsert up rows)"
proof -
  have same: "row_key key (if row_key key r = Some v then fold (\<lambda>(c, v) m. AList.update c v m) (up_row up) r else r) = row_key key r" for r
    using fold_update_key [OF assms(3) _ assms(4), of r] by (simp add: row_key_def)
  have up: "row_key key (up_row up) = Some v" using assms(3) by (simp add: row_key_def)
  show "keyed key (apply_upsert up rows)"
    using assms(1) up same by (auto simp: keyed_def apply_upsert_def assms(2) list_ex_iff comp_def image_iff)
  show "Some v \<in> row_key key ` set (apply_upsert up rows)"
  proof (cases "list_ex (\<lambda>r. row_key key r = Some v) rows")
    case True
    then obtain r where "r \<in> set rows" "row_key key r = Some v" by (auto simp: list_ex_iff)
    then show ?thesis using up same [of r] True
      by (intro image_eqI [where x = "if row_key key r = Some v then fold (\<lambda>(c, v) m. AList.update c v m) (up_row up) r else r"])
         (auto simp: apply_upsert_def assms(2) intro!: imageI)
  qed (simp add: apply_upsert_def assms(2) up)
  show "\<And>r. r \<in> set rows \<Longrightarrow> row_key key r \<noteq> Some v \<Longrightarrow> r \<in> set (apply_upsert up rows)"
    by (force simp: apply_upsert_def assms(2) up)
qed

lemma stored_row_spec:
  assumes "map_of cols k0 = Some key" "distinct (map snd cols)" "\<forall>(k, v) \<in> set row. lower k \<noteq> k0"
  shows "map_of (fold (\<lambda>(k, v) m. case map_of cols (lower k) of None \<Rightarrow> m | Some c \<Rightarrow> AList.update c v m) row m) key = map_of m key
    \<and> (distinct (map fst m) \<longrightarrow>
        distinct (map fst (fold (\<lambda>(k, v) m. case map_of cols (lower k) of None \<Rightarrow> m | Some c \<Rightarrow> AList.update c v m) row m)))"
  using assms(3)
proof (induction row arbitrary: m)
  case (Cons x row)
  obtain k v where x: "x = (k, v)" by force
  show ?case
  proof (cases "map_of cols (lower k)")
    case None
    with Cons x show ?thesis by simp
  next
    case (Some c)
    have "c \<noteq> key"
    proof
      assume "c = key"
      with Some assms(1) have "(lower k, key) \<in> set cols" "(k0, key) \<in> set cols" by (simp_all add: map_of_SomeD)
      then have "lower k = k0" using assms(2) by (metis eq_snd_iff distinct_map inj_onD snd_conv prod.inject)
      with Cons.prems x show False by simp
    qed
    with Cons.IH [of "AList.update c v m"] Cons.prems Some x show ?thesis by (simp add: update_conv' distinct_update)
  qed
qed simp

lemma candidate_keys:
  assumes "candidate_row now c f = Inr cand"
  shows "\<exists>rest. cand = (''Order_ID'', VStr (co_key c)) # rest \<and> (\<forall>(k, v) \<in> set rest. lower k \<noteq> ''order_id'')"
proof -
  have names: "\<forall>k \<in> set [''Correlation_ID'', ''Instrument'', ''Side'', ''Units'', ''Requested_Price'', ''Broker_Order_ID'', ''Broker_Trade_ID'',
      ''Fill_Price'', ''Fill_Time'', ''Slippage_Pips'', ''Realized_Status'', ''Filled_Units'', ''Stop_Loss_Price'', ''Take_Profit_Price'',
      ''Model_Set_ID'', ''Reject_Reason'', ''Updated_At'']. lower k \<noteq> ''order_id''" by code_simp
  show ?thesis using assms names by (auto simp: candidate_row_def ebind_Inr_iff emap_Inr_iff)
qed

text \<open>One row per order, however often its outcome is recorded: recording into a table with the order id
  as primary key does not raise when the sizes are numbers, keeps one row per key, has a row of this
  order afterwards and leaves the rows of other orders alone.\<close>

theorem recorded_once_per_order:
  assumes "rc_execute rc = table_execute" "map_of (rc_cols rc) ''order_id'' = Some key" "distinct (map snd (rc_cols rc))"
    and "keyed key rows" "candidate_row now c f = Inr cand"
  shows "\<exists>rows'. record_fill rc now c f rows = (rows', Inr ()) \<and> keyed key rows' \<and> Some (VStr (co_key c)) \<in> row_key key ` set rows'
    \<and> (\<forall>r \<in> set rows. row_key key r \<noteq> Some (VStr (co_key c)) \<longrightarrow> r \<in> set rows')"
proof -
  obtain rest where rest: "cand = (''Order_ID'', VStr (co_key c)) # rest" "\<forall>(k, v) \<in> set rest. lower k \<noteq> ''order_id''"
    using candidate_keys [OF assms(5)] by blast
  have low: "lower ''Order_ID'' = ''order_id''" by code_simp
  let ?row = "stored_row (rc_cols rc) cand" and ?first = "AList.update key (VStr (co_key c)) []"
  let ?up = "\<lparr>up_table = rc_table rc, up_key = key, up_row = ?row\<rparr>"
  have row: "map_of ?row key = Some (VStr (co_key c))" "distinct (map fst ?row)"
    using stored_row_spec [OF assms(2,3) rest(2), of ?first] by (simp_all add: stored_row_def rest(1) low assms(2))
  then have "?row \<noteq> []" by auto
  then have "record_fill rc now c f rows = (apply_upsert ?up rows, Inr ())"
    by (simp add: record_fill_def assms(1,2,5) low Let_def scatch_def table_execute_def)
  with apply_upsert_keyed [OF assms(4), of ?up] row show ?thesis by auto
qed

end
