(* ===== verification/Startup.thy ===== *)
theory Startup
  imports Queue_Open Live_Regime Local_Store Lifecycle
begin

text \<open>
  The assembly \<open>build_from_secrets\<close> of \<open>execution/lifecycle.py\<close> up to the runtime it returns: what every
  component reads from the configuration, in the order in which the code reads it, with the files
  that are opened on the way. The constructors it calls in other modules are here too where they read
  the configuration (the adapter's settings, the ledger's file, the candle source).
\<close>

section \<open>Constructors\<close>

text \<open>The settings of \<open>OandaAdapter.__init__\<close>.\<close>

definition adapter_settings :: "secrets \<Rightarrow> adapter res" where
  "adapter_settings sec =
     ebind (fl_of_int (sec_int sec ''PRICE_MAX_AGE_SEC'' 60)) (\<lambda>age.
     ebind (fl_of_int (sec_int sec ''SLIPPAGE_TOLERANCE_PIPS'' 2)) (\<lambda>tol.
     ebind (fl_of_int (sec_int sec ''BROKER_RETRY_BACKOFF_SEC'' 2)) (\<lambda>backoff.
       Inr \<lparr>ad_price_max_age = age, ad_slippage_tol = tol, ad_retry_max = sec_int sec ''BROKER_RETRY_MAX'' 3, ad_backoff = backoff\<rparr>)))"

text \<open>\<open>OandaAdapter(transport, secrets=\<dots>)\<close> over a transport built from the same configuration; both
  resolve the environment.\<close>

definition adapter_of :: "secrets \<Rightarrow> (broker_environment \<times> adapter) res" where
  "adapter_of sec = ebind (resolve_environment sec) (\<lambda>transport_env.
     ebind (resolve_environment sec) (\<lambda>env. emap (\<lambda>ad. (env, ad)) (adapter_settings sec)))"

definition open_outbox :: "host \<Rightarrow> disk \<Rightarrow> string \<Rightarrow> string \<Rightarrow> (vfs, string \<times> backend) act" where
  "open_outbox h dk owner db_path = local_init h dk owner db_path OUTBOX_MAX_ATTEMPTS DEFAULT_LEASE_SEC False None"

definition open_processed :: "host \<Rightarrow> disk \<Rightarrow> string \<Rightarrow> (vfs, string) act" where
  "open_processed h dk db_path = sbind (sqlite_open h (dk_fresh dk) (ppath_of db_path)) (\<lambda>name fs.
     (alter_tables (dk_page dk) (create_table ''processed'' [''idempotency_key'', ''processed_at'']) name fs, Inr name))"

text \<open>\<open>OandaCandleSource.__init__\<close>: the environment's name and the token.\<close>

definition candle_credentials :: "secrets \<Rightarrow> (string \<times> string) res" where
  "candle_credentials sec = (let env = lower (sec_get_nonempty sec ''OANDA_ENV'' ''practice'') in
     emap (\<lambda>token. (env, token))
       (if env = ''live'' then sec_require sec ''OANDA_LIVE_API_KEY'' else sec_require sec ''OANDA_PRACTICE_API_KEY''))"

text \<open>The recorder over a connection; connecting and listing the columns is the database's.\<close>

definition recorder_setup :: "(db_config \<Rightarrow> (vfs, string list) act) \<Rightarrow> secrets \<Rightarrow> (vfs, (string \<times> string) list option) act" where
  "recorder_setup columns_of sec = (if sec_bool sec ''DB_RECORD_ENABLED'' True then
       scatch (\<lambda>_. True) (sbind (slift (db_config_from sec)) (\<lambda>cfg. sbind (columns_of cfg) (\<lambda>cols. sret (Some (recorder_cols cols)))))
         (\<lambda>_. sret None)
     else sret None)"

definition regime_setup :: "secrets \<Rightarrow> (string \<times> (int \<times> int \<times> pyfloat) \<times> scheduler) option" where
  "regime_setup sec = (if sec_bool sec ''REGIME_ENABLED'' True then
       (case ebind (sec_require sec ''ARTIFACT_ROOT'') (\<lambda>root. ebind (candle_credentials sec) (\<lambda>_.
          emap (\<lambda>s. (root, s, scheduler_of sec)) (detector_settings sec))) of Inl e \<Rightarrow> None | Inr r \<Rightarrow> Some r)
     else None)"

text \<open>\<open>build_storage\<close>, the factory of the artifact storage that the downloader uses.\<close>

datatype storage_choice = LocalFS string | GCS string "string option"

definition build_storage :: "secrets \<Rightarrow> storage_choice res" where
  "build_storage sec = (let provider = lower (sec_get_nonempty sec ''STORAGE_PROVIDER'' ''gcs'') in
     if provider = ''localfs'' then emap LocalFS (sec_require sec ''STORAGE_LOCAL_ROOT'')
     else if provider = ''gcs'' then emap (\<lambda>bucket. GCS bucket (sec_get sec ''PUBSUB_PROJECT_ID'')) (sec_require sec ''GCS_BUCKET'')
     else Inl ValueError)"

section \<open>The assembly\<close>

record started =
  su_queue :: queue_choice
  su_env :: broker_environment
  su_adapter :: adapter
  su_outbox :: "string \<times> backend"
  su_inbound :: string
  su_publish_retries :: int
  su_recorder :: "(string \<times> string) list option"
  su_processed :: string
  su_mode :: exec_mode
  su_shadow :: bool
  su_max_open :: int
  su_safety :: safety_config
  su_close_ledger :: string
  su_close_topic :: string
  su_sweep_interval :: pyfloat
  su_validator :: order_validator
  su_outbound :: string
  su_max_age :: int
  su_regime :: "(string \<times> (int \<times> int \<times> pyfloat) \<times> scheduler) option"
  su_sentinel :: string
  su_flatten :: bool

definition build_from_secrets :: "(db_config \<Rightarrow> (vfs, string list) act) \<Rightarrow> host \<Rightarrow> disk \<Rightarrow> string \<Rightarrow> secrets \<Rightarrow> (vfs, started) act" where
  "build_from_secrets columns_of h dk owner sec =
     sbind (build_queue h dk owner sec) (\<lambda>queue.
     sbind (slift (adapter_of sec)) (\<lambda>(env, ad).
     sbind (open_outbox h dk owner (sec_get_or sec ''FILL_OUTBOX_PATH'' ''state/queue/fill_outbox.db'')) (\<lambda>outbox.
     sbind (slift (sec_require sec ''INBOUND_QUEUE_NAME'')) (\<lambda>inbound.
     sbind (recorder_setup columns_of sec) (\<lambda>rec_cols.
     sbind (open_processed h dk (sec_get_or sec ''PROCESSED_STORE_PATH'' ''state/offsets/processed.db'')) (\<lambda>processed.
     sbind (slift (resolve_shadow sec True)) (\<lambda>shadow.
     sbind (slift (safety_config_from sec)) (\<lambda>safety.
     sbind (open_processed h dk (sec_get_or sec ''CLOSE_LEDGER_PATH'' ''state/offsets/close_sweep.db'')) (\<lambda>close_ledger.
     sbind (slift (fl_of_int (sec_int sec ''CLOSE_SWEEP_INTERVAL_SEC'' 30))) (\<lambda>interval.
     sbind (slift (validator_from_secrets sec)) (\<lambda>validator.
     sbind (slift (sec_require sec ''OUTBOUND_QUEUE_NAME'')) (\<lambda>outbound.
     sret \<lparr>su_queue = queue, su_env = env, su_adapter = ad, su_outbox = outbox, su_inbound = inbound,
       su_publish_retries = sec_int sec ''FILL_PUBLISH_RETRY_MAX'' 5, su_recorder = rec_cols, su_processed = processed,
       su_mode = EXECUTION_ONLY, su_shadow = shadow, su_max_open = sec_int sec ''MAX_OPEN_POSITIONS'' 8, su_safety = safety,
       su_close_ledger = close_ledger, su_close_topic = sec_get_or sec ''S3_CLOSE_TOPIC'' ''ams-inbound.ams'',
       su_sweep_interval = interval, su_validator = validator, su_outbound = outbound,
       su_max_age = sec_int sec ''ORDER_MAX_AGE_SEC'' 300, su_regime = regime_setup sec,
       su_sentinel = sec_get_or sec ''STOP_SENTINEL_PATH'' ''state/control/STOP'',
       su_flatten = sec_bool sec ''EXEC_STOP_FLATTEN'' False\<rparr>))))))))))))"

text \<open>\<open>__main__.main\<close> up to the start of the runtime: a missing required value is exit code 2, every other
  exception leaves the process.\<close>

definition start_service :: "(db_config \<Rightarrow> (vfs, string list) act) \<Rightarrow> host \<Rightarrow> disk \<Rightarrow> string \<Rightarrow> secrets \<Rightarrow> (vfs, int + started) act" where
  "start_service columns_of h dk owner sec =
     scatch (\<lambda>e. e = MissingSecretError) (sbind (build_from_secrets columns_of h dk owner sec) (\<lambda>s. sret (Inr s))) (\<lambda>_. sret (Inl 2))"

section \<open>Candles\<close>

record candle =
  cd_time :: pyval
  cd_open :: pyfloat
  cd_high :: pyfloat
  cd_low :: pyfloat
  cd_close :: pyfloat
  cd_volume :: pyfloat

definition candle_row :: "pyval \<Rightarrow> candle option res" where
  "candle_row c = ebind (vget_or c ''complete'' (VBool False)) (\<lambda>done. if \<not> truthy done then Inr None else
     ebind (vindex c ''mid'') (\<lambda>mid.
     ebind (vindex c ''time'') (\<lambda>time.
     ebind (ebind (vindex mid ''o'') py_float) (\<lambda>op.
     ebind (ebind (vindex mid ''h'') py_float) (\<lambda>hi.
     ebind (ebind (vindex mid ''l'') py_float) (\<lambda>lo.
     ebind (ebind (vindex mid ''c'') py_float) (\<lambda>cl.
     ebind (ebind (vget_or c ''volume'' (VInt 0)) py_float) (\<lambda>vol.
       Inr (Some \<lparr>cd_time = time, cd_open = op, cd_high = hi, cd_low = lo, cd_close = cl, cd_volume = vol\<rparr>)))))))))"

text \<open>The rows \<open>fetch_candles\<close> makes of a response, before pandas parses their times and sorts them.\<close>

definition candle_rows :: "pyval \<Rightarrow> candle list res" where
  "candle_rows response = ebind (vget_or response ''candles'' (VList [])) (\<lambda>cs. ebind (py_iter cs) (\<lambda>xs.
     emap (List.map_filter id) (emapM candle_row xs)))"

end
