(* ===== verification/Startup_Laws.thy ===== *)
theory Startup_Laws
  imports Startup
begin

text \<open>
  What a start establishes: the values it cannot do without, the files it may open, and what an inline
  comment in the configuration file becomes.
\<close>

section \<open>A start that succeeds\<close>

lemma sbind_Inr_iff: "sbind m f s = (s', Inr b) \<longleftrightarrow> (\<exists>s1 a. m s = (s1, Inr a) \<and> f a s1 = (s', Inr b))"
  by (cases "m s"; cases "snd (m s)") (auto simp: sbind_def)

lemma sbindE:
  assumes "sbind m f s = (s', Inr b)"
  obtains s1 a where "m s = (s1, Inr a)" "f a s1 = (s', Inr b)"
  using assms by (auto simp: sbind_Inr_iff)

lemma sliftE:
  assumes "slift r s = (s', Inr b)"
  obtains "s' = s" "r = Inr b"
  using assms by simp

lemma sretE:
  assumes "sret a s = (s', Inr b)"
  obtains "s' = s" "b = a"
  using assms by simp

lemma adapter_of_Inr: "adapter_of sec = Inr ea \<Longrightarrow> resolve_environment sec = Inr (fst ea) \<and> adapter_settings sec = Inr (snd ea)"
  by (auto simp: adapter_of_def ebind_Inr_iff emap_Inr_iff)

lemma build_from_secrets_Inr:
  assumes "build_from_secrets columns_of h dk owner sec fs = (fs', Inr s)"
  obtains fs1 where "build_queue h dk owner sec fs = (fs1, Inr (su_queue s))" "resolve_environment sec = Inr (su_env s)"
    "adapter_settings sec = Inr (su_adapter s)" "sec_require sec ''INBOUND_QUEUE_NAME'' = Inr (su_inbound s)"
    "resolve_shadow sec True = Inr (su_shadow s)" "safety_config_from sec = Inr (su_safety s)"
    "validator_from_secrets sec = Inr (su_validator s)" "sec_require sec ''OUTBOUND_QUEUE_NAME'' = Inr (su_outbound s)"
    "su_mode s = EXECUTION_ONLY"
proof -
  from assms show thesis
    unfolding build_from_secrets_def case_prod_unfold
  proof (elim sbindE sliftE sretE, goal_cases)
    case (1 fs1 q s2 ea s3 out s4 inb s5 rc s6 pr s7 sh s8 saf s9 cl s10 iv s11 val s12 outb)
    note facts = this
    have s: "su_queue s = q" "su_env s = fst ea" "su_adapter s = snd ea" "su_inbound s = inb" "su_shadow s = sh"
      "su_safety s = saf" "su_validator s = val" "su_outbound s = outb" "su_mode s = EXECUTION_ONLY"
      unfolding facts by simp_all
    show thesis
      by (rule that; unfold s) (rule facts adapter_of_Inr [THEN conjunct1] adapter_of_Inr [THEN conjunct2] refl)+
  qed
qed

lemma resolve_shadow_Inr: "resolve_shadow sec True = Inr b \<Longrightarrow>
    (\<exists>v. sec_get sec ''EXEC_SHADOW'' = Some v \<and> strip v \<noteq> [] \<and> b = (lower (strip v) \<in> {''1'', ''true'', ''yes'', ''on''}))"
  by (auto simp: resolve_shadow_def sec_bool_def sec_get_or_def strip_def split: option.splits if_splits)

lemma resolve_environment_Inr:
  assumes "resolve_environment sec = Inr env"
  shows "if lower (sec_get_nonempty sec ''OANDA_ENV'' ''practice'') = ''live''
    then be_env env = ''live'' \<and> sec_get sec ''OANDA_LIVE_API_KEY'' = Some (be_token env) \<and> be_token env \<noteq> []
      \<and> sec_get sec ''OANDA_LIVE_ACCOUNT_ID'' = Some (be_account env) \<and> be_account env \<noteq> []
    else be_env env = ''practice'' \<and> sec_require sec ''OANDA_PRACTICE_API_KEY'' = Inr (be_token env)
      \<and> sec_require sec ''OANDA_PRACTICE_ACCOUNT_ID'' = Inr (be_account env)"
  using assms by (auto simp: resolve_environment_def Let_def ebind_Inr_iff split: if_splits option.splits list.splits)

lemma build_queue_LocalQueue:
  assumes "build_queue h dk owner sec fs = (fs', Inr (LocalQueue name b))"
  shows "queue_provider sec = ''local''"
  using assms by (auto simp: build_queue_def sret_def sraise_def emap_Inr_iff split: if_splits elim!: sliftE)


section \<open>Comments in the configuration file\<close>

definition hash :: char where
  "hash = CHR ''#''"

lemma in_set_dropWhile: "c \<in> set xs \<Longrightarrow> \<not> P c \<Longrightarrow> c \<in> set (dropWhile P xs)"
  by (induction xs) auto

lemma in_set_strip: "c \<in> set s \<Longrightarrow> \<not> is_space c \<Longrightarrow> c \<in> set (strip s)"
  by (simp add: strip_def in_set_dropWhile)

lemma in_set_strip_char: "c \<in> set s \<Longrightarrow> c \<noteq> d \<Longrightarrow> c \<in> set (strip_char d s)"
  by (simp add: strip_char_def in_set_dropWhile)

lemma hash_facts: "\<not> is_space hash" "hash \<noteq> char_of (39::nat)" "hash \<noteq> char_of (34::nat)" "lower_char hash = hash" "\<not> is_digit hash"
  "hash \<noteq> CHR ''-''" "hash \<noteq> CHR ''+''" "hash \<noteq> CHR ''_''"
  by code_simp+

lemma env_line_keeps_hash:
  assumes "env_line raw = Some (k, v)" "hash \<in> set (snd (partition_eq (strip raw)))"
  shows "hash \<in> set v"
proof -
  obtain k0 v0 where p: "partition_eq (strip raw) = (k0, v0)" by force
  then have "v = strip_char (char_of (39::nat)) (strip_char (char_of (34::nat)) (strip v0))"
    using assms(1) by (auto simp: env_line_def Let_def split: if_splits)
  moreover have "hash \<in> set v0" using assms(2) p by simp
  ultimately show ?thesis by (simp add: in_set_strip_char in_set_strip hash_facts)
qed

lemma hash_not_flag:
  assumes "hash \<in> set v"
  shows "lower (strip v) \<notin> {''1'', ''true'', ''yes'', ''on''}"
proof -
  have "hash \<in> set (strip v)" using assms hash_facts(1) by (rule in_set_strip)
  then have "lower_char hash \<in> set (lower (strip v))" unfolding lower_def by (simp add: image_eqI)
  then have "hash \<in> set (lower (strip v))" by (simp add: hash_facts)
  then show ?thesis by (auto simp: hash_def)
qed

lemma hash_survives_underscores: "hash \<in> set s \<Longrightarrow> drop_underscores b s = Some t \<Longrightarrow> hash \<in> set t"
proof (induction b s arbitrary: t rule: drop_underscores.induct)
  case (2 b c cs)
  show ?case
  proof (cases "c = CHR ''_''")
    case True
    with 2 hash_facts(8) show ?thesis by (auto split: if_splits)
  next
    case False
    then obtain r where "drop_underscores (is_digit c) cs = Some r" "t = c # r" using 2(4) by auto
    with 2(2,3) False show ?thesis by (cases "c = hash") auto
  qed
qed simp

lemma hash_read_sign: "hash \<in> set s \<Longrightarrow> hash \<in> set (snd (read_sign s))"
  using hash_facts(6,7) by (cases s) (auto simp: read_sign_def)

lemma hash_not_int:
  assumes "hash \<in> set v"
  shows "int_of_str v = Inl ValueError"
proof -
  have h: "hash \<in> set (strip v)" using assms hash_facts(1) by (rule in_set_strip)
  obtain sg r where r: "read_sign (strip v) = (sg, r)" by force
  with hash_read_sign [OF h] have "hash \<in> set r" by simp
  then have "Option.bind (drop_underscores False r) read_digits = None"
    using hash_facts(5) by (cases "drop_underscores False r")
      (auto simp: read_digits_def list_all_iff dest: hash_survives_underscores)
  then show ?thesis by (simp add: int_of_str_def r)
qed

text \<open>The value a key has in the file is the one of its last line.\<close>

lemma parse_env_file_last:
  assumes "splitlines t = pre @ raw # post" "env_line raw = Some (k, v)" "\<forall>l \<in> set post. \<forall>w. env_line l \<noteq> Some (k, w)"
  shows "map_of (parse_env_file (Some t)) k = Some v"
proof -
  have keep: "map_of (fold (\<lambda>l m. case env_line l of None \<Rightarrow> m | Some (k, v) \<Rightarrow> AList.update k v m) post m) k = map_of m k"
    for m using assms(3) by (induction post arbitrary: m) (auto simp: update_conv' split: option.splits)
  show ?thesis by (simp add: parse_env_file_def assms(1,2) keep update_conv')
qed


text \<open>The line of the template, and a configuration that starts with it.\<close>

definition wit_shadow_line :: string where
  "wit_shadow_line = ''EXEC_SHADOW=true                         # true = construct+validate but SUBMIT NOTHING''"

definition wit_start_secrets :: "string \<Rightarrow> secrets" where
  "wit_start_secrets txt = \<lparr>sec_environ = [(''QUEUE_PROVIDER'', ''pubsub''), (''PUBSUB_PROJECT_ID'', ''p''), (''OANDA_PRACTICE_API_KEY'', ''t''),
       (''OANDA_PRACTICE_ACCOUNT_ID'', ''a''), (''INBOUND_QUEUE_NAME'', ''in''), (''OUTBOUND_QUEUE_NAME'', ''out''),
       (''DB_RECORD_ENABLED'', ''false''), (''REGIME_ENABLED'', ''false'')], sec_file = parse_env_file (Some txt)\<rparr>"

definition wit_host0 :: host where
  "wit_host0 = \<lparr>h_home = (\<lambda>t. None), h_canon = (\<lambda>p. ''/opt/app/'' @ path_str p)\<rparr>"

definition wit_boot :: "(vfs, started) act" where
  "wit_boot = build_from_secrets (\<lambda>cfg fs. (fs, Inr [])) wit_host0 wit_disk ''me'' (wit_start_secrets wit_shadow_line)"

lemma wit_shadow_line_facts: "splitlines wit_shadow_line = [] @ wit_shadow_line # []"
  "env_line wit_shadow_line = Some (''EXEC_SHADOW'', ''true                         # true = construct+validate but SUBMIT NOTHING'')"
  "hash \<in> set (snd (partition_eq (strip wit_shadow_line)))"
  by code_simp+

lemma wit_values:
  "parse_env_file (Some wit_shadow_line) = [(''EXEC_SHADOW'', ''true                         # true = construct+validate but SUBMIT NOTHING'')]"
  "strip ''true                         # true = construct+validate but SUBMIT NOTHING'' \<noteq> []"
  "lower ''pubsub'' = ''pubsub''" "lower ''practice'' = ''practice''" "lower (strip ''false'') = ''false''"
  "float_of_str ''0.25'' = Inr (Fin (1 / 4))"
  by code_simp+

lemma wit_files:
  "h_canon wit_host0 (ppath_of ''state/queue/fill_outbox.db'') = ''/opt/app/state/queue/fill_outbox.db''"
  "h_canon wit_host0 (ppath_of ''state/offsets/processed.db'') = ''/opt/app/state/offsets/processed.db''"
  "h_canon wit_host0 (ppath_of ''state/offsets/close_sweep.db'') = ''/opt/app/state/offsets/close_sweep.db''"
  by code_simp+

lemma wit_readers:
  defines "sec \<equiv> wit_start_secrets wit_shadow_line"
  shows "build_queue h dk owner sec fs = (fs, Inr (PubSubQueue ''p'' None))" "\<exists>ea. adapter_of sec = Inr ea"
    "recorder_setup c sec fs = (fs, Inr None)" "\<exists>b. resolve_shadow sec True = Inr b" "\<exists>c. safety_config_from sec = Inr c"
    "\<exists>v. validator_from_secrets sec = Inr v"
  unfolding sec_def wit_start_secrets_def
  by (simp_all add: build_queue_def queue_provider_def adapter_of_def adapter_settings_def resolve_environment_def recorder_setup_def
      resolve_shadow_def safety_config_from_def validator_from_secrets_def sec_get_nonempty_def sec_get_or_def sec_get_def sec_require_def
      sec_bool_def sec_int_def wit_values fl_of_int_numeral Let_def)

lemma wit_start_succeeds: "\<exists>fs' s. wit_boot (\<lambda>_. None) = (fs', Inr s)"
proof -
  let ?sec = "wit_start_secrets wit_shadow_line"
  obtain ea b c v where r: "adapter_of ?sec = Inr ea" "resolve_shadow ?sec True = Inr b" "safety_config_from ?sec = Inr c"
    "validator_from_secrets ?sec = Inr v" using wit_readers(2,4-6) by blast
  have g: "sec_get ?sec ''INBOUND_QUEUE_NAME'' = Some ''in''" "sec_get ?sec ''OUTBOUND_QUEUE_NAME'' = Some ''out''"
    "sec_get ?sec ''FILL_OUTBOX_PATH'' = None" "sec_get ?sec ''PROCESSED_STORE_PATH'' = None" "sec_get ?sec ''CLOSE_LEDGER_PATH'' = None"
    "sec_get ?sec ''CLOSE_SWEEP_INTERVAL_SEC'' = None"
    by (simp_all add: wit_start_secrets_def sec_get_def wit_values)
  show ?thesis unfolding wit_boot_def build_from_secrets_def
    by (simp add: wit_readers(1,3) r g sbind_def sec_get_or_def sec_require_def sec_int_def open_outbox_def open_processed_def local_init_def
        sqlite_open_def alter_tables_def wit_files DEFAULT_LEASE_SEC_def fl_of_int_numeral Let_def case_prod_unfold)
qed



end
