(* ===== verification/Backfill_Laws.thy ===== *)
theory Backfill_Laws
  imports Close_Laws
begin

text \<open>
  What a run of the backfill tool achieves: afterwards the ledger has every session trade whose close the
  broker can show, and a dry run changes nothing.
\<close>

text \<open>Whatever its state, the broker shows this close of the trade.\<close>

definition broker_shows :: "'b close_source \<Rightarrow> string \<Rightarrow> close_facts \<Rightarrow> string \<Rightarrow> bool" where
  "broker_shows src tid f reason \<longleftrightarrow>
     (\<forall>b. \<exists>b' details. tr_trade (src_transport src) tid b = (b', Inr details) \<and> bf_details details = Inr (Some (Bf_found f reason)))"

definition units_finite :: "close_facts \<Rightarrow> bool" where
  "units_finite f \<longleftrightarrow> (case cf_units f of None \<Rightarrow> True | Some u \<Rightarrow> is_finite u)"

lemma build_close_event_ok: "units_finite f \<Longrightarrow> \<exists>v. build_close_event t f reason time now = Inr v"
  by (cases "cf_units f"; cases "the (cf_units f)") (auto simp: units_finite_def build_close_event_def units_field_def)

lemma backfill_resolve_shows:
  assumes "broker_shows src (mt_id t) f reason" "at_broker (backfill_resolve src t) st = (st1, r)"
  shows "ss_em st1 = ss_em st \<and> r = Inr (Bf_found f reason)"
proof -
  obtain b details where "tr_trade (src_transport src) (mt_id t) (ss_broker st) = (b, Inr details)"
    "bf_details details = Inr (Some (Bf_found f reason))" using assms(1) unfolding broker_shows_def by blast
  then have "backfill_resolve src t (ss_broker st) = (b, Inr (Bf_found f reason))"
    by (simp add: backfill_resolve_def sbind_def scatch_def)
  with assms(2) show ?thesis by (auto simp: at_broker_def)
qed

context close_emission
begin

lemma emit_records:
  assumes "emit led p fuel tr f reason em = Some (em', ok)" "units_finite f"
  shows "pr_seen led (mt_id tr) (snd em') \<and> ok"
proof -
  obtain n s w l where em: "em = ((n, s, w), l)" by (cases em) auto
  show ?thesis
  proof (cases "pr_seen led (mt_id tr) l")
    case True
    with assms(1) em show ?thesis by (auto simp: emit_def)
  next
    case False
    obtain v where "build_close_event tr f reason None (iso_now (fp_clock p n)) = Inr v"
      using build_close_event_ok [OF assms(2)] by blast
    with assms(1) em False show ?thesis by (auto simp: emit_def Let_def seen_mark)
  qed
qed

lemma backfill_trade_records:
  assumes "backfill_trade led p fuel src a tr c st = Some (st', r)" "broker_shows src (mt_id tr) f reason"
    and "closed_since (ba_since a) f" "units_finite f" "\<not> ba_dry_run a"
  shows "pr_seen led (mt_id tr) (snd (ss_em st'))"
proof -
  obtain st1 r1 where l: "at_broker (backfill_resolve src tr) st = (st1, r1)" by force
  note f = backfill_resolve_shows [OF assms(2) l]
  show ?thesis
  proof (cases "pr_seen led (mt_id tr) (snd (ss_em st))")
    case True
    then have "st' = st1\<lparr>ss_em := ss_em st\<rparr>" using assms(1,3,5) l f by (simp add: backfill_trade_def backfill_emit_def)
    with True show ?thesis by simp
  next
    case False
    then obtain em ok where "emit led p fuel tr f reason (ss_em st) = Some (em, ok)" "ss_em st' = em"
      using assms(1,3,5) l f by (auto simp: backfill_trade_def backfill_emit_def)
    then show ?thesis using emit_records assms(4) by blast
  qed
qed

lemma backfill_rows_records:
  assumes p: "fp_outbox p = sops" "fp_topic p = t" and close: "closed_since (ba_since a) f" "units_finite f" "\<not> ba_dry_run a"
    and shown: "broker_shows src tid f reason"
  shows "inv (outbox_of (ss_em st)) \<Longrightarrow> Suc (size (kept t (outbox_of (ss_em st))) + length rows) < fuel \<Longrightarrow>
    backfill_rows led (logging p) fuel src a rows ids c st = Some (st', Inr c') \<Longrightarrow> row \<in> set rows \<Longrightarrow>
    session_trade (ba_now a) row = Inr (Some tr) \<Longrightarrow> mt_id tr = tid \<Longrightarrow> tid \<notin> set ids \<Longrightarrow> pr_seen led tid (snd (ss_em st'))"
proof (induction rows arbitrary: ids c st)
  case (Cons x rows)
  have fuel: "Suc (size (kept t (outbox_of (ss_em st))) + length rows) < fuel" using Cons.prems(2) by simp
  note skip = Cons.IH [OF Cons.prems(1) fuel]
  obtain o_tr where x: "session_trade (ba_now a) x = Inr o_tr" using Cons.prems(3) by (cases "session_trade (ba_now a) x") auto
  have old: "row \<in> set rows" if "row \<noteq> x" using Cons.prems(4) that by simp
  show ?case
  proof (cases "\<exists>u. o_tr = Some u \<and> mt_id u \<notin> set ids")
    case False
    then have "row \<noteq> x" using x Cons.prems(5-7) by auto
    moreover have "backfill_rows led (logging p) fuel src a rows ids c st = Some (st', Inr c')"
      using Cons.prems(3) x False by (cases o_tr) auto
    ultimately show ?thesis using skip Cons.prems(5-7) old by blast
  next
    case True
    then obtain u where u: "o_tr = Some u" "mt_id u \<notin> set ids" by blast
    have "Suc (size (kept t (outbox_of (ss_em st)))) < fuel" using fuel by simp
    from backfill_trade_books [OF p Cons.prems(1) this, of src a u "count_scanned c"] obtain st1 r evs where
      b: "backfill_trade led (logging p) fuel src a u (count_scanned c) st = Some (st1, r)"
        "books t (ss_em st) (ss_em st1) evs" "length evs \<le> 1" by blast
    note b1 = booksD [OF b(2)]
    obtain c1 where c1: "r = Inr c1" and rest: "backfill_rows led (logging p) fuel src a rows (mt_id u # ids) c1 st1 = Some (st', Inr c')"
      using Cons.prems(3) x u b(1) by (cases r) auto
    have fuel1: "Suc (size (kept t (outbox_of (ss_em st1))) + length rows) < fuel" using b1(3) b(3) Cons.prems(2) by simp
    show ?thesis
    proof (cases "mt_id u = tid")
      case True
      have "pr_seen led tid (snd (ss_em st1))"
        using backfill_trade_records [OF b(1) _ close] shown True by blast
      moreover obtain st2 r2 evs2 where "backfill_rows led (logging p) fuel src a rows (mt_id u # ids) c1 st1 = Some (st2, r2)"
        "books t (ss_em st1) (ss_em st2) evs2" using backfill_rows_books [OF p b1(1) fuel1] by blast
      ultimately show ?thesis using rest booksD(6) [of t "ss_em st1" "ss_em st2" evs2 tid] by simp
    next
      case False
      then have "row \<noteq> x" using x u Cons.prems(5,6) by auto
      then show ?thesis using Cons.IH [OF b1(1) fuel1 rest old Cons.prems(5,6)] Cons.prems(7) False by simp
    qed
  qed
qed simp

end


definition wit_closed_details :: pyval where
  "wit_closed_details = VDict [(''state'', VStr ''CLOSED''), (''closingTransactionIDs'', VList [VStr ''21'']), (''realizedPL'', VInt 3),
     (''closeTime'', VStr ''2026-07-21T10:00:00Z'')]"

definition wit_closed_facts :: close_facts where
  "wit_closed_facts = \<lparr>cf_txn = ''21'', cf_pnl = Fin 3, cf_price = None, cf_time = VStr ''2026-07-21T10:00:00Z'', cf_units = None, cf_slip = None\<rparr>"

definition wit_closed_source :: "unit close_source" where
  "wit_closed_source = wit_stream\<lparr>src_transport := (src_transport wit_stream)\<lparr>tr_trade := (\<lambda>tid b. (b, Inr wit_closed_details))\<rparr>\<rparr>"

definition wit_fill_row :: qrow where
  "wit_fill_row = \<lparr>q_seq = 1, q_topic = ''fill_outbox'', q_body = JsonBody (VDict [(''event_type'', VStr ''fill_confirmation''),
       (''payload'', VDict [(''realized_status'', VStr ''FILLED''), (''broker_trade_id'', VStr ''11''), (''instrument'', VStr ''USD_JPY'')])]),
     q_state = Done, q_attempts = 1, q_available = Fin 0, q_ack = None, q_leased = Fin 0, q_owner = None\<rparr>"

definition wit_backfill :: backfill_args where
  "wit_backfill = \<lparr>ba_since = 0, ba_dry_run = False, ba_now = 0, ba_iso_now = ''now''\<rparr>"

lemma wit_closed:
  "broker_shows wit_closed_source tid wit_closed_facts ''other''" "closed_since (ba_since wit_backfill) wit_closed_facts"
  "units_finite wit_closed_facts" "\<not> ba_dry_run wit_backfill"
proof -
  have "bf_details wit_closed_details = Inr (Some (Bf_found wit_closed_facts ''other''))"
    by (simp add: bf_details_def wit_closed_details_def wit_closed_facts_def facts_from_trade_details_def exit_reason_from_trade_details_def
        dependent_filled_def exit_slippage_pips_def optional_price_def optional_units_def float_or_zero_def vlast_def or_else_def)
  then show "broker_shows wit_closed_source tid wit_closed_facts ''other''"
    by (simp add: broker_shows_def wit_closed_source_def)
  have "(case parse_ts_str ''2026-07-21T10:00:00Z'' of Inl e \<Rightarrow> False | Inr t \<Rightarrow> 0 \<le> t)" by code_simp
  then show "closed_since (ba_since wit_backfill) wit_closed_facts" by (simp add: closed_since_def wit_backfill_def wit_closed_facts_def)
qed (simp_all add: units_finite_def wit_closed_facts_def wit_backfill_def)

lemma wit_session: "\<exists>t. session_trade (ba_now wit_backfill) wit_fill_row = Inr (Some t) \<and> mt_id t = ''11''"
  by (simp add: session_trade_def wit_fill_row_def trade_from_envelope_def build_managed_trade_def close_time_of_def float_or_zero_def
      or_else_def post_init_def Let_def)


text \<open>A dry run queries the broker and changes neither outbox nor ledger.\<close>

lemma dry_run_keeps_books: "ba_dry_run a \<Longrightarrow> backfill_rows ops p fuel src a rows ids c st = Some (st', r) \<Longrightarrow> ss_em st' = ss_em st"
proof (induction rows arbitrary: ids c st)
  case (Cons x rows)
  have one: "ss_em st1 = ss_em st" if b: "backfill_trade ops p fuel src a u c0 st = Some (st1, r1)" for u c0 st1 r1
  proof -
    obtain s1 l where l: "at_broker (backfill_resolve src u) st = (s1, l)" by force
    have em: "ss_em s1 = ss_em st" using keepsD [OF at_broker_em refl l] .
    show ?thesis
    proof (cases l)
      case (Inr lk)
      then show ?thesis using b l em Cons.prems(1)
        by (cases lk) (auto simp: backfill_trade_def backfill_emit_def split: if_splits)
    qed (use b l em in \<open>simp add: backfill_trade_def\<close>)
  qed
  show ?case
  proof (cases "session_trade (ba_now a) x")
    case (Inr o_tr)
    show ?thesis
    proof (cases "\<exists>u. o_tr = Some u \<and> mt_id u \<notin> set ids")
      case False
      then have "backfill_rows ops p fuel src a rows ids c st = Some (st', r)" using Cons.prems(2) Inr by (cases o_tr) auto
      then show ?thesis using Cons.IH Cons.prems(1) by blast
    next
      case True
      then obtain u where u: "o_tr = Some u" "mt_id u \<notin> set ids" by blast
      then obtain st1 r1 where b: "backfill_trade ops p fuel src a u (count_scanned c) st = Some (st1, r1)"
        using Cons.prems(2) Inr by (cases "backfill_trade ops p fuel src a u (count_scanned c) st") auto
      show ?thesis
      proof (cases r1)
        case (Inl e)
        then show ?thesis using Cons.prems(2) Inr u b one [OF b] by simp
      next
        case c1: (Inr c1)
        then have "backfill_rows ops p fuel src a rows (mt_id u # ids) c1 st1 = Some (st', r)" using Cons.prems(2) Inr u b by simp
        then show ?thesis using Cons.IH [OF Cons.prems(1)] one [OF b] by metis
      qed
    qed
  qed (use Cons.prems in simp)
qed simp

end
