(* ===== verification/Health.thy ===== *)
theory Health
  imports Lifecycle
begin

text \<open>
  \<open>telemetry/health.py\<close>: the read-only status payloads, built from providers that may be missing and may
  raise, with the wiring of the providers in \<open>execution/lifecycle.py\<close>. A provider reads a world \<open>'w\<close> and
  changes nothing. A label that is no string counts under its text.
\<close>

section \<open>Time stamps\<close>

text \<open>\<open>date.fromordinal\<close>, with the day count reduced by four centuries, one, four years and one.\<close>

definition ymd_of_ord :: "int \<Rightarrow> int \<times> int \<times> int" where
  "ymd_of_ord ordinal = (let n = ordinal - 1; n400 = n div 146097; a = n mod 146097; n100 = a div 36524; b = a mod 36524;
       n4 = b div 1461; c = b mod 1461; n1 = c div 365; d = c mod 365;
       year = n400 * 400 + n100 * 100 + n4 * 4 + n1 + 1
     in if n1 = 4 \<or> n100 = 4 then (year - 1, 12, 31)
        else let m = (d + 50) div 32; month = (if days_before_month year m > d then m - 1 else m)
             in (year, month, d - days_before_month year month + 1))"

definition pad :: "nat \<Rightarrow> int \<Rightarrow> string" where
  "pad width n = (let s = nat_str n in replicate (width - length s) (CHR ''0'') @ s)"

text \<open>\<open>astimezone(utc).isoformat()\<close> with \<open>Z\<close> for the offset.\<close>

definition utc_iso :: "instant \<Rightarrow> string" where
  "utc_iso t = (case ymd_of_ord (t div us_per_day + epoch_ord) of (y, m, d) \<Rightarrow>
     let r = t mod us_per_day; sec = r div us_per_sec; us = r mod us_per_sec in
     pad 4 y @ ''-'' @ pad 2 m @ ''-'' @ pad 2 d @ ''T'' @ pad 2 (sec div 3600) @ '':'' @ pad 2 (sec mod 3600 div 60) @ '':''
       @ pad 2 (sec mod 60) @ (if us = 0 then [] else ''.'' @ pad 6 us) @ ''Z'')"

definition iso_or_none :: "instant option \<Rightarrow> pyval" where
  "iso_or_none t = (case t of None \<Rightarrow> VNone | Some x \<Rightarrow> VStr (utc_iso x))"

section \<open>The reporter\<close>

type_synonym 'w provider = "('w \<Rightarrow> pyval res) option"

record 'w reporter =
  hr_safety_state :: "'w provider"
  hr_staleness :: "'w provider"
  hr_staleness_limit :: "'w provider"
  hr_last_message_at :: "('w \<Rightarrow> instant option res) option"
  hr_messages_seen :: "'w provider"
  hr_open_positions :: "'w provider"
  hr_outbox_depth :: "'w provider"
  hr_model_set_id :: "'w provider"
  hr_broker_env :: "'w provider"
  hr_account_summary :: "'w provider"
  hr_regime_grid :: "'w provider"
  hr_gatekeeper :: "'w provider"
  hr_shadow :: "'w provider"
  hr_clock :: "'w \<Rightarrow> instant"
  hr_started :: instant

definition safe :: "('w \<Rightarrow> 'a res) option \<Rightarrow> 'a \<Rightarrow> 'w \<Rightarrow> 'a" where
  "safe fn d w = (case fn of None \<Rightarrow> d | Some f \<Rightarrow> (case f w of Inl e \<Rightarrow> d | Inr v \<Rightarrow> v))"

definition uptime_sec :: "'w reporter \<Rightarrow> 'w \<Rightarrow> pyval" where
  "uptime_sec r w = VFloat (fl_round_dec 1 (total_seconds (hr_clock r w - hr_started r)))"

definition exec_shadow_field :: "'w reporter \<Rightarrow> 'w \<Rightarrow> pyval" where
  "exec_shadow_field r w = (let v = safe (hr_shadow r) VNone w in if v = VNone then VStr ''unknown'' else VBool (truthy v))"

text \<open>\<open>v.upper()\<close> and \<open>len(v)\<close>.\<close>

definition vupper :: "pyval \<Rightarrow> pyval res" where
  "vupper v = (case v of VStr s \<Rightarrow> Inr (VStr (upper s)) | _ \<Rightarrow> Inl AttributeError)"

definition vlen :: "pyval \<Rightarrow> int res" where
  "vlen v = (case v of VList xs \<Rightarrow> Inr (int (length xs)) | VStr s \<Rightarrow> Inr (int (length s)) | VDict d \<Rightarrow> Inr (int (length d)) | _ \<Rightarrow> Inl TypeError)"

definition exec_mode_field :: "'w reporter \<Rightarrow> 'w \<Rightarrow> pyval res" where
  "exec_mode_field r w = vupper (or_else (safe (hr_safety_state r) (VStr ''unknown'') w) (VStr ''unknown''))"

section \<open>Payloads\<close>

definition health :: "'w reporter \<Rightarrow> 'w \<Rightarrow> pyval" where
  "health r w = VDict [(''status'', VStr ''ok''), (''schema_version'', VStr ''1''), (''uptime_sec'', uptime_sec r w),
     (''as_of'', VStr (utc_iso (hr_clock r w)))]"

definition account_state :: "'w reporter \<Rightarrow> 'w \<Rightarrow> pyval res" where
  "account_state r w = (let positions = or_else (safe (hr_open_positions r) (VList []) w) (VList []);
       summary = or_else (safe (hr_account_summary r) (VDict []) w) (VDict []);
       number = (\<lambda>k. ebind (vget_or summary k (VInt 0)) py_float)
     in ebind (exec_mode_field r w) (\<lambda>mode. ebind (vlen positions) (\<lambda>n.
        ebind (number ''balance'') (\<lambda>balance. ebind (number ''NAV'') (\<lambda>equity.
        ebind (number ''marginUsed'') (\<lambda>used. ebind (number ''marginAvailable'') (\<lambda>available.
          Inr (VDict [(''schema_version'', VStr ''1''), (''exec_mode'', mode), (''exec_shadow'', exec_shadow_field r w),
            (''queue_staleness_sec'', safe (hr_staleness r) VNone w), (''queue_staleness_limit_sec'', safe (hr_staleness_limit r) VNone w),
            (''open_positions'', VInt n), (''broker_env'', safe (hr_broker_env r) (VStr ''unknown'') w),
            (''model_set_id'', safe (hr_model_set_id r) VNone w), (''balance'', VFloat balance), (''equity'', VFloat equity),
            (''margin_used'', VFloat used), (''margin_available'', VFloat available), (''account_summary'', summary),
            (''as_of'', VStr (utc_iso (hr_clock r w)))]))))))))"

definition gatekeeper_summary :: "'w reporter \<Rightarrow> 'w \<Rightarrow> pyval" where
  "gatekeeper_summary r w = (case safe (hr_gatekeeper r) VNone w of
      VDict snap \<Rightarrow> VDict [(''state'', dget_or snap ''state'' (VStr ''unknown'')), (''alarm'', VBool (truthy (dget_or snap ''alarm'' (VBool False)))),
        (''reason'', dget snap ''reason''), (''approval_rate'', dget snap ''approval_rate''), (''band'', dget snap ''band''),
        (''evaluations'', dget snap ''evaluations''), (''window'', dget snap ''window''), (''enforcing'', dget snap ''enforcing'')]
    | _ \<Rightarrow> VDict [(''state'', VStr ''unavailable''), (''alarm'', VBool False), (''reason'', VStr ''no approval-rate provider wired'')])"

fun label_key :: "pyval \<Rightarrow> string res" where
  "label_key (VStr s) = Inr s"
| "label_key (VList xs) = Inl TypeError"
| "label_key (VDict d) = Inl TypeError"
| "label_key v = Inr (py_str v)"

text \<open>The labels of the cells that are not stale, counted in order of appearance.\<close>

fun count_labels :: "pyval list \<Rightarrow> (string \<times> int) list \<Rightarrow> (string \<times> int) list res" where
  "count_labels [] counts = Inr counts"
| "count_labels (cell # cells) counts =
     ebind (vget cell ''stale'') (\<lambda>stale. if truthy stale then count_labels cells counts else
     ebind (vget cell ''smoothed_label'') (\<lambda>label. if \<not> truthy label then count_labels cells counts else
     ebind (label_key label) (\<lambda>k.
       count_labels cells (AList.update k ((case map_of counts k of None \<Rightarrow> 0 | Some n \<Rightarrow> n) + 1) counts))))"

text \<open>\<open>max(counts, key=counts.get)\<close>: the first key of the largest count.\<close>

fun first_max :: "(string \<times> int) list \<Rightarrow> (string \<times> int) option" where
  "first_max [] = None"
| "first_max ((k, n) # xs) = (case first_max xs of None \<Rightarrow> Some (k, n) | Some (k', m) \<Rightarrow> Some (if n < m then (k', m) else (k, n)))"

definition regime_summary :: "'w reporter \<Rightarrow> 'w \<Rightarrow> pyval res" where
  "regime_summary r w = (let grid = or_else (safe (hr_regime_grid r) (VList []) w) (VList []) in
     ebind (py_iter grid) (\<lambda>cells. ebind (count_labels cells []) (\<lambda>counts. ebind (vlen grid) (\<lambda>n.
       Inr (VDict [(''cells'', VInt n),
         (''dominant'', case first_max counts of None \<Rightarrow> VNone | Some (k, m) \<Rightarrow> VStr k),
         (''by_label'', VDict (map (\<lambda>(k, m). (k, VInt m)) counts))])))))"

definition status_payload :: "'w reporter \<Rightarrow> 'w \<Rightarrow> pyval res" where
  "status_payload r w =
     ebind (exec_mode_field r w) (\<lambda>mode. ebind (regime_summary r w) (\<lambda>regime.
       Inr (VDict [(''schema_version'', VStr ''1''), (''service'', VStr ''system-2-execution-engine''), (''uptime_sec'', uptime_sec r w),
         (''exec_mode'', mode), (''exec_shadow'', exec_shadow_field r w),
         (''queue'', VDict [(''staleness_sec'', safe (hr_staleness r) VNone w), (''staleness_limit_sec'', safe (hr_staleness_limit r) VNone w),
           (''last_message_at'', iso_or_none (safe (hr_last_message_at r) None w)), (''messages_seen'', safe (hr_messages_seen r) (VInt 0) w)]),
         (''outbox_depth'', safe (hr_outbox_depth r) (VInt 0) w),
         (''open_positions'', or_else (safe (hr_open_positions r) (VList []) w) (VList [])),
         (''model_set_id'', safe (hr_model_set_id r) VNone w), (''broker_env'', safe (hr_broker_env r) (VStr ''unknown'') w),
         (''account_summary'', safe (hr_account_summary r) (VDict []) w), (''regime'', regime),
         (''gatekeeper'', gatekeeper_summary r w), (''as_of'', VStr (utc_iso (hr_clock r w)))])))"

definition regime_payload :: "'w reporter \<Rightarrow> 'w \<Rightarrow> pyval" where
  "regime_payload r w = VDict [(''schema_version'', VStr ''1''), (''service'', VStr ''system-2-execution-engine''),
     (''grid'', or_else (safe (hr_regime_grid r) (VList []) w) (VList [])), (''as_of'', VStr (utc_iso (hr_clock r w)))]"

section \<open>The assembly\<close>

fun state_value :: "safety_state \<Rightarrow> string" where
  "state_value RUNNING = ''running''"
| "state_value PAUSED = ''paused''"
| "state_value BYPASS = ''bypass''"

definition gatekeeper_provider :: pyval where
  "gatekeeper_provider = VDict [(''state'', VStr ''unavailable''), (''alarm'', VBool False),
     (''reason'', VStr ''System 2 has no runtime gatekeeper: signal production removed 2026-08-15.'')]"

definition position_rows :: "trades \<Rightarrow> pyval" where
  "position_rows trades = VList (map (\<lambda>x. VDict [(''trade_id'', VStr (mt_id (snd x))), (''instrument'', VStr (mt_instrument (snd x)))])
     (filter (\<lambda>x. \<not> mt_closed (snd x)) trades))"

text \<open>The reporter of the assembled runtime. Its world is the managed trades and the engine; the outbox, the
  broker, the model root and the regime grid are read from the engine's rest.\<close>

record 'z report_sources =
  rp_outbox_depth :: "'z \<Rightarrow> nat"
  rp_model_set_id :: "'z \<Rightarrow> string option"
  rp_summary :: "'z \<Rightarrow> pyval res"
  rp_grid :: "('z \<Rightarrow> pyval list) option"
  rp_now :: "'z \<Rightarrow> instant"

definition wire_reporter :: "'z report_sources \<Rightarrow> broker_environment \<Rightarrow> bool \<Rightarrow> instant \<Rightarrow> (trades \<times> ('q, 's, 'z) engine) reporter" where
  "wire_reporter src env shadow started = \<lparr>
     hr_safety_state = Some (\<lambda>w. Inr (VStr (state_value (sm_state (en_monitor (snd w)))))),
     hr_staleness = Some (\<lambda>w. Inr (VFloat (staleness_seconds (en_monitor (snd w)) (rp_now src (en_rest (snd w))) (lg_message (en_lag (snd w)))))),
     hr_staleness_limit = Some (\<lambda>w. Inr (VFloat (sc_limit (sm_config (en_monitor (snd w)))))),
     hr_last_message_at = Some (\<lambda>w. Inr (lg_message (en_lag (snd w)))),
     hr_messages_seen = Some (\<lambda>w. Inr (VInt (lg_seen (en_lag (snd w))))),
     hr_open_positions = Some (\<lambda>w. Inr (position_rows (fst w))),
     hr_outbox_depth = Some (\<lambda>w. Inr (VInt (int (rp_outbox_depth src (en_rest (snd w)))))),
     hr_model_set_id = Some (\<lambda>w. Inr (case rp_model_set_id src (en_rest (snd w)) of None \<Rightarrow> VNone | Some s \<Rightarrow> VStr s)),
     hr_broker_env = Some (\<lambda>w. Inr (VStr (be_env env))),
     hr_account_summary = Some (\<lambda>w. rp_summary src (en_rest (snd w))),
     hr_regime_grid = map_option (\<lambda>g w. Inr (VList (g (en_rest (snd w))))) (rp_grid src),
     hr_gatekeeper = Some (\<lambda>w. Inr gatekeeper_provider),
     hr_shadow = Some (\<lambda>w. Inr (VBool shadow)),
     hr_clock = (\<lambda>w. rp_now src (en_rest (snd w))),
     hr_started = started\<rparr>"

section \<open>Laws\<close>

text \<open>A cell the roll-up can read: a dictionary whose label is falsy or text.\<close>

definition regime_cell :: "pyval \<Rightarrow> bool" where
  "regime_cell v \<longleftrightarrow> (\<exists>d. v = VDict d \<and> (truthy (dget d ''smoothed_label'') \<longrightarrow> (\<exists>s. dget d ''smoothed_label'' = VStr s)))"

lemma count_labels_ok: "list_all regime_cell cells \<Longrightarrow> \<exists>counts'. count_labels cells counts = Inr counts'"
proof (induction cells arbitrary: counts)
  case (Cons c cells)
  then obtain d where c: "c = VDict d" "truthy (dget d ''smoothed_label'') \<longrightarrow> (\<exists>s. dget d ''smoothed_label'' = VStr s)"
    by (auto simp: regime_cell_def)
  from Cons have "\<exists>counts'. count_labels cells m = Inr counts'" for m by simp
  with c show ?case by (cases "truthy (dget d ''stale'')"; cases "truthy (dget d ''smoothed_label'')") auto
qed simp

text \<open>What the roll-up of the grid counts: the cells that are not stale, by label.\<close>

definition label_count :: "string \<Rightarrow> pyval list \<Rightarrow> int" where
  "label_count k cells = int (length (filter (\<lambda>c. case c of VDict d \<Rightarrow> \<not> truthy (dget d ''stale'') \<and> dget d ''smoothed_label'' = VStr k \<and> k \<noteq> [] | _ \<Rightarrow> False) cells))"

lemma count_labels_exact:
  "list_all regime_cell cells \<Longrightarrow> count_labels cells counts = Inr counts' \<Longrightarrow>
    (case map_of counts' k of None \<Rightarrow> 0 | Some n \<Rightarrow> n) = (case map_of counts k of None \<Rightarrow> 0 | Some n \<Rightarrow> n) + label_count k cells"
proof (induction cells arbitrary: counts)
  case (Cons c cells)
  then obtain d where c: "c = VDict d" "truthy (dget d ''smoothed_label'') \<longrightarrow> (\<exists>s. dget d ''smoothed_label'' = VStr s)"
    by (auto simp: regime_cell_def)
  have cells: "list_all regime_cell cells" using Cons.prems(1) by simp
  show ?case
  proof (cases "\<not> truthy (dget d ''stale'') \<and> truthy (dget d ''smoothed_label'')")
    case False
    then have "count_labels cells counts = Inr counts'" using Cons.prems(2) c(1) by (auto split: if_splits)
    moreover have "label_count k (c # cells) = label_count k cells" using False c by (auto simp: label_count_def)
    ultimately show ?thesis using Cons.IH [OF cells] by simp
  next
    case True
    then obtain s where s: "dget d ''smoothed_label'' = VStr s" "s \<noteq> []" using c(2) by auto
    let ?m = "AList.update s ((case map_of counts s of None \<Rightarrow> 0 | Some n \<Rightarrow> n) + 1) counts"
    have "count_labels cells ?m = Inr counts'" using Cons.prems(2) c(1) True s by simp
    from Cons.IH [OF cells this] show ?thesis using True s c(1) by (auto simp: label_count_def update_conv')
  qed
qed (simp add: label_count_def)

text \<open>A guarded provider gives the default, or one answer whatever the default.\<close>

lemma safe_cases:
  obtains (default) "\<And>d. safe fn d w = d" | (answer) v where "\<And>d. safe fn d w = v"
  by (cases fn; cases "the fn w") (auto simp: safe_def)

text \<open>The status endpoint answers. Whatever its providers raise, and whichever are missing, the payload is
  built, as long as a state the monitor reports is text and a grid is a list of cells with text labels;
  the payload says \<open>unknown\<close> for shadow mode unless a provider has answered, and a wired answer is what it
  says.\<close>

theorem status_always_answers:
  assumes "case safe (hr_safety_state r) VNone w of VStr s \<Rightarrow> True | VNone \<Rightarrow> True | _ \<Rightarrow> False"
    and "case safe (hr_regime_grid r) VNone w of VList cells \<Rightarrow> list_all regime_cell cells | VNone \<Rightarrow> True | _ \<Rightarrow> False"
  shows "\<exists>d. status_payload r w = Inr (VDict d)
    \<and> dget d ''exec_shadow'' = (case hr_shadow r of None \<Rightarrow> VStr ''unknown''
        | Some f \<Rightarrow> (case f w of Inl e \<Rightarrow> VStr ''unknown'' | Inr v \<Rightarrow> if v = VNone then VStr ''unknown'' else VBool (truthy v)))"
proof -
  have mode: "\<exists>m. exec_mode_field r w = Inr m"
  proof (cases rule: safe_cases [of "hr_safety_state r" w])
    case default
    then show ?thesis by (simp add: exec_mode_field_def vupper_def or_else_def)
  next
    case (answer v)
    with assms(1) consider "v = VNone" | s where "v = VStr s" by (auto split: pyval.splits)
    then show ?thesis by cases (auto simp: exec_mode_field_def answer vupper_def or_else_def)
  qed
  have "\<exists>cells. or_else (safe (hr_regime_grid r) (VList []) w) (VList []) = VList cells \<and> list_all regime_cell cells"
  proof (cases rule: safe_cases [of "hr_regime_grid r" w])
    case default
    then show ?thesis by (simp add: or_else_def)
  next
    case (answer v)
    with assms(2) consider "v = VNone" | cells where "v = VList cells" "list_all regime_cell cells" by (auto split: pyval.splits)
    then show ?thesis by cases (auto simp: answer or_else_def)
  qed
  then obtain cells where grid: "or_else (safe (hr_regime_grid r) (VList []) w) (VList []) = VList cells" "list_all regime_cell cells" by blast
  obtain counts where "count_labels cells [] = Inr counts" using count_labels_ok [OF grid(2)] by blast
  with grid(1) have "\<exists>v. regime_summary r w = Inr v" by (simp add: regime_summary_def vlen_def)
  then obtain m v where mv: "exec_mode_field r w = Inr m" "regime_summary r w = Inr v" using mode by blast
  have shadow: "exec_shadow_field r w = (case hr_shadow r of None \<Rightarrow> VStr ''unknown''
        | Some f \<Rightarrow> (case f w of Inl e \<Rightarrow> VStr ''unknown'' | Inr v \<Rightarrow> if v = VNone then VStr ''unknown'' else VBool (truthy v)))"
    by (simp add: exec_shadow_field_def safe_def Let_def split: option.split sum.split)
  show ?thesis unfolding shadow [symmetric] by (simp add: status_payload_def mv dget_def dget_or_def)
qed

definition wit_broken :: "unit reporter" where
  "wit_broken = \<lparr>hr_safety_state = Some (\<lambda>w. Inl SqliteError), hr_staleness = None, hr_staleness_limit = None, hr_last_message_at = None,
     hr_messages_seen = Some (\<lambda>w. Inl SqliteError), hr_open_positions = Some (\<lambda>w. Inl KeyError), hr_outbox_depth = Some (\<lambda>w. Inl SqliteError),
     hr_model_set_id = None, hr_broker_env = None, hr_account_summary = Some (\<lambda>w. Inl TransientBrokerError), hr_regime_grid = None,
     hr_gatekeeper = None, hr_shadow = Some (\<lambda>w. Inl AttributeError), hr_clock = (\<lambda>w. 0), hr_started = 0\<rparr>"

theorem status_always_answers_witness:
  "\<exists>d. status_payload wit_broken () = Inr (VDict d) \<and> dget d ''exec_shadow'' = VStr ''unknown''"
  using status_always_answers [of wit_broken "()"] by (simp add: wit_broken_def safe_def)

text \<open>The reporter of the assembly always answers, and reports the shadow mode the pipeline runs with.\<close>

lemma assembled_status:
  assumes "\<And>g. rp_grid src = Some g \<Longrightarrow> list_all regime_cell (g (en_rest (snd w)))"
  shows "\<exists>d. status_payload (wire_reporter src env shadow started) w = Inr (VDict d) \<and> dget d ''exec_shadow'' = VBool shadow"
proof -
  let ?r = "wire_reporter src env shadow started"
  have "\<exists>m. exec_mode_field ?r w = Inr m" by (cases "sm_state (en_monitor (snd w))")
    (simp_all add: exec_mode_field_def wire_reporter_def safe_def vupper_def or_else_def)
  moreover have "\<exists>v. regime_summary ?r w = Inr v"
  proof (cases "rp_grid src")
    case (Some g)
    obtain counts where c: "count_labels (g (en_rest (snd w))) [] = Inr counts" using count_labels_ok [OF assms [OF Some]] by blast
    then show ?thesis using Some by (auto simp: regime_summary_def wire_reporter_def safe_def or_else_def vlen_def)
  qed (simp add: regime_summary_def wire_reporter_def safe_def or_else_def vlen_def)
  moreover have "exec_shadow_field ?r w = VBool shadow" by (simp add: exec_shadow_field_def wire_reporter_def safe_def)
  ultimately show ?thesis by (auto simp: status_payload_def dget_def dget_or_def)
qed

text \<open>A provider that fails reads as nothing to report: an outbox whose depth cannot be read has depth
  zero, positions that cannot be listed are no positions. The payload is the one of the healthy,
  empty service.\<close>

lemma failed_providers_read_as_empty:
  assumes "hr_outbox_depth r = Some (\<lambda>w. Inl e)" "hr_open_positions r = Some (\<lambda>w. Inl e')" "hr_messages_seen r = Some (\<lambda>w. Inl e'')"
  shows "status_payload r w = status_payload (r\<lparr>hr_outbox_depth := Some (\<lambda>w. Inr (VInt 0)),
     hr_open_positions := Some (\<lambda>w. Inr (VList [])), hr_messages_seen := Some (\<lambda>w. Inr (VInt 0))\<rparr>) w"
  using assms by (simp add: status_payload_def exec_mode_field_def regime_summary_def uptime_sec_def exec_shadow_field_def
      gatekeeper_summary_def safe_def)

end
