(* ===== verification/Log_Masking.thy ===== *)
theory Log_Masking
  imports Py_Value
begin

text \<open>
  The masking of \<open>common/logging.py\<close>: the three patterns and their substitution, as the leftmost greedy
  matches of the regular expressions. None of them needs to backtrack: the separators are no white
  space, and white space is no value character. Rendering a record as JSON is the standard library's.
\<close>

section \<open>The keyed pattern\<close>

text \<open>\<open>(?i)(api[_-]?key|secret|password|token|authorization|bearer)\<close>: the length of the keyword at the start.\<close>

definition starts_with_ci :: "string \<Rightarrow> string \<Rightarrow> bool" where
  "starts_with_ci s w \<longleftrightarrow> startswith (lower s) w"

definition keyword_length :: "string \<Rightarrow> nat option" where
  "keyword_length s =
     (if starts_with_ci s ''api_key'' \<or> starts_with_ci s ''api-key'' then Some 7
      else if starts_with_ci s ''apikey'' then Some 6
      else if starts_with_ci s ''secret'' then Some 6
      else if starts_with_ci s ''password'' then Some 8
      else if starts_with_ci s ''token'' then Some 5
      else if starts_with_ci s ''authorization'' then Some 13
      else if starts_with_ci s ''bearer'' then Some 6
      else None)"

text \<open>\<open>\s*[:=]\s*\S+\<close> after the keyword: the text of the match and the rest.\<close>

definition match_value :: "string \<Rightarrow> (string \<times> string) option" where
  "match_value s = (let a = takeWhile is_space s; r = dropWhile is_space s in
     case r of [] \<Rightarrow> None | c # q \<Rightarrow> if c \<noteq> CHR '':'' \<and> c \<noteq> CHR ''='' then None
       else let b = takeWhile is_space q; v = takeWhile (\<lambda>x. \<not> is_space x) (dropWhile is_space q) in
         if v = [] then None
         else Some (a @ c # b @ v, dropWhile (\<lambda>x. \<not> is_space x) (dropWhile is_space q)))"

definition match_keyed :: "string \<Rightarrow> (string \<times> string) option" where
  "match_keyed s = (case keyword_length s of None \<Rightarrow> None
     | Some n \<Rightarrow> map_option (\<lambda>(m, rest). (take n s @ m, rest)) (match_value (drop n s)))"

text \<open>\<open>_mask_keyed\<close>: the separator is an equals sign when the match has one anywhere.\<close>

definition mask_keyed :: "string \<Rightarrow> string" where
  "mask_keyed m = (let sep = (if CHR ''='' \<in> set m then CHR ''='' else CHR '':'') in
     takeWhile (\<lambda>c. c \<noteq> sep) m @ [sep] @ ''***MASKED***'')"

section \<open>The token patterns\<close>

definition is_upper_alnum :: "char \<Rightarrow> bool" where
  "is_upper_alnum c \<longleftrightarrow> is_digit c \<or> (65 \<le> chr_code c \<and> chr_code c \<le> 90)"

definition is_alnum :: "char \<Rightarrow> bool" where
  "is_alnum c \<longleftrightarrow> is_upper_alnum c \<or> (97 \<le> chr_code c \<and> chr_code c \<le> 122)"

text \<open>\<open>sk-[A-Za-z0-9]{20,}\<close> and \<open>AKIA[0-9A-Z]{16}\<close>.\<close>

definition match_sk :: "string \<Rightarrow> (string \<times> string) option" where
  "match_sk s = (let v = takeWhile is_alnum (drop 3 s) in
     if startswith s ''sk-'' \<and> 20 \<le> length v then Some (''sk-'' @ v, drop (3 + length v) s) else None)"

definition match_akia :: "string \<Rightarrow> (string \<times> string) option" where
  "match_akia s = (let v = take 16 (drop 4 s) in
     if startswith s ''AKIA'' \<and> length v = 16 \<and> list_all is_upper_alnum v then Some (''AKIA'' @ v, drop 20 s) else None)"

section \<open>Substitution\<close>

text \<open>\<open>pattern.sub\<close>: the leftmost match is replaced and the search goes on behind it. A match that does not
  shorten the text ends the search, which no pattern here does.\<close>

function sub_all :: "(string \<Rightarrow> (string \<times> string) option) \<Rightarrow> (string \<Rightarrow> string) \<Rightarrow> string \<Rightarrow> string" where
  "sub_all pat f [] = []"
| "sub_all pat f (c # cs) = (case pat (c # cs) of
      None \<Rightarrow> c # sub_all pat f cs
    | Some (m, rest) \<Rightarrow> if length rest < length (c # cs) then f m @ sub_all pat f rest else c # cs)"
  by pat_completeness auto
termination
  by (relation "measure (\<lambda>(pat, f, s). length s)") auto

definition mask_text :: "string \<Rightarrow> string" where
  "mask_text s = sub_all match_akia (\<lambda>m. ''***MASKED***'') (sub_all match_sk (\<lambda>m. ''***MASKED***'') (sub_all match_keyed mask_keyed s))"

section \<open>Laws\<close>

lemma dropWhile_less: "length (dropWhile P xs) \<le> length xs"
  by (rule length_dropWhile_le)

lemma match_value_shorter: "match_value s = Some (m, rest) \<Longrightarrow> length rest < length s"
proof -
  assume a: "match_value s = Some (m, rest)"
  then obtain c q where r: "dropWhile is_space s = c # q" "rest = dropWhile (\<lambda>x. \<not> is_space x) (dropWhile is_space q)"
    by (auto simp: match_value_def Let_def split: list.splits if_splits)
  have "length rest \<le> length q" unfolding r(2)
    using dropWhile_less [of "\<lambda>x. \<not> is_space x" "dropWhile is_space q"] dropWhile_less [of is_space q] by simp
  also have "length q < length s" using dropWhile_less [of is_space s] unfolding r(1) by simp
  finally show ?thesis .
qed

text \<open>Every pattern shortens the text it matches, so the substitution is never cut short.\<close>

lemma match_keyed_shorter: "match_keyed s = Some (m, rest) \<Longrightarrow> length rest < length s"
  by (auto simp: match_keyed_def split: option.splits dest!: match_value_shorter)

lemma match_sk_shorter: "match_sk s = Some (m, rest) \<Longrightarrow> length rest < length s"
  by (cases s) (auto simp: match_sk_def Let_def startswith_def split: if_splits)

lemma match_akia_shorter: "match_akia s = Some (m, rest) \<Longrightarrow> length rest < length s"
  by (cases s) (auto simp: match_akia_def Let_def startswith_def split: if_splits)

text \<open>A keyword directly followed by a character that is neither white space nor a separator is no match.\<close>

lemma match_value_quote: "match_value (CHR 0x22 # s) = None"
proof -
  have "\<not> is_space (CHR 0x22)" by code_simp
  then show ?thesis by (simp add: match_value_def)
qed

text \<open>A text in which every keyword is followed by a quote, as the keys of a rendered JSON object are, is left
  as it is.\<close>

lemma sub_keyed_quoted:
  "(\<And>pre suf n. s = pre @ suf \<Longrightarrow> keyword_length suf = Some n \<Longrightarrow> \<exists>r. drop n suf = CHR 0x22 # r) \<Longrightarrow> sub_all match_keyed mask_keyed s = s"
proof (induction s)
  case (Cons c cs)
  have "match_keyed (c # cs) = None"
  proof (cases "keyword_length (c # cs)")
    case (Some n)
    then obtain r where "drop n (c # cs) = CHR 0x22 # r" using Cons.prems [of "[]" "c # cs" n] by auto
    then show ?thesis by (simp add: match_keyed_def Some match_value_quote)
  qed (simp add: match_keyed_def)
  moreover have "sub_all match_keyed mask_keyed cs = cs"
  proof (rule Cons.IH)
    fix pre suf n assume "cs = pre @ suf" "keyword_length suf = Some n"
    then show "\<exists>r. drop n suf = CHR 0x22 # r" using Cons.prems [of "c # pre" suf n] by simp
  qed
  ultimately show ?case by simp
qed simp

definition plain :: "string \<Rightarrow> bool" where
  "plain v \<longleftrightarrow> v \<noteq> [] \<and> list_all (\<lambda>c. \<not> is_space c) v"

lemma plain_takes: "plain v \<Longrightarrow> takeWhile (\<lambda>c. \<not> is_space c) v = v" "plain v \<Longrightarrow> dropWhile (\<lambda>c. \<not> is_space c) v = []"
  "plain v \<Longrightarrow> dropWhile is_space v = v" "plain v \<Longrightarrow> takeWhile is_space v = []"
  by (auto simp: plain_def list_all_iff takeWhile_eq_all_conv dropWhile_eq_Nil_conv) (cases v; simp)+

lemma match_value_plain:
  assumes "plain v" "c = CHR '':'' \<or> c = CHR ''=''" "list_all is_space b"
  shows "match_value (c # b @ v) = Some (c # b @ v, [])"
proof -
  have c: "\<not> is_space c" using assms(2) by (elim disjE) (simp_all, code_simp+)
  have b: "takeWhile is_space (b @ v) = b" "dropWhile is_space (b @ v) = v"
    using assms(3) plain_takes(3,4) [OF assms(1)] by (simp_all add: list_all_iff takeWhile_append2 dropWhile_append2)
  show ?thesis using assms(1,2) c by (auto simp: match_value_def b plain_takes Let_def plain_def)
qed

definition KEYWORDS :: "string list" where
  "KEYWORDS = [''api_key'', ''api-key'', ''apikey'', ''secret'', ''password'', ''token'', ''authorization'', ''bearer'']"

definition is_keyword :: "string \<Rightarrow> bool" where
  "is_keyword k \<longleftrightarrow> lower k \<in> set KEYWORDS"

lemma lower_append [simp]: "lower (a @ b) = lower a @ lower b"
  by (simp add: lower_def)

lemma length_lower [simp]: "length (lower s) = length s"
  by (simp add: lower_def)

lemma keyword_length_append:
  assumes "is_keyword k"
  shows "keyword_length (k @ s) = Some (length k)"
proof -
  have "lower k \<in> set KEYWORDS" using assms by (simp add: is_keyword_def)
  then consider "lower k = ''api_key''" | "lower k = ''api-key''" | "lower k = ''apikey''" | "lower k = ''secret''" | "lower k = ''password''"
    | "lower k = ''token''" | "lower k = ''authorization''" | "lower k = ''bearer''" by (auto simp: KEYWORDS_def)
  moreover have "length k = length (lower k)" by simp
  ultimately show ?thesis
    by cases (simp_all del: length_lower add: keyword_length_def starts_with_ci_def startswith_def)
qed

text \<open>A keyword has neither separator.\<close>

lemma keyword_plain:
  assumes "is_keyword k"
  shows "CHR ''='' \<notin> set k" "CHR '':'' \<notin> set k"
proof -
  have fixed: "lower_char (CHR ''='') = CHR ''=''" "lower_char (CHR '':'') = CHR '':''" by code_simp+
  have low: "c \<in> set k \<Longrightarrow> lower_char c \<in> set (lower k)" for c by (simp add: lower_def)
  have none: "\<forall>w \<in> set KEYWORDS. CHR ''='' \<notin> set w \<and> CHR '':'' \<notin> set w" by code_simp
  then have "CHR ''='' \<notin> set (lower k)" "CHR '':'' \<notin> set (lower k)" using assms by (auto simp: is_keyword_def)
  then show "CHR ''='' \<notin> set k" "CHR '':'' \<notin> set k" using low [of "CHR ''=''"] low [of "CHR '':''"] fixed by auto
qed

lemma match_keyed_value:
  assumes "is_keyword k" "match_value s = Some (m, rest)"
  shows "match_keyed (k @ s) = Some (k @ m, rest)"
  using keyword_length_append [OF assms(1), of s] assms(2) by (simp add: match_keyed_def)

lemma sub_keyed_match:
  assumes "is_keyword k" "match_value s = Some (m, rest)"
  shows "sub_all match_keyed mask_keyed (k @ s) = mask_keyed (k @ m) @ sub_all match_keyed mask_keyed rest"
proof -
  have "k \<noteq> []" using assms(1) by (auto simp: is_keyword_def KEYWORDS_def lower_def)
  then obtain c cs where k: "k = c # cs" by (cases k) auto
  have "length rest < length (k @ s)" using match_keyed_shorter [OF match_keyed_value [OF assms]] .
  then show ?thesis using match_keyed_value [OF assms] by (simp add: k)
qed

lemma takeWhile_upto: "P \<notin> set xs \<Longrightarrow> takeWhile (\<lambda>c. c \<noteq> P) (xs @ P # ys) = xs"
  by (induction xs) auto

lemma space_no_separator: "list_all is_space b \<Longrightarrow> CHR ''='' \<notin> set b" "\<not> is_space (CHR ''='')" "is_space (CHR '' '')"
proof -
  show s: "\<not> is_space (CHR ''='')" "is_space (CHR '' '')" by code_simp+
  then show "list_all is_space b \<Longrightarrow> CHR ''='' \<notin> set b" by (auto simp: list_all_iff)
qed

definition no_keyword :: "string \<Rightarrow> bool" where
  "no_keyword s \<longleftrightarrow> (\<forall>n. keyword_length (drop n s) = None)"

lemma sub_keyed_no_keyword: "no_keyword s \<Longrightarrow> sub_all match_keyed mask_keyed s = s"
proof (rule sub_keyed_quoted)
  fix pre suf n assume "no_keyword s" "s = pre @ suf" "keyword_length suf = Some n"
  moreover have "keyword_length (drop (length pre) (pre @ suf)) = keyword_length suf" by simp
  ultimately show "\<exists>r. drop n suf = CHR 0x22 # r" by (metis no_keyword_def option.distinct(1))
qed

text \<open>Keyed values are masked only in part. A value of one word without an equals sign disappears, after
  either separator. A value after a colon that contains an equals sign, as padded base64 does, is
  written out up to it; and of a value of two words only the first is masked, so the token of an
  authorization header is written out.\<close>

theorem keyed_values_are_masked_in_part:
  assumes "is_keyword k" "plain v" "CHR ''='' \<notin> set v" "list_all is_space b" "w = [] \<or> plain w" "no_keyword ('' '' @ tok)"
  shows "sub_all match_keyed mask_keyed (k @ ''='' @ b @ v) = k @ ''=***MASKED***''
    \<and> sub_all match_keyed mask_keyed (k @ '':'' @ b @ v) = k @ '':***MASKED***''
    \<and> sub_all match_keyed mask_keyed (k @ '':'' @ b @ v @ ''='' @ w) = k @ '':'' @ b @ v @ ''=***MASKED***''
    \<and> sub_all match_keyed mask_keyed (k @ '':'' @ b @ v @ '' '' @ tok) = k @ '':***MASKED*** '' @ tok"
proof (intro conjI)
  note k = keyword_plain [OF assms(1)] and sp = space_no_separator(1) [OF assms(4)]
  note val = match_value_plain [OF assms(2) _ assms(4)]
  show "sub_all match_keyed mask_keyed (k @ ''='' @ b @ v) = k @ ''=***MASKED***''"
    using sub_keyed_match [OF assms(1) val [of "CHR ''=''"]] k by (simp add: mask_keyed_def takeWhile_upto)
  have colon: "mask_keyed (k @ CHR '':'' # b @ v) = k @ '':***MASKED***''"
    using k sp assms(3) by (simp add: mask_keyed_def takeWhile_upto)
  show "sub_all match_keyed mask_keyed (k @ '':'' @ b @ v) = k @ '':***MASKED***''"
    using sub_keyed_match [OF assms(1) val [of "CHR '':''"]] colon by simp
  have "plain (v @ ''='' @ w)" using assms(2,5) space_no_separator(2) by (auto simp: plain_def)
  from match_value_plain [OF this _ assms(4), of "CHR '':''"]
  have eq: "match_value (CHR '':'' # b @ v @ ''='' @ w) = Some (CHR '':'' # b @ v @ ''='' @ w, [])" by simp
  have "CHR ''='' \<notin> set (k @ CHR '':'' # b @ v)" using k(1) sp assms(3) by simp
  from takeWhile_upto [OF this, of w]
  have "mask_keyed (k @ CHR '':'' # b @ v @ ''='' @ w) = k @ '':'' @ b @ v @ ''=***MASKED***''" by (simp add: mask_keyed_def)
  then show "sub_all match_keyed mask_keyed (k @ '':'' @ b @ v @ ''='' @ w) = k @ '':'' @ b @ v @ ''=***MASKED***''"
    using sub_keyed_match [OF assms(1) eq] by simp
  have c: "\<not> is_space (CHR '':'')" by code_simp
  have cut: "takeWhile is_space (b @ v @ '' '' @ tok) = b" "dropWhile is_space (b @ v @ '' '' @ tok) = v @ '' '' @ tok"
    using assms(2,4) by (cases v; simp add: list_all_iff takeWhile_append2 dropWhile_append2 plain_def)+
  have word: "takeWhile (\<lambda>x. \<not> is_space x) (v @ '' '' @ tok) = v" "dropWhile (\<lambda>x. \<not> is_space x) (v @ '' '' @ tok) = '' '' @ tok"
    using assms(2) space_no_separator(3) by (simp_all add: plain_def list_all_iff takeWhile_append2 dropWhile_append2)
  have "match_value (CHR '':'' # b @ v @ '' '' @ tok) = Some (CHR '':'' # b @ v, '' '' @ tok)"
    using assms(2) c cut word by (simp add: match_value_def Let_def plain_def)
  from sub_keyed_match [OF assms(1) this] colon sub_keyed_no_keyword [OF assms(6)]
  show "sub_all match_keyed mask_keyed (k @ '':'' @ b @ v @ '' '' @ tok) = k @ '':***MASKED*** '' @ tok" by simp
qed

text \<open>Every keyword is followed by a quote, as a check of the suffixes.\<close>

definition keywords_quoted :: "string \<Rightarrow> bool" where
  "keywords_quoted s \<longleftrightarrow> list_all (\<lambda>n. case keyword_length (drop n s) of None \<Rightarrow> True
     | Some k \<Rightarrow> take 1 (drop k (drop n s)) = [CHR 0x22]) [0..<length s]"

lemma keywords_quotedD:
  assumes "keywords_quoted s" "s = pre @ suf" "keyword_length suf = Some n"
  shows "\<exists>r. drop n suf = CHR 0x22 # r"
proof -
  have "keyword_length [] = None" by code_simp
  then have "suf \<noteq> []" using assms(3) by auto
  then have "length pre \<in> set [0..<length s]" using assms(2) by simp
  moreover have "drop (length pre) s = suf" using assms(2) by simp
  ultimately have "case keyword_length suf of None \<Rightarrow> True | Some k \<Rightarrow> take 1 (drop k suf) = [CHR 0x22]"
    using assms(1) unfolding keywords_quoted_def list_all_iff by metis
  then have "take 1 (drop n suf) = [CHR 0x22]" using assms(3) by simp
  then show ?thesis by (cases "drop n suf") auto
qed

text \<open>The keys of a rendered JSON object are not masked. In a text in which every keyword is followed by a
  quote, which is how a context \<open>{"api_key": \<dots>}\<close> is rendered, the keyed pattern matches nothing, and so the
  line keeps every value that has not one of the two token forms.\<close>

theorem quoted_keys_are_not_masked:
  assumes "keywords_quoted s"
  shows "sub_all match_keyed mask_keyed s = s
    \<and> ((\<forall>n. match_sk (drop n s) = None \<and> match_akia (drop n s) = None) \<longrightarrow> mask_text s = s)"
proof -
  have none: "(\<forall>n. pat (drop n t) = None) \<Longrightarrow> sub_all pat f t = t" for pat f t
  proof (induction t)
    case (Cons c cs)
    then have "\<forall>n. pat (drop n cs) = None" "pat (c # cs) = None"
      by (metis drop_Suc_Cons, metis drop0)
    with Cons.IH show ?case by simp
  qed simp
  have "sub_all match_keyed mask_keyed s = s" by (rule sub_keyed_quoted, rule keywords_quotedD [OF assms])
  with none show ?thesis by (simp add: mask_text_def)
qed

lemma no_keywordI:
  assumes "list_all (\<lambda>n. keyword_length (drop n s) = None) [0..<length s]"
  shows "no_keyword s"
  unfolding no_keyword_def
proof
  fix n
  have "keyword_length [] = None" by code_simp
  with assms show "keyword_length (drop n s) = None" by (cases "n < length s") (auto simp: list_all_iff)
qed

theorem keyed_values_are_masked_in_part_witness:
  "sub_all match_keyed mask_keyed ''token: c2VjcmV0PQ==''  = ''token: c2VjcmV0PQ=***MASKED***''
   \<and> sub_all match_keyed mask_keyed ''Authorization: Bearer eyJhbGci'' = ''Authorization:***MASKED*** eyJhbGci''"
proof -
  have h: "is_keyword ''token''" "plain ''c2VjcmV0PQ''" "CHR ''='' \<notin> set ''c2VjcmV0PQ''" "list_all is_space '' ''" "plain ''=''"
    "is_keyword ''Authorization''" "plain ''Bearer''" "CHR ''='' \<notin> set ''Bearer''" by code_simp+
  have n: "no_keyword ('' '' @ ''eyJhbGci'')" by (rule no_keywordI) code_simp
  have "sub_all match_keyed mask_keyed (''token'' @ '':'' @ '' '' @ ''c2VjcmV0PQ'' @ ''='' @ ''='') = ''token'' @ '':'' @ '' '' @ ''c2VjcmV0PQ'' @ ''=***MASKED***''"
    using keyed_values_are_masked_in_part [OF h(1-4) disjI2 [OF h(5)] n] by (elim conjE)
  moreover have "sub_all match_keyed mask_keyed (''Authorization'' @ '':'' @ '' '' @ ''Bearer'' @ '' '' @ ''eyJhbGci'') = ''Authorization'' @ '':***MASKED*** '' @ ''eyJhbGci''"
    using keyed_values_are_masked_in_part [OF h(6-8) h(4) disjI2 [OF h(5)] n] by (elim conjE)
  ultimately show ?thesis by simp
qed

text \<open>The line \<open>{"password": "hunter2"}\<close>.\<close>

definition wit_json :: string where
  "wit_json = ''{'' @ [CHR 0x22] @ ''password'' @ [CHR 0x22] @ '': '' @ [CHR 0x22] @ ''hunter2'' @ [CHR 0x22] @ ''}''"

theorem quoted_keys_are_not_masked_witness: "sub_all match_keyed mask_keyed wit_json = wit_json"
proof -
  have "keywords_quoted wit_json" by code_simp
  from quoted_keys_are_not_masked [OF this] show ?thesis by blast
qed

end
