(* ===== verification/Spec2Isabelle.thy ===== *)
theory Spec2Isabelle
  imports Queue_Net Safety_Mode Oanda_Transport Fill_Laws Outbound_Laws Position_Laws Close_Laws Scan_Laws Regime_Laws
    Lifecycle_Laws Startup_Laws Backfill_Laws Health Log_Masking
begin

text \<open>
  A verification development of the execution engine \<open>system2\<close> (\<open>src/src/system2\<close>).

  \<^bold>\<open>The program.\<close> System 2 is the execution-only leg of a trading system. Approved orders arrive on a
  durable queue (\<open>common/queue_backend.py\<close>); the outbound consumer validates each message, checks that
  it is fresh, not yet processed, in session and that the safety monitor's gate is open, and runs the
  pipeline, which constructs the broker order with its protective prices and submits it through the
  broker adapter, which asks the broker's transaction history before every submission. The fill goes
  to an outbox and from there to System 3; the trade is registered with the position manager, which
  moves stops and closes on time, and the close tracker reports every close once. Beside the trading
  path a downloader keeps a verified model set on disk, which the regime detector loads. The runtime
  of \<open>execution/lifecycle.py\<close> ticks these components until the emergency stop.

  \<^bold>\<open>The theories.\<close> Each component has a theory of definitions, read side by side with its source, and its
  properties in the same theory or in one whose name ends in \<open>Laws\<close>.

  \<^item> \<open>Exec_Prelude\<close>: exceptions as values, sequencing of fallible and of stateful calls, what such calls keep
    (the collection \<open>keeps_intros\<close>), lists and association lists.
  \<^item> \<open>Py_Float\<close>, \<open>Py_Value\<close>, \<open>Py_Time\<close>: binary64 arithmetic with rounding, infinities and NaN over rationals;
    the JSON values with Python's \<open>get\<close>, truth, \<open>str\<close>, \<open>int\<close> and \<open>float\<close>; instants in microseconds, ISO parsing
    and the trading session.
  \<^item> \<open>Queue_Backend\<close>, \<open>Queue_Laws\<close>, \<open>Queue_Net\<close>: \<open>common/queue_backend.py\<close>, statement by statement on the table's
    rows; the locale \<open>message_store\<close> states what a client of a queue relies on and is interpreted on the
    local backend. \<open>Queue_Open\<close>: the same file's factory, the assertion that a path leads to the shared queue,
    the constructor over a model of the file system, and the Pub/Sub backend over its client library.
  \<^item> \<open>Secrets_Config\<close>: \<open>common/secrets.py\<close>.
  \<^item> \<open>Pipeline\<close>, \<open>Pipeline_Laws\<close>, \<open>Validation\<close>: \<open>execution/pipeline.py\<close> and \<open>execution/validation.py\<close>; the locale
    \<open>processed_store\<close> is the ledger of processed keys, interpreted on the in-memory and the SQLite one.
  \<^item> \<open>Safety_Mode\<close>: \<open>execution/safety_mode.py\<close>, with its step relation.
  \<^item> \<open>Price_Grid\<close>, \<open>Oanda_Adapter\<close>, \<open>Oanda_Laws\<close>, \<open>Oanda_Transport\<close>: \<open>broker/oanda_adapter.py\<close> and
    \<open>broker/oanda_transport.py\<close>.
  \<^item> \<open>Fill_Producer\<close>, \<open>Fill_Laws\<close>: \<open>execution/fill_producer.py\<close>.
  \<^item> \<open>Outbound_Consumer\<close>, \<open>Outbound_Laws\<close>: \<open>execution/outbound_consumer.py\<close>.
  \<^item> \<open>Position_Manager\<close>, \<open>Position_Laws\<close>: \<open>broker/position_manager.py\<close>.
  \<^item> \<open>Close_Facts\<close>, \<open>Close_Tracker\<close>, \<open>Scan_Laws\<close>, \<open>Close_Laws\<close>: \<open>execution/close_tracker.py\<close>; \<open>Backfill\<close>,
    \<open>Backfill_Laws\<close>: the repair run \<open>tools/backfill_closes.py\<close> on the same outbox and ledger.
  \<^item> \<open>Model_Sync\<close>, \<open>Sync_Laws\<close>: \<open>artifact_sync/downloader.py\<close> over a model of the artifact root.
  \<^item> \<open>Live_Regime\<close>, \<open>Regime_Laws\<close>: \<open>artifact_sync/live_regime.py\<close>, \<open>regime_mapping.py\<close>, \<open>regime_scheduler.py\<close> and the
    feature contract of \<open>features.py\<close>.
  \<^item> \<open>Lifecycle\<close>, \<open>Lifecycle_Laws\<close>: \<open>execution/lifecycle.py\<close>.
  \<^item> \<open>Startup\<close>, \<open>Startup_Laws\<close>: \<open>build_from_secrets\<close> of \<open>execution/lifecycle.py\<close>: what every component reads from the
    configuration and which files are opened, in order; with it \<open>build_storage\<close>, the rows of
    \<open>artifact_sync/candles.py\<close> and the fail-closed start of \<open>__main__.py\<close>.
  \<^item> \<open>Local_Store\<close>: \<open>common/db.py\<close> and \<open>execution/trade_recorder.py\<close>.
  \<^item> \<open>Health\<close>: the payloads of \<open>telemetry/health.py\<close> and their wiring in the assembly.
  \<^item> \<open>Log_Masking\<close>: the masking of secrets in \<open>common/logging.py\<close>.

  \<^bold>\<open>State and errors.\<close> A Python object is a record, its mutation a function that returns the new record
  beside the result, and an exception the left of a sum beside the state the method left behind. What
  is not in the repository is a parameter: the clock's readings, the broker's API client, object
  storage, digests, unpickling, the fitted model and pandas' feature formulas. A dictionary is an
  association list in insertion order, updated in place.

  \<^bold>\<open>The properties.\<close> The first group follows an order from the queue to the broker: redelivery is
  bounded and leases exclusive, a poll loses no message, an order passes every gate before it is
  submitted, fills at most once however often it is delivered and whatever the broker's replies do,
  and is protected by prices that quantization only tightens. The second follows the fill and the
  trade: a published fill is delivered or still held, stops only tighten, expired trades are closed,
  and one close event leaves per trade. The third is the runtime: a dark System 3 or the emergency
  stop halts new orders in the assembled tick, flattening and adoption at the ends of a run. The
  fourth is the model set: what is active was verified, a withdrawal is recorded exactly, promotion
  survives a crash at any step, and a bundle is unpickled only from a verified file. The last is the
  edge of the process: a start is fully configured and opens the shared queue or nothing, and the
  status endpoint always answers. Several
  properties state what the code does where its comments say otherwise (\<open>assembled_tick_submits_nothing\<close>,
  \<open>inline_comment_is_value\<close>, \<open>tilde_path_opens_private_queue\<close>, \<open>keyed_values_are_masked_in_part\<close>,
  \<open>shutdown_iff_normal_end\<close> and theorems beside them).

  \<^bold>\<open>Fuel.\<close> \<open>Fill_Producer.flush\<close> repeats until the outbox has nothing ready; \<open>None\<close> is a run out of fuel, and
  \<open>flush_conserves\<close> and \<open>published_fill_is_never_lost\<close> give a bound on the fuel that always suffices.
  \<open>Lifecycle.run_loop\<close> is the service's endless loop: without a tick limit it has no bound. The
  transaction scan and the other loops are total, with their termination proofs.

  \<^bold>\<open>Simplifications.\<close> There is one floating-point zero; time stamps without a zone are read as UTC; operations
  of the local queue and of the local file system do not fail; characters are those of one byte;
  message texts of exceptions and log lines are left out.

  \<^bold>\<open>Not modelled.\<close> The HTTP server over the status payloads, the handlers and the JSON rendering of log
  lines, the file copies of \<open>common/storage_backend.py\<close> and the HTTP client of \<open>artifact_sync/candles.py\<close>
  forward to libraries; the feature formulas of \<open>artifact_sync/features.py\<close> are pandas' and a parameter;
  the endless loops that repeat a modelled poll (\<open>run_forever\<close>) are left out; threads, signals and
  sleeping appear only as what the environment may have done between two steps.
\<close>

section \<open>The safety gate through the consumer\<close>

text \<open>A dark System 3 stops new orders end to end. When the monitor is evaluated in session with
  the last sign of System 3 older than the staleness limit and the result is not a bypass, then a
  consumer whose submission gate reads that monitor, given any batch of order messages, however
  malformed, leaves the processed ledger and the broker's world exactly as they were: no price is
  asked, no order submitted, no key marked.\<close>

theorem dark_system3_submits_nothing:
  assumes "evaluate session lastmsg now m = Inr m'" "session now" "sm_state m' \<noteq> BYPASS"
    and "fl_less (sc_limit (sm_config m)) (staleness_seconds m now lastmsg)"
    and "fl_le (fl_sub (sc_limit (sm_config m)) (sc_hyst (sm_config m))) (sc_limit (sm_config m))"
    and "oc_gate oc = Some (\<lambda>w. can_submit (monitor_of w))" "monitor_of (cs_world st) = m'"
    and "list_all (\<lambda>msg. \<not> is_heartbeat msg) batch" "handle_batch oc t batch stats st = (st', r)"
  shows "cs_store st' = cs_store st \<and> cs_world st' = cs_world st"
proof -
  have "\<not> can_submit m'" using assms(1-5) by (rule stale_cannot_submit)
  then have "gate_closed oc (cs_world st)" using assms(6,7) by (simp add: gate_closed_def)
  then show ?thesis using assms(8,9) by (rule closed_gate_batch)
qed

theorem dark_system3_submits_nothing_witness:
  "cs_world (fst (handle_batch (wit_consumer\<lparr>oc_gate := Some (\<lambda>w. can_submit (transition PAUSED ''queue_stale'' (new_monitor wit_config wit_start)))\<rparr>)
     wit_now [wit_bad] [] wit_state)) = cs_world wit_state"
proof -
  let ?m = "new_monitor wit_config wit_start" and ?now = "wit_start + 301000000"
  let ?oc = "wit_consumer\<lparr>oc_gate := Some (\<lambda>w. can_submit (transition PAUSED ''queue_stale'' ?m))\<rparr>"
  have s: "is_in_session ?now" unfolding wit_start_def by code_simp
  have lim: "sc_limit (sm_config ?m) = Fin 300" "sc_hyst (sm_config ?m) = Fin 30" "sm_state ?m = RUNNING"
    by (simp_all add: new_monitor_def wit_config_def)
  have e: "evaluate is_in_session None ?now ?m = Inr (transition PAUSED ''queue_stale'' ?m)"
    by (simp add: evaluate_def evaluate_session_def s wit_stale lim Let_def)
  have g: "oc_gate ?oc = Some (\<lambda>w. can_submit ((\<lambda>_. transition PAUSED ''queue_stale'' ?m) w))" by simp
  have h: "list_all (\<lambda>msg. \<not> is_heartbeat msg) [wit_bad]"
    using wit_bad_facts(1,2) by (simp add: is_heartbeat_def)
  obtain st' r where b: "handle_batch ?oc wit_now [wit_bad] [] wit_state = (st', r)"
    by (cases "handle_batch ?oc wit_now [wit_bad] [] wit_state")
  have "cs_store st' = cs_store wit_state \<and> cs_world st' = cs_world wit_state"
    by (rule dark_system3_submits_nothing [OF e s _ _ _ g _ h b]) (simp_all add: lim wit_stale b64_small)
  then show ?thesis unfolding b by simp
qed

section \<open>Size and side\<close>

lemma build_order_units: "build_order (ord\<lparr>ao_units := x\<rparr>) entry = emap (\<lambda>c. c\<lparr>co_units := x\<rparr>) (build_order ord entry)"
proof -
  have d: "direction (ord\<lparr>ao_units := x\<rparr>) = direction ord" by (simp add: direction_def)
  show ?thesis unfolding build_order_def Let_def d by (simp add: emap_ebind case_prod_unfold cong: option.case_cong)
qed

lemma rat_trunc_minus: "rat_trunc (- u) = - rat_trunc u"
  by (auto simp: rat_trunc_def ceiling_def)

text \<open>Nothing ties the sign of the size to the side. Negating the size of an order that is built
  and put on the wire gives an order that every stage treats the same way: it is built with the same
  entry, stop and target, the last-line gate gives the same verdict, and the payload is built, with
  the size of opposite sign, which the broker reads as the opposite direction.\<close>

theorem size_sign_is_unchecked:
  assumes "build_order ord entry = Inr c" "payload_of c decimals = Inr v" "co_units c = Fin u"
  shows "build_order (ord\<lparr>ao_units := Fin (- u)\<rparr>) entry = Inr (c\<lparr>co_units := Fin (- u)\<rparr>)
    \<and> validate ov now (c\<lparr>co_units := Fin (- u)\<rparr>) equity notional = validate ov now c equity notional
    \<and> (\<exists>sl tp. v = order_payload c (rat_trunc u) sl tp
        \<and> payload_of (c\<lparr>co_units := Fin (- u)\<rparr>) decimals = Inr (order_payload c (- rat_trunc u) sl tp))"
proof (intro conjI)
  show "build_order (ord\<lparr>ao_units := Fin (- u)\<rparr>) entry = Inr (c\<lparr>co_units := Fin (- u)\<rparr>)"
    unfolding build_order_units using assms(1) by simp
  show "validate ov now (c\<lparr>co_units := Fin (- u)\<rparr>) equity notional = validate ov now c equity notional"
    by (simp add: validate_def assms(3) Let_def cong: option.case_cong)
  obtain sl tp st where q: "quantize_price (co_sl c) (co_instrument c) (Some decimals) (Some (co_entry c)) = Inr sl"
    "quantize_price (co_tp c) (co_instrument c) (Some decimals) (Some (co_entry c)) = Inr tp"
    "assert_protective_prices (if upper (co_side c) = ''BUY'' then 1 else -1) (co_entry c)
       (VFloat (dec_float sl)) (VFloat (dec_float tp)) = Inr st"
    "v = order_payload c (rat_trunc u) sl tp"
    using assms(2,3) by (auto simp: payload_of_def ebind_Inr_iff)
  have "payload_of (c\<lparr>co_units := Fin (- u)\<rparr>) decimals = Inr (order_payload c (- rat_trunc u) sl tp)"
    unfolding payload_of_def by (simp add: q(1-3) rat_trunc_minus order_payload_def)
  with q(4) show "\<exists>sl tp. v = order_payload c (rat_trunc u) sl tp
        \<and> payload_of (c\<lparr>co_units := Fin (- u)\<rparr>) decimals = Inr (order_payload c (- rat_trunc u) sl tp)" by blast
qed

definition wit_tight_order :: approved_order where
  "wit_tight_order = \<lparr>ao_key = ''k1'', ao_corr = ''c1'', ao_instrument = ''AUD_JPY'', ao_side = ''BUY'', ao_units = Fin 1000,
     ao_gran = ''H1'', ao_rc = \<lparr>rc_atr = Fin 1, rc_sl = Some (Fin 1), rc_tp = Some (Fin 3)\<rparr>, ao_signal = VNone, ao_strategy = VNone,
     ao_decision_id = VNone, ao_created = VNone, ao_schema = ''1'', ao_message = VNone\<rparr>"

lemma wit_tight_build: "build_order wit_tight_order (VFloat (Fin 2)) = Inr wit_tight"
  by (simp add: build_order_def wit_tight_order_def wit_tight_def require_market_price_def direction_def
      assert_protective_prices_def positive_price_def DEFAULT_RR_RATIO_def Let_def)

theorem size_sign_is_unchecked_witness:
  "\<exists>sl tp. payload_of (wit_tight\<lparr>co_units := Fin (- 1000)\<rparr>) 3 = Inr (order_payload wit_tight (- 1000) sl tp)"
proof -
  have u: "co_units wit_tight = Fin 1000" by (simp add: wit_tight_def)
  obtain sl tp where "payload_of (wit_tight\<lparr>co_units := Fin (- 1000)\<rparr>) 3 = Inr (order_payload wit_tight (- rat_trunc 1000) sl tp)"
    using size_sign_is_unchecked [OF wit_tight_build wit_payload u] by blast
  then show ?thesis by (intro exI [of _ sl] exI [of _ tp]) (simp add: rat_trunc_def)
qed

end
